(* ===== verification/Opl_Prelude.thy ===== *)
theory Opl_Prelude
  imports Main "HOL-Library.Word" "HOL-Library.Finite_Map" "HOL-Library.Char_ord"
    "HOL-Library.List_Lexorder"
begin

text \<open>
  The vocabulary the components share: bytes, Go strings and fixed-size arrays, Go error values
  with \<open>errors.Is\<close>, \<open>errors.Join\<close> and wrapping, big-endian integers, sub-slices, and the
  interface of a binary codec that every wire format of the program is an instance of.
\<close>

section \<open>Types\<close>

type_synonym byte = "8 word"
type_synonym bytes = "byte list"
type_synonym u16 = "16 word"
type_synonym u32 = "32 word"
type_synonym u64 = "64 word"

text \<open>
  A fixed-size array \<open>[n]byte\<close> is a word of \<open>8 * n\<close> bits, most significant byte first: its length
  is part of its type, two arrays are equal when their bytes are, and \<open>be_bytes\<close> is the subslice
  \<open>a[:]\<close>. Keys, nonces and MACs are \<open>[32]byte\<close>, a room key is \<open>[12]byte\<close>.
\<close>

type_synonym arr32 = "256 word"
type_synonym arr12 = "96 word"

named_theorems wire \<open>layout lemmas of the binary formats\<close>
named_theorems go_def \<open>unfolding rules of small helpers of the source\<close>

section \<open>Go errors\<close>

text \<open>
  The sentinel errors of the packages and of the standard library that some code compares with
  \<open>errors.Is\<close>; \<open>Other\<close> is an \<open>errors.New\<close> that nothing compares, with its text.
\<close>

datatype errtag =
    LeaseErrFull | LeaseErrInvalid
  | StateErrInvalid
  | InviteErrFormat | InviteErrVersion
  | DeviceErrInvalid
  | SecretErrUnavailable | SecretErrStore
  | PairErrProtocol | PairErrAuthFailed | PairErrJoinPaused | PairErrMemberDisabled | PairErrRoomFull
  | RoomErrRunning | RoomErrStopped | RoomErrMember | RoomErrInput
  | CoreErrOpenP2PNotReady | CoreErrWireGuardFailed | CoreErrWireGuardUpdate | CoreErrNetworkActive
  | DiscErrFrame | DiscErrDuplicate
  | WgErrConfig
  | OpenP2PErrConfig
  | OsErrNotExist | OsPathError
  | IoEOF | IoErrUnexpectedEOF | IoErrShortWrite
  | CtxCanceled | CtxDeadlineExceeded
  | NetOpListen | NetOpOther | NetErrClosed
  | Other string

text \<open>
  An error is a sentinel or a value that wraps others: \<open>fmt.Errorf\<close> with \<open>%w\<close> verbs (an operand of
  \<open>%v\<close> is only printed, so it is not wrapped) or \<open>errors.Join\<close>.
\<close>

datatype goerror = ErrTag errtag | ErrWrap "goerror list"

type_synonym 'a result = "goerror + 'a"

fun errors_is :: "goerror \<Rightarrow> errtag \<Rightarrow> bool" where
  "errors_is (ErrTag t) u = (t = u)"
| "errors_is (ErrWrap es) u = (\<exists>e\<in>set es. errors_is e u)"

definition somes :: "'a option list \<Rightarrow> 'a list" where
  "somes xs = concat (map (\<lambda>x. case x of None \<Rightarrow> [] | Some y \<Rightarrow> [y]) xs)"

lemma somes_simps [simp]:
  "somes [] = []"
  "somes (None # xs) = somes xs"
  "somes (Some y # xs) = y # somes xs"
  by (simp_all add: somes_def)

text \<open>\<open>errors.Join\<close>: nil when every argument is nil.\<close>

definition errors_join :: "goerror option list \<Rightarrow> goerror option" where
  "errors_join es = (if somes es = [] then None else Some (ErrWrap (somes es)))"

lemma set_somes: "set (somes xs) = {y. Some y \<in> set xs}"
  by (induction xs) (auto simp: somes_def split: option.splits)

lemma errors_join_None: "errors_join es = None \<longleftrightarrow> (\<forall>e\<in>set es. e = None)"
proof -
  have "somes es = [] \<longleftrightarrow> set (somes es) = {}" by simp
  also have "\<dots> \<longleftrightarrow> (\<forall>e\<in>set es. e = None)"
    unfolding set_somes by (auto) (metis not_Some_eq)
  finally show ?thesis by (simp add: errors_join_def)
qed

text \<open>The sequencing of fallible calls: the first error returns.\<close>

definition bind_result :: "'a result \<Rightarrow> ('a \<Rightarrow> 'b result) \<Rightarrow> 'b result" where
  "bind_result r f = (case r of Inl e \<Rightarrow> Inl e | Inr x \<Rightarrow> f x)"

lemma bind_result_simps [simp]:
  "bind_result (Inl e) f = Inl e"
  "bind_result (Inr x) f = f x"
  by (simp_all add: bind_result_def)

lemma bind_result_Inr: "bind_result r f = Inr y \<longleftrightarrow> (\<exists>x. r = Inr x \<and> f x = Inr y)"
  by (cases r) auto

section \<open>Strings and bytes\<close>

text \<open>
  A Go string is a byte sequence, as is a HOL \<open>string\<close> (a list of 8-bit characters), so the
  conversions between \<open>string\<close> and \<open>[]byte\<close> lose nothing.
\<close>

definition bytes_of :: "string \<Rightarrow> bytes" where
  "bytes_of s = map (\<lambda>c. of_nat (of_char c)) s"

definition string_of :: "bytes \<Rightarrow> string" where
  "string_of bs = map (\<lambda>b. char_of (unat b)) bs"

lemma of_char_bound: "(of_char c :: nat) < 256"
  by (rule nat_of_char_less_256)

lemma byte_bound: "unat (b :: byte) < 256"
  using unsigned_less [of b] by simp

lemma unat_byte_of_nat: "n < 256 \<Longrightarrow> unat (of_nat n :: byte) = n"
  by (simp add: unat_of_nat)

lemma of_nat_byte_unat: "n = unat b \<Longrightarrow> of_nat n = (b :: byte)"
  by simp

lemma string_of_bytes_of [simp]: "string_of (bytes_of s) = s"
  by (induction s) (auto simp: string_of_def bytes_of_def unat_of_nat of_char_bound)

lemma bytes_of_string_of [simp]: "bytes_of (string_of bs) = bs"
proof (induction bs)
  case Nil
  then show ?case by (simp add: string_of_def bytes_of_def)
next
  case (Cons b bs)
  have "of_nat (unat b mod 256) = b"
    using byte_bound [of b] by simp
  with Cons show ?case by (simp add: string_of_def bytes_of_def)
qed

lemma length_bytes_of [simp]: "length (bytes_of s) = length s"
  by (simp add: bytes_of_def)

lemma length_string_of [simp]: "length (string_of bs) = length bs"
  by (simp add: string_of_def)

lemma bytes_of_inj [simp]: "bytes_of s = bytes_of t \<longleftrightarrow> s = t"
  by (metis string_of_bytes_of)

lemma bytes_of_Nil [simp]: "bytes_of s = [] \<longleftrightarrow> s = []"
  by (simp add: bytes_of_def)

lemma string_of_Nil [simp]: "string_of bs = [] \<longleftrightarrow> bs = []"
  by (simp add: string_of_def)

text \<open>\<open>b[i:j]\<close>, used only where the source has checked the bounds.\<close>

definition subslice :: "nat \<Rightarrow> nat \<Rightarrow> 'a list \<Rightarrow> 'a list" where
  "subslice i j xs = take (j - i) (drop i xs)"

lemma length_subslice [simp]: "length (subslice i j xs) = min (j - i) (length xs - i)"
  by (simp add: subslice_def)

lemma subslice_append_left [wire]:
  "j \<le> length xs \<Longrightarrow> subslice i j (xs @ ys) = subslice i j xs"
  by (simp add: subslice_def)

lemma subslice_append_right [wire]:
  "length xs \<le> i \<Longrightarrow> subslice i j (xs @ ys) = subslice (i - length xs) (j - length xs) ys"
  by (cases "i \<le> j") (simp_all add: subslice_def)

lemma subslice_all [wire]: "j = length xs \<Longrightarrow> subslice 0 j xs = xs"
  by (simp add: subslice_def)

lemma drop_append_exact [wire]: "n = length xs \<Longrightarrow> drop n (xs @ ys) = ys"
  by simp

lemma subslice_drop: "i \<le> j \<Longrightarrow> subslice i j xs @ drop j xs = drop i xs"
  using append_take_drop_id [of "j - i" "drop i xs"] by (simp add: subslice_def)

lemma take_drop_subslice: "take i xs @ subslice i j xs @ drop j xs = xs" if "i \<le> j"
  using subslice_drop [OF that, of xs] by simp

lemma subslice_Cons_nth: "i < j \<Longrightarrow> i < length xs \<Longrightarrow> subslice i j xs = xs ! i # subslice (Suc i) j xs"
proof -
  assume a: "i < j" "i < length xs"
  then have "drop i xs = xs ! i # drop (Suc i) xs" by (simp add: Cons_nth_drop_Suc)
  moreover have "j - i = Suc (j - Suc i)" using a by simp
  ultimately show ?thesis by (simp add: subslice_def)
qed

lemma subslice_join: "i \<le> j \<Longrightarrow> j \<le> k \<Longrightarrow> subslice i j xs @ subslice j k xs = subslice i k xs"
proof -
  assume a: "i \<le> j" "j \<le> k"
  have "take (k - i) (drop i xs) = take (j - i) (drop i xs) @ take (k - i - (j - i)) (drop (j - i) (drop i xs))"
    using a by (metis le_add_diff_inverse diff_le_mono take_add)
  moreover have "k - i - (j - i) = k - j" "j - i + i = j" using a by simp_all
  ultimately show ?thesis by (simp add: subslice_def)
qed

section \<open>Big-endian integers and fixed-size arrays\<close>

text \<open>\<open>binary.BigEndian.Uint..\<close>/\<open>PutUint..\<close>, and the bytes of a fixed-size array.\<close>

fun be_nat :: "bytes \<Rightarrow> nat \<Rightarrow> nat" where
  "be_nat [] acc = acc"
| "be_nat (b # bs) acc = be_nat bs (acc * 256 + unat b)"

fun put_nat :: "nat \<Rightarrow> nat \<Rightarrow> bytes \<Rightarrow> bytes" where
  "put_nat 0 x acc = acc"
| "put_nat (Suc n) x acc = put_nat n (x div 256) (of_nat (x mod 256) # acc)"

definition be_word :: "bytes \<Rightarrow> 'a::len word" where
  "be_word bs = of_nat (be_nat bs 0)"

definition be_bytes :: "'a::len word \<Rightarrow> bytes" where
  "be_bytes w = put_nat (LENGTH('a) div 8) (unat w) []"

lemma be_nat_append: "be_nat (xs @ ys) a = be_nat ys (be_nat xs a)"
  by (induction xs arbitrary: a) auto

lemma be_nat_acc: "be_nat bs a = a * 256 ^ length bs + be_nat bs 0"
proof (induction bs arbitrary: a)
  case Nil
  then show ?case by simp
next
  case (Cons b bs)
  have "be_nat (b # bs) a = (a * 256 + unat b) * 256 ^ length bs + be_nat bs 0"
    using Cons.IH [of "a * 256 + unat b"] by simp
  also have "\<dots> = a * 256 ^ length (b # bs) + (unat b * 256 ^ length bs + be_nat bs 0)"
    by (simp add: algebra_simps)
  also have "unat b * 256 ^ length bs + be_nat bs 0 = be_nat (b # bs) 0"
    using Cons.IH [of "unat b"] by simp
  finally show ?case .
qed

lemma be_nat_bound: "be_nat bs 0 < 256 ^ length bs"
proof (induction bs)
  case Nil
  then show ?case by simp
next
  case (Cons b bs)
  have "be_nat (b # bs) 0 = unat b * 256 ^ length bs + be_nat bs 0"
    using be_nat_acc [of bs "unat b"] by simp
  also have "\<dots> < (unat b + 1) * 256 ^ length bs" using Cons by (simp add: algebra_simps)
  also have "\<dots> \<le> 256 * 256 ^ length bs"
    using byte_bound [of b] by (intro mult_right_mono) auto
  finally show ?case by simp
qed

lemma put_nat_acc: "put_nat n x acc = put_nat n x [] @ acc"
proof (induction n arbitrary: x acc)
  case 0
  then show ?case by simp
next
  case (Suc n)
  show ?case
    by (simp only: put_nat.simps Suc.IH [of _ "of_nat (x mod 256) # acc"] Suc.IH [of _ "[of_nat (x mod 256)]"]) simp
qed

lemma length_put_nat [simp]: "length (put_nat n x acc) = n + length acc"
  by (induction n x acc rule: put_nat.induct) auto

lemma be_nat_put_nat: "be_nat (put_nat n x []) 0 = x mod 256 ^ n"
proof (induction n arbitrary: x)
  case 0
  then show ?case by simp
next
  case (Suc n)
  have "put_nat (Suc n) x [] = put_nat n (x div 256) [] @ [of_nat (x mod 256)]"
    by (simp add: put_nat_acc [of n _ "[_]"])
  then have "be_nat (put_nat (Suc n) x []) 0 = (x div 256 mod 256 ^ n) * 256 + x mod 256"
    by (simp add: be_nat_append Suc.IH unat_of_nat)
  also have "\<dots> = x mod 256 ^ Suc n"
    using mod_mult2_eq [of x 256 "256 ^ n"] by (simp add: mult.commute)
  finally show ?case .
qed

lemma put_nat_be_nat: "put_nat (length bs) (be_nat bs 0) [] = bs"
proof (induction bs rule: rev_induct)
  case Nil
  then show ?case by simp
next
  case (snoc b bs)
  have "be_nat (bs @ [b]) 0 = be_nat bs 0 * 256 + unat b"
    by (simp add: be_nat_append)
  moreover have "unat b < 256" by (rule byte_bound)
  ultimately have "be_nat (bs @ [b]) 0 div 256 = be_nat bs 0" "be_nat (bs @ [b]) 0 mod 256 = unat b"
    by simp_all
  then show ?case by (simp add: put_nat_acc [of _ _ "[_]"] snoc)
qed

lemma length_be_bytes [simp]: "length (be_bytes (w :: 'a::len word)) = LENGTH('a) div 8"
  by (simp add: be_bytes_def)

lemma pow256:
  assumes "8 dvd LENGTH('a::len)"
  shows "(256::nat) ^ (LENGTH('a) div 8) = 2 ^ LENGTH('a)"
proof -
  have "(256::nat) = 2 ^ 8" by simp
  then have "(256::nat) ^ (LENGTH('a) div 8) = 2 ^ (8 * (LENGTH('a) div 8))"
    by (simp only: power_mult)
  with assms show ?thesis by simp
qed

lemma be_word_be_bytes:
  assumes "8 dvd LENGTH('a::len)"
  shows "be_word (be_bytes (w :: 'a word)) = w"
proof -
  have "be_nat (put_nat (LENGTH('a) div 8) (unat w) []) 0 = unat w"
    using unsigned_less [of w] by (simp add: be_nat_put_nat pow256 [OF assms])
  then show ?thesis by (simp add: be_word_def be_bytes_def)
qed

lemma be_bytes_be_word:
  assumes "8 dvd LENGTH('a::len)" and "length bs = LENGTH('a) div 8"
  shows "be_bytes (be_word bs :: 'a word) = bs"
proof -
  have "be_nat bs 0 < 2 ^ LENGTH('a)"
    using be_nat_bound [of bs] by (simp add: assms(2) pow256 [OF assms(1)])
  then have "unat (be_word bs :: 'a word) = be_nat bs 0"
    by (simp add: be_word_def unat_of_nat)
  then show ?thesis using put_nat_be_nat [of bs] by (simp add: be_bytes_def assms(2))
qed

text \<open>The two round trips at the widths the program uses.\<close>

lemma be_word_be_bytes_widths [simp]:
  "be_word (be_bytes (a :: u16)) = a"
  "be_word (be_bytes (b :: u32)) = b"
  "be_word (be_bytes (c :: u64)) = c"
  "be_word (be_bytes (d :: arr12)) = d"
  "be_word (be_bytes (e :: arr32)) = e"
  by (simp_all add: be_word_be_bytes)

lemma be_bytes_be_word_widths [wire]:
  "length bs = 2 \<Longrightarrow> be_bytes (be_word bs :: u16) = bs"
  "length bs = 4 \<Longrightarrow> be_bytes (be_word bs :: u32) = bs"
  "length bs = 8 \<Longrightarrow> be_bytes (be_word bs :: u64) = bs"
  "length bs = 12 \<Longrightarrow> be_bytes (be_word bs :: arr12) = bs"
  "length bs = 32 \<Longrightarrow> be_bytes (be_word bs :: arr32) = bs"
  by (simp_all add: be_bytes_be_word)

lemma be_bytes_inj [simp]:
  "be_bytes (e :: arr32) = be_bytes e' \<longleftrightarrow> e = e'"
  "be_bytes (d :: arr12) = be_bytes d' \<longleftrightarrow> d = d'"
  "be_bytes (c :: u64) = be_bytes c' \<longleftrightarrow> c = c'"
  "be_bytes (b :: u32) = be_bytes b' \<longleftrightarrow> b = b'"
  "be_bytes (a :: u16) = be_bytes a' \<longleftrightarrow> a = a'"
  by (metis be_word_be_bytes_widths)+

section \<open>isZero\<close>

text \<open>
  The packages each have the same \<open>isZero\<close>: the bytes are OR-ed together and compared with 0.
\<close>

definition isZero :: "bytes \<Rightarrow> bool" where
  "isZero value = (foldl (\<lambda>combined b. or combined b) 0 value = (0 :: byte))"

lemma foldl_or_zero: "foldl (\<lambda>c b. or c b) (a :: byte) bs = 0 \<longleftrightarrow> a = 0 \<and> (\<forall>b\<in>set bs. b = 0)"
proof (induction bs arbitrary: a)
  case Nil
  then show ?case by simp
next
  case (Cons b bs)
  have "or a b = 0 \<longleftrightarrow> a = 0 \<and> b = 0"
    by (auto simp: or_eq_0_iff)
  with Cons.IH [of "or a b"] show ?case by auto
qed

lemma isZero_iff: "isZero bs \<longleftrightarrow> (\<forall>b\<in>set bs. b = 0)"
  by (simp add: isZero_def foldl_or_zero)

lemma be_nat_zero: "(\<forall>b\<in>set bs. b = 0) \<Longrightarrow> be_nat bs 0 = 0"
  by (induction bs) auto

lemma put_nat_zero: "put_nat n 0 [] = replicate n 0"
proof (induction n)
  case 0
  then show ?case by simp
next
  case (Suc n)
  have "put_nat (Suc n) 0 [] = put_nat n 0 [] @ [0]"
    by (simp add: put_nat_acc [of n _ "[_]"])
  with Suc show ?case by (simp add: replicate_append_same)
qed

lemma isZero_be_bytes:
  assumes "8 dvd LENGTH('a::len)"
  shows "isZero (be_bytes (w :: 'a word)) \<longleftrightarrow> w = 0"
proof
  assume "isZero (be_bytes w)"
  then have "be_nat (be_bytes w) 0 = 0" by (simp add: isZero_iff be_nat_zero)
  then have "(be_word (be_bytes w) :: 'a word) = 0" by (simp add: be_word_def)
  then show "w = 0" by (simp add: be_word_be_bytes [OF assms])
next
  assume "w = 0"
  then show "isZero (be_bytes w)" by (simp add: be_bytes_def put_nat_zero isZero_iff)
qed

lemma isZero_arrays [simp]:
  "isZero (be_bytes (e :: arr32)) \<longleftrightarrow> e = 0"
  "isZero (be_bytes (d :: arr12)) \<longleftrightarrow> d = 0"
  by (simp_all add: isZero_be_bytes)

section \<open>The interface of a binary codec\<close>

text \<open>
  A wire format is an encoder and a decoder, both fallible, and the set of values the encoder is
  meant for. A client of the interface relies on two laws: every such value can be encoded, and
  what was encoded decodes to the same value.
\<close>

locale codec =
  fixes enc :: "'a \<Rightarrow> 'w list result"
    and dec :: "'w list \<Rightarrow> 'a result"
    and ok :: "'a \<Rightarrow> bool"
  assumes enc_total: "ok v \<Longrightarrow> \<exists>bs. enc v = Inr bs"
    and dec_enc: "ok v \<Longrightarrow> enc v = Inr bs \<Longrightarrow> dec bs = Inr v"
begin

lemma roundtrip: "ok v \<Longrightarrow> bind_result (enc v) dec = Inr v"
  using enc_total [of v] dec_enc [of v] by auto

lemma enc_inj: "ok v \<Longrightarrow> ok w \<Longrightarrow> enc v = enc w \<Longrightarrow> v = w"
  using enc_total [of v] dec_enc by (metis Inr_inject)

end

text \<open>
  A canonical codec has one encoding per value: the decoder accepts nothing but what the encoder
  writes, so bytes that decode are determined by the value they stand for.
\<close>

locale canonical_codec = codec +
  assumes dec_ok: "dec bs = Inr v \<Longrightarrow> ok v"
    and enc_dec: "dec bs = Inr v \<Longrightarrow> enc v = Inr bs"
begin

lemma dec_inj: "dec bs = Inr v \<Longrightarrow> dec cs = Inr v \<Longrightarrow> bs = cs"
  by (drule enc_dec)+ simp

lemma dec_iff: "dec bs = Inr v \<longleftrightarrow> ok v \<and> enc v = Inr bs"
  using dec_ok enc_dec dec_enc by blast

end

end
