(* ===== verification/Go_Text.thy ===== *)
theory Go_Text
  imports Opl_Prelude
begin

text \<open>
  The parts of \<open>unicode/utf8\<close>, \<open>strings\<close>, \<open>strconv\<close> and \<open>net/netip\<close> the program uses: decoding
  of runes (\<open>for _, r := range s\<close>), \<open>utf8.ValidString\<close>, \<open>strings.TrimSpace\<close>, decimal numbers,
  and IP addresses with their text form.
\<close>

section \<open>UTF-8\<close>

text \<open>
  \<open>utf8.DecodeRune\<close>: the rune and its width. An invalid or truncated sequence gives the
  replacement character 0xFFFD with width 1; the ranges of the second byte exclude over-long
  forms, surrogates and values above 0x10FFFF.
\<close>

definition cont :: "nat \<Rightarrow> bool" where
  "cont b \<longleftrightarrow> 0x80 \<le> b \<and> b \<le> 0xBF"

definition decode_rune :: "nat list \<Rightarrow> nat \<times> nat" where
  "decode_rune bs =
     (case bs of
        [] \<Rightarrow> (0xFFFD, 0)
      | a # r1 \<Rightarrow>
        if a < 0x80 then (a, 1)
        else if 0xC2 \<le> a \<and> a \<le> 0xDF then
          (case r1 of b # _ \<Rightarrow> if cont b then (a mod 32 * 64 + b mod 64, 2) else (0xFFFD, 1)
           | _ \<Rightarrow> (0xFFFD, 1))
        else if 0xE0 \<le> a \<and> a \<le> 0xEF then
          (case r1 of b # c # _ \<Rightarrow>
             if (if a = 0xE0 then 0xA0 else 0x80) \<le> b \<and> b \<le> (if a = 0xED then 0x9F else 0xBF) \<and> cont c
             then (a mod 16 * 4096 + b mod 64 * 64 + c mod 64, 3) else (0xFFFD, 1)
           | _ \<Rightarrow> (0xFFFD, 1))
        else if 0xF0 \<le> a \<and> a \<le> 0xF4 then
          (case r1 of b # c # d # _ \<Rightarrow>
             if (if a = 0xF0 then 0x90 else 0x80) \<le> b \<and> b \<le> (if a = 0xF4 then 0x8F else 0xBF)
                \<and> cont c \<and> cont d
             then (a mod 8 * 262144 + b mod 64 * 4096 + c mod 64 * 64 + d mod 64, 4) else (0xFFFD, 1)
           | _ \<Rightarrow> (0xFFFD, 1))
        else (0xFFFD, 1))"

lemma decode_rune_width: "bs \<noteq> [] \<Longrightarrow> 0 < snd (decode_rune bs)"
  by (auto simp: decode_rune_def split: list.splits)

text \<open>The runes of a string with their widths, in order.\<close>

function runes :: "nat list \<Rightarrow> (nat \<times> nat) list" where
  "runes bs = (if bs = [] then [] else decode_rune bs # runes (drop (snd (decode_rune bs)) bs))"
  by pat_completeness auto
termination
  by (relation "measure length") (use decode_rune_width in auto)

declare runes.simps [simp del]

definition codes :: "string \<Rightarrow> nat list" where
  "codes s = map of_char s"

text \<open>\<open>utf8.ValidString\<close>: no rune is the width-1 replacement.\<close>

definition utf8_valid :: "string \<Rightarrow> bool" where
  "utf8_valid s \<longleftrightarrow> (0xFFFD, 1) \<notin> set (runes (codes s))"

text \<open>No control character: the loop \<open>for _, r := range s { if r < 0x20 || r == 0x7f ... }\<close>.\<close>

definition printable :: "string \<Rightarrow> bool" where
  "printable s \<longleftrightarrow> (\<forall>(r, w)\<in>set (runes (codes s)). \<not> (r < 0x20 \<or> r = 0x7F))"

text \<open>\<open>unicode.IsSpace\<close>.\<close>

definition is_space :: "nat \<Rightarrow> bool" where
  "is_space r \<longleftrightarrow> r \<in> {0x09, 0x0A, 0x0B, 0x0C, 0x0D, 0x20, 0x85, 0xA0, 0x1680, 0x2028, 0x2029, 0x202F,
     0x205F, 0x3000} \<or> 0x2000 \<le> r \<and> r \<le> 0x200A"

text \<open>
  \<open>strings.TrimSpace\<close>: the widths of the leading and of the trailing white-space runes are cut
  off. (On text that is not valid UTF-8 Go scans the end backwards; every caller here rejects
  such text whatever the trimming gives.)
\<close>

definition trim_space :: "string \<Rightarrow> string" where
  "trim_space s =
     (let rs = runes (codes s);
          lead = takeWhile (is_space \<circ> fst) rs;
          rest = drop (length lead) rs;
          trail = takeWhile (is_space \<circ> fst) (rev rest)
      in take (length s - sum_list (map snd lead) - sum_list (map snd trail))
           (drop (sum_list (map snd lead)) s))"

section \<open>ASCII text\<close>

lemma decode_rune_ascii: "a < 0x80 \<Longrightarrow> decode_rune (a # bs) = (a, 1)"
  by (simp add: decode_rune_def)

text \<open>Plain ASCII text, and text without blanks and control characters.\<close>

definition ascii :: "string \<Rightarrow> bool" where
  "ascii s \<longleftrightarrow> (\<forall>c\<in>set s. of_char c < (0x80 :: nat))"

lemma runes_ascii: "ascii s \<Longrightarrow> runes (codes s) = map (\<lambda>c. (of_char c, 1)) s"
  by (induction s) (auto simp: ascii_def runes.simps [of "_ # _"] runes.simps [of "[]"] decode_rune_ascii codes_def)

lemma utf8_ascii: "ascii s \<Longrightarrow> utf8_valid s"
  unfolding utf8_valid_def by (auto simp: runes_ascii ascii_def)

definition visible :: "string \<Rightarrow> bool" where
  "visible s \<longleftrightarrow> (\<forall>c\<in>set s. 0x20 < (of_char c :: nat) \<and> of_char c < (0x7F :: nat))"

lemma visible_ascii: "visible s \<Longrightarrow> ascii s"
  by (auto simp: visible_def ascii_def)

lemma visible_printable: "visible s \<Longrightarrow> printable s"
  by (auto simp: printable_def runes_ascii [OF visible_ascii] visible_def)

lemma visible_trim:
  assumes "visible s"
  shows "trim_space s = s"
proof -
  have n: "\<not> (is_space \<circ> fst) x" if "x \<in> set (runes (codes s))" for x
    using that assms by (auto simp: runes_ascii [OF visible_ascii [OF assms]] visible_def is_space_def)
  have "takeWhile (is_space \<circ> fst) xs = []" if "set xs \<subseteq> set (runes (codes s))" for xs
    using that n by (cases xs) auto
  then show ?thesis by (simp add: trim_space_def Let_def)
qed

lemmas visible_text = visible_trim visible_printable utf8_ascii [OF visible_ascii]

end
