(* ===== verification/Netip.thy ===== *)
theory Netip
  imports Go_Text "HOL-Library.Product_Lexorder"
begin

text \<open>
  \<open>net/netip\<close>: the address type with its order, the text form (\<open>Addr.String\<close>) and the parser
  (\<open>ParseAddr\<close>). Every virtual address of the program is an IPv4 address of 10.0.23.0/24; IPv6
  matters only as what the checks reject.
\<close>

section \<open>Addresses\<close>

text \<open>The zero \<open>Addr{}\<close>, an IPv4 address, an IPv6 address with its zone.\<close>

datatype addr = AddrZero | Addr4 u32 | Addr6 "128 word" string

definition Is4 :: "addr \<Rightarrow> bool" where
  "Is4 ip = (case ip of Addr4 _ \<Rightarrow> True | _ \<Rightarrow> False)"

lemma Is4_simps [simp]: "Is4 (Addr4 w)" "\<not> Is4 AddrZero" "\<not> Is4 (Addr6 v z)"
  by (simp_all add: Is4_def)

lemma Is4E: "Is4 ip \<Longrightarrow> (\<And>w. ip = Addr4 w \<Longrightarrow> P) \<Longrightarrow> P"
  by (cases ip) auto

text \<open>\<open>AddrFrom4\<close> and \<open>As4\<close>; \<open>As4\<close> panics on other addresses, and is called on IPv4 only.\<close>

definition AddrFrom4 :: "bytes \<Rightarrow> addr" where
  "AddrFrom4 bs = Addr4 (be_word bs)"

definition As4 :: "addr \<Rightarrow> bytes" where
  "As4 ip = (case ip of Addr4 w \<Rightarrow> be_bytes w | _ \<Rightarrow> [])"

lemma As4_simp [simp]: "As4 (Addr4 w) = be_bytes w"
  by (simp add: As4_def)

lemma AddrFrom4_As4 [simp]: "Is4 ip \<Longrightarrow> AddrFrom4 (As4 ip) = ip"
  by (auto elim!: Is4E simp: AddrFrom4_def)

lemma As4_AddrFrom4 [wire]: "length bs = 4 \<Longrightarrow> As4 (AddrFrom4 bs) = bs"
  by (simp add: AddrFrom4_def be_bytes_be_word_widths)

lemma length_As4 [simp]: "Is4 ip \<Longrightarrow> length (As4 ip) = 4"
  by (auto elim!: Is4E)

lemma Is4_AddrFrom4 [simp]: "Is4 (AddrFrom4 bs)"
  by (simp add: AddrFrom4_def)

text \<open>\<open>Addr.Compare\<close>: the bit length, then the value, then the zone.\<close>

definition addr_key :: "addr \<Rightarrow> nat \<times> nat \<times> string" where
  "addr_key ip = (case ip of AddrZero \<Rightarrow> (0, 0, '''') | Addr4 w \<Rightarrow> (32, unat w, '''')
     | Addr6 v z \<Rightarrow> (128, unat v, z))"

lemma addr_key_inj: "addr_key a = addr_key b \<Longrightarrow> a = b"
  by (cases a; cases b) (auto simp: addr_key_def word_unat_eq_iff)

instantiation addr :: linorder
begin

definition less_eq_addr :: "addr \<Rightarrow> addr \<Rightarrow> bool" where
  "a \<le> b \<longleftrightarrow> addr_key a \<le> addr_key b"

definition less_addr :: "addr \<Rightarrow> addr \<Rightarrow> bool" where
  "a < b \<longleftrightarrow> addr_key a < addr_key b"

instance
  by standard (auto simp: less_eq_addr_def less_addr_def dest: addr_key_inj)

end

lemma Addr4_le [simp]: "Addr4 v \<le> Addr4 w \<longleftrightarrow> v \<le> w"
  by (auto simp: less_eq_addr_def addr_key_def word_le_nat_alt)

section \<open>Decimal text\<close>

definition digit_char :: "nat \<Rightarrow> char" where
  "digit_char n = ''0123456789'' ! n"

text \<open>\<open>strconv.FormatUint(n, 10)\<close>, also what \<open>%d\<close> prints.\<close>

fun dec_string :: "nat \<Rightarrow> string" where
  "dec_string n = (if n < 10 then [digit_char n] else dec_string (n div 10) @ [digit_char (n mod 10)])"

declare dec_string.simps [simp del]

lemma dec_string_small: "n < 10 \<Longrightarrow> dec_string n = [digit_char n]"
  by (simp add: dec_string.simps [of n])

lemma dec_string_step: "10 \<le> n \<Longrightarrow> dec_string n = dec_string (n div 10) @ [digit_char (n mod 10)]"
  by (simp add: dec_string.simps [of n])

definition digit_value :: "char \<Rightarrow> nat option" where
  "digit_value c = (let n = of_char c :: nat in if 48 \<le> n \<and> n \<le> 57 then Some (n - 48) else None)"

lemma all_below_10: "(\<forall>n<10. P n) \<longleftrightarrow>
    P (0::nat) \<and> P 1 \<and> P 2 \<and> P 3 \<and> P 4 \<and> P 5 \<and> P 6 \<and> P 7 \<and> P 8 \<and> P 9"
  by (simp add: numeral_eq_Suc All_less_Suc2)

lemma digit_value_char [simp]: "n < 10 \<Longrightarrow> digit_value (digit_char n) = Some n"
proof -
  have "\<forall>n<10. digit_value (digit_char n) = Some n"
    unfolding all_below_10 by (simp add: digit_value_def digit_char_def)
  then show "n < 10 \<Longrightarrow> ?thesis" by blast
qed

lemma digit_char_not [simp]:
  "n < 10 \<Longrightarrow> digit_char n \<noteq> CHR ''.''" "n < 10 \<Longrightarrow> digit_char n \<noteq> CHR '':''"
  "n < 10 \<Longrightarrow> digit_char n \<noteq> CHR ''%''"
proof -
  have "\<forall>n<10. digit_char n \<noteq> CHR ''.'' \<and> digit_char n \<noteq> CHR '':'' \<and> digit_char n \<noteq> CHR ''%''"
    unfolding all_below_10 by (simp add: digit_char_def)
  then show "n < 10 \<Longrightarrow> digit_char n \<noteq> CHR ''.''" "n < 10 \<Longrightarrow> digit_char n \<noteq> CHR '':''"
    "n < 10 \<Longrightarrow> digit_char n \<noteq> CHR ''%''" by blast+
qed

lemma set_dec_string: "c \<in> set (dec_string n) \<Longrightarrow> \<exists>d<10. c = digit_char d"
proof (induction n rule: dec_string.induct)
  case (1 n)
  then show ?case
    by (cases "n < 10") (auto simp: dec_string.simps [of n] intro: exI [of _ "n mod 10"])
qed

lemma dec_string_notin [simp]:
  "CHR ''.'' \<notin> set (dec_string n)" "CHR '':'' \<notin> set (dec_string n)" "CHR ''%'' \<notin> set (dec_string n)"
  using set_dec_string digit_char_not by metis+

section \<open>Text form\<close>

definition dotted :: "bytes \<Rightarrow> string" where
  "dotted bs = (case map (dec_string \<circ> unat) bs of
     [a, b, c, d] \<Rightarrow> a @ ''.'' @ b @ ''.'' @ c @ ''.'' @ d | _ \<Rightarrow> '''')"

definition string4 :: "u32 \<Rightarrow> string" where
  "string4 w = dotted (be_bytes w)"

text \<open>
  IPv6: groups in lower-case hexadecimal without leading zeros, the first longest run of at least
  two zero groups as \<open>::\<close>, and an IPv4-mapped address in its mixed form.
\<close>

fun hex_string :: "nat \<Rightarrow> string" where
  "hex_string n = (if n < 16 then [''0123456789abcdef'' ! n]
     else hex_string (n div 16) @ [''0123456789abcdef'' ! (n mod 16)])"

declare hex_string.simps [simp del]

definition groups6 :: "128 word \<Rightarrow> nat list" where
  "groups6 v = map (\<lambda>i. unat v div 65536 ^ (7 - i) mod 65536) [0..<8]"

text \<open>The first of the longest runs of zeros from position \<open>i\<close>, as start and length.\<close>

fun zero_run :: "nat list \<Rightarrow> nat \<Rightarrow> nat \<times> nat \<Rightarrow> nat \<times> nat" where
  "zero_run [] i best = best"
| "zero_run (g # gs) i best =
     (let l = length (takeWhile (\<lambda>x. x = 0) (g # gs))
      in zero_run gs (Suc i) (if 2 \<le> l \<and> snd best < l then (i, l) else best))"

definition colons :: "nat list \<Rightarrow> string" where
  "colons gs = concat (case map hex_string gs of [] \<Rightarrow> [] | h # hs \<Rightarrow> h # map (\<lambda>s. '':'' @ s) hs)"

definition string6 :: "128 word \<Rightarrow> string" where
  "string6 v =
     (let gs = groups6 v; (s, l) = zero_run gs 0 (0, 0) in
      if l = 0 then colons gs
      else colons (take s gs) @ ''::'' @ colons (drop (s + l) gs))"

definition addr_string :: "addr \<Rightarrow> string" where
  "addr_string ip =
     (case ip of
        AddrZero \<Rightarrow> ''invalid IP''
      | Addr4 w \<Rightarrow> string4 w
      | Addr6 v z \<Rightarrow>
          (if unat v div 2 ^ 32 = 0xFFFF then ''::ffff:'' @ string4 (of_nat (unat v mod 2 ^ 32)) else string6 v)
            @ (if z = '''' then '''' else ''%'' @ z))"

section \<open>Parsing\<close>

text \<open>
  \<open>parseIPv4\<close>: the value and the digit count of the current octet and the octets before it. The
  source rejects a dot at the start, at the end or after a dot, which is a dot with no digit
  before it or nothing after it.
\<close>

fun parse4 :: "string \<Rightarrow> nat \<Rightarrow> nat \<Rightarrow> nat list \<Rightarrow> nat list option" where
  "parse4 [] val digLen fields = (if length fields < 3 then None else Some (fields @ [val]))"
| "parse4 (c # s) val digLen fields =
     (case digit_value c of
        Some d \<Rightarrow>
          if digLen = 1 \<and> val = 0 then None
          else if 255 < val * 10 + d then None
          else parse4 s (val * 10 + d) (Suc digLen) fields
      | None \<Rightarrow>
          if c = CHR ''.'' then
            (if digLen = 0 \<or> s = [] \<or> length fields = 3 then None
             else parse4 s 0 0 (fields @ [val]))
          else None)"

definition parseIPv4 :: "string \<Rightarrow> bytes option" where
  "parseIPv4 s = map_option (map of_nat) (parse4 s 0 0 [])"

text \<open>
  \<open>parseIPv6\<close> on the text without zone: hexadecimal groups of at most 16 bits, one ellipsis, an
  IPv4 address in the last two groups. \<open>ell\<close> is the number of groups before the ellipsis.
\<close>

definition hex_val :: "char \<Rightarrow> nat option" where
  "hex_val c =
     (let n = of_char c :: nat in
      if 48 \<le> n \<and> n \<le> 57 then Some (n - 48)
      else if 97 \<le> n \<and> n \<le> 102 then Some (n - 87)
      else if 65 \<le> n \<and> n \<le> 70 then Some (n - 55)
      else None)"

fun hex_prefix :: "string \<Rightarrow> nat \<Rightarrow> (nat \<times> string) option" where
  "hex_prefix [] acc = Some (acc, [])"
| "hex_prefix (c # s) acc =
     (case hex_val c of
        None \<Rightarrow> Some (acc, c # s)
      | Some d \<Rightarrow> if 65535 < acc * 16 + d then None else hex_prefix s (acc * 16 + d))"

lemma hex_prefix_length: "hex_prefix s a = Some (n, t) \<Longrightarrow> length t \<le> length s"
  by (induction s a rule: hex_prefix.induct) (auto split: option.splits if_splits dest: le_SucI)

text \<open>One round of the loop per group; \<open>gs\<close> are the groups so far.\<close>

function parse6 :: "string \<Rightarrow> nat list \<Rightarrow> nat option \<Rightarrow> (nat list \<times> nat option \<times> string) option" where
  "parse6 s gs ell =
     (if 8 \<le> length gs then Some (gs, ell, s)
      else
        (case hex_prefix s 0 of
           None \<Rightarrow> None
         | Some (acc, t) \<Rightarrow>
             if length t = length s then None
             else if t \<noteq> [] \<and> hd t = CHR ''.'' then
               (if ell = None \<and> length gs \<noteq> 6 \<or> 8 < length gs + 2 then None
                else
                  (case parse4 s 0 0 [] of
                     Some [a, b, c, d] \<Rightarrow> Some (gs @ [a * 256 + b, c * 256 + d], ell, [])
                   | _ \<Rightarrow> None))
             else if t = [] then Some (gs @ [acc], ell, [])
             else if hd t \<noteq> CHR '':'' \<or> tl t = [] then None
             else if hd (tl t) = CHR '':'' then
               (if ell \<noteq> None then None
                else if tl (tl t) = [] then Some (gs @ [acc], Some (Suc (length gs)), [])
                else parse6 (tl (tl t)) (gs @ [acc]) (Some (Suc (length gs))))
             else parse6 (tl t) (gs @ [acc]) ell))"
  by pat_completeness auto
termination
  by (relation "measure (\<lambda>(s, gs, ell). 8 - length gs)") auto

declare parse6.simps [simp del]

definition groups_to_v6 :: "nat list \<Rightarrow> 128 word" where
  "groups_to_v6 gs = of_nat (foldl (\<lambda>a g. a * 65536 + g) 0 gs)"

definition parseIPv6 :: "string \<Rightarrow> addr option" where
  "parseIPv6 input =
     (let s = takeWhile (\<lambda>c. c \<noteq> CHR ''%'') input;
          zoned = CHR ''%'' \<in> set input;
          zone = drop (Suc (length s)) input;
          lead = take 2 s = ''::'';
          s' = (if lead then drop 2 s else s)
      in if zoned \<and> zone = [] then None
         else if lead \<and> s' = [] then Some (Addr6 0 zone)
         else
           (case parse6 s' [] (if lead then Some 0 else None) of
              None \<Rightarrow> None
            | Some (gs, ell, rest) \<Rightarrow>
                if rest \<noteq> [] then None
                else if length gs < 8 then
                  (case ell of
                     None \<Rightarrow> None
                   | Some e \<Rightarrow> Some (Addr6 (groups_to_v6 (take e gs @ replicate (8 - length gs) 0 @ drop e gs)) zone))
                else if ell \<noteq> None then None
                else Some (Addr6 (groups_to_v6 gs) zone)))"

text \<open>\<open>ParseAddr\<close> looks for the first dot, colon or percent sign.\<close>

fun ParseAddr_at :: "string \<Rightarrow> string \<Rightarrow> addr option" where
  "ParseAddr_at s [] = None"
| "ParseAddr_at s (c # cs) =
     (if c = CHR ''.'' then map_option AddrFrom4 (parseIPv4 s)
      else if c = CHR '':'' then parseIPv6 s
      else if c = CHR ''%'' then None
      else ParseAddr_at s cs)"

definition ParseAddr :: "string \<Rightarrow> addr option" where
  "ParseAddr s = ParseAddr_at s s"

section \<open>The IPv4 round trip\<close>

lemma parse4_dec:
  assumes "n \<le> 255"
  shows "parse4 (dec_string n @ rest) 0 0 fs = parse4 rest n (length (dec_string n)) fs"
proof -
  consider "n < 10" | "10 \<le> n" "n < 100" | "100 \<le> n" by linarith
  then show ?thesis
  proof cases
    case 1
    then show ?thesis by (simp add: dec_string.simps [of n])
  next
    case 2
    then have d: "n div 10 < 10" "n div 10 \<noteq> 0" "n div 10 * 10 + n mod 10 = n" by auto
    have "dec_string n = [digit_char (n div 10), digit_char (n mod 10)]"
      by (simp only: dec_string_step [OF 2(1)] dec_string_small [OF d(1)]) simp
    then show ?thesis using d assms by simp
  next
    case 3
    then have d: "n div 10 div 10 < 10" "n div 10 div 10 \<noteq> 0" "10 \<le> n div 10" "10 \<le> n"
      "n div 10 div 10 * 10 + n div 10 mod 10 = n div 10" "n div 10 * 10 + n mod 10 = n"
      "n div 10 \<le> 255" "n div 10 div 10 \<le> 255"
      using assms by auto
    have "dec_string n = [digit_char (n div 10 div 10), digit_char (n div 10 mod 10), digit_char (n mod 10)]"
      by (simp only: dec_string_step [OF d(4)] dec_string_step [OF d(3)] dec_string_small [OF d(1)]) simp
    moreover have "n div 10 mod 10 < 10" "n mod 10 < 10" "n div 10 \<noteq> 0" using d by auto
    ultimately show ?thesis using d assms by simp
  qed
qed

lemma dec_string_ne [simp]: "dec_string n \<noteq> []"
  by (simp add: dec_string.simps [of n])

lemma parse4_dotted:
  assumes "a \<le> 255" "b \<le> 255" "c \<le> 255" "d \<le> 255"
  shows "parse4 (dec_string a @ ''.'' @ dec_string b @ ''.'' @ dec_string c @ ''.'' @ dec_string d) 0 0 []
    = Some [a, b, c, d]"
proof -
  have dot: "digit_value CHR ''.'' = None" by (simp add: digit_value_def)
  have last: "parse4 (dec_string d) 0 0 fs = parse4 [] d (length (dec_string d)) fs" for fs
    using parse4_dec [OF assms(4), of "[]"] by simp
  show ?thesis by (simp add: parse4_dec assms dot last)
qed

lemma list4: "length xs = 4 \<Longrightarrow> \<exists>a b c d. xs = [a, b, c, d]"
  by (auto simp: numeral_eq_Suc length_Suc_conv)

lemma unat_byte_le: "unat (b :: byte) \<le> 255"
  using byte_bound [of b] by simp

lemma parseIPv4_dotted: "length bs = 4 \<Longrightarrow> parseIPv4 (dotted bs) = Some bs"
  by (auto dest!: list4 simp: parseIPv4_def dotted_def parse4_dotted [unfolded append.simps] unat_byte_le)

lemma ParseAddr_at_skip:
  "CHR ''.'' \<notin> set p \<Longrightarrow> CHR '':'' \<notin> set p \<Longrightarrow> CHR ''%'' \<notin> set p \<Longrightarrow>
   ParseAddr_at s (p @ q) = ParseAddr_at s q"
  by (induction p) auto

lemma ParseAddr_string [simp]: "Is4 ip \<Longrightarrow> ParseAddr (addr_string ip) = Some ip"
proof (erule Is4E)
  fix w
  assume ip: "ip = Addr4 w"
  obtain a b c d where bs: "be_bytes w = [a, b, c, d]"
    using list4 [of "be_bytes w"] by auto
  have "ParseAddr (dotted [a, b, c, d]) = map_option AddrFrom4 (parseIPv4 (dotted [a, b, c, d]))"
    by (simp add: ParseAddr_def ParseAddr_at_skip dotted_def)
  also have "\<dots> = Some (AddrFrom4 [a, b, c, d])"
    by (simp add: parseIPv4_dotted)
  also have "AddrFrom4 [a, b, c, d] = Addr4 w"
    by (simp add: AddrFrom4_def flip: bs)
  finally show ?thesis by (simp add: ip addr_string_def string4_def bs)
qed

lemma addr_string_inj: "Is4 a \<Longrightarrow> Is4 b \<Longrightarrow> addr_string a = addr_string b \<Longrightarrow> a = b"
  by (metis ParseAddr_string option.inject)

section \<open>The addresses of 10.0.23.0/24\<close>

text \<open>The member addresses 10.0.23.2 to 10.0.23.254 and the host 10.0.23.1.\<close>

definition net_ip :: "byte \<Rightarrow> addr" where
  "net_ip octet = AddrFrom4 [10, 0, 23, octet]"

definition host_ip :: addr where
  "host_ip = net_ip 1"

lemma As4_net_ip [simp]: "As4 (net_ip o') = [10, 0, 23, o']"
  by (simp add: net_ip_def As4_AddrFrom4)

lemma Is4_net_ip [simp]: "Is4 (net_ip o')"
  by (simp add: net_ip_def)

lemma net_ip_inj [simp]: "net_ip a = net_ip b \<longleftrightarrow> a = b"
proof
  assume "net_ip a = net_ip b"
  then have "As4 (net_ip a) = As4 (net_ip b)" by simp
  then show "a = b" by simp
qed simp

lemma addr_string_AddrFrom4: "length bs = 4 \<Longrightarrow> addr_string (AddrFrom4 bs) = dotted bs"
  by (simp add: addr_string_def AddrFrom4_def string4_def be_bytes_be_word_widths)

lemma host_ip_string: "addr_string host_ip = ''10.0.23.1''"
proof -
  have "addr_string host_ip = dotted [10, 0, 23, 1]"
    unfolding host_ip_def net_ip_def by (rule addr_string_AddrFrom4) simp
  also have "\<dots> = dec_string 10 @ ''.'' @ dec_string 0 @ ''.'' @ dec_string 23 @ ''.'' @ dec_string 1"
    by (simp add: dotted_def)
  also have "\<dots> = ''10.0.23.1''"
    by (simp add: dec_string_step dec_string_small digit_char_def)
  finally show ?thesis .
qed

lemma net_ip_of: "Is4 ip \<Longrightarrow> As4 ip = [10, 0, 23, x] \<Longrightarrow> ip = net_ip x"
  by (metis AddrFrom4_As4 net_ip_def)

end
