(* ===== verification/Go_Encoding.thy ===== *)
theory Go_Encoding
  imports Opl_Prelude
begin

text \<open>
  The parts of the Go packages \<open>encoding/hex\<close> and \<open>encoding/base64\<close> that the program calls:
  \<open>hex.EncodeToString\<close>, \<open>hex.DecodeString\<close>, \<open>base64.StdEncoding\<close> (padded) and
  \<open>base64.RawURLEncoding\<close> (unpadded), with their round trips.
\<close>

section \<open>Hexadecimal\<close>

definition hex_digit :: "nat \<Rightarrow> char" where
  "hex_digit n = ''0123456789abcdef'' ! n"

text \<open>\<open>fromHexChar\<close>: both cases are accepted.\<close>

definition hex_value :: "char \<Rightarrow> nat option" where
  "hex_value c =
     (let n = of_char c :: nat in
      if 48 \<le> n \<and> n \<le> 57 then Some (n - 48)
      else if 97 \<le> n \<and> n \<le> 102 then Some (n - 87)
      else if 65 \<le> n \<and> n \<le> 70 then Some (n - 55)
      else None)"

fun hex_encode :: "bytes \<Rightarrow> string" where
  "hex_encode [] = []"
| "hex_encode (b # bs) = hex_digit (unat b div 16) # hex_digit (unat b mod 16) # hex_encode bs"

fun hex_decode :: "string \<Rightarrow> bytes option" where
  "hex_decode [] = Some []"
| "hex_decode [c] = None"
| "hex_decode (c # d # s) =
     (case (hex_value c, hex_value d) of
        (Some a, Some b) \<Rightarrow> map_option (Cons (of_nat (a * 16 + b))) (hex_decode s)
      | _ \<Rightarrow> None)"

lemma all_below_16: "(\<forall>n<16. P n) \<longleftrightarrow>
    P (0::nat) \<and> P 1 \<and> P 2 \<and> P 3 \<and> P 4 \<and> P 5 \<and> P 6 \<and> P 7 \<and>
    P 8 \<and> P 9 \<and> P 10 \<and> P 11 \<and> P 12 \<and> P 13 \<and> P 14 \<and> P 15"
  by (simp add: numeral_eq_Suc All_less_Suc2)

lemma hex_value_digit [simp]: "n < 16 \<Longrightarrow> hex_value (hex_digit n) = Some n"
proof -
  have "\<forall>n<16. hex_value (hex_digit n) = Some n"
    unfolding all_below_16 by (simp add: hex_value_def hex_digit_def)
  then show "n < 16 \<Longrightarrow> ?thesis" by blast
qed

lemma hex_value_bound: "hex_value c = Some n \<Longrightarrow> n < 16"
  by (auto simp: hex_value_def Let_def split: if_splits)

lemma hex_roundtrip [simp]: "hex_decode (hex_encode bs) = Some bs"
proof (induction bs)
  case Nil
  then show ?case by simp
next
  case (Cons b bs)
  have "unat b div 16 < 16" using byte_bound [of b] by simp
  moreover have "of_nat (unat b div 16 * 16 + unat b mod 16) = b" by simp
  ultimately show ?case using Cons by simp
qed

lemma length_hex_encode [simp]: "length (hex_encode bs) = 2 * length bs"
  by (induction bs) auto

lemma hex_encode_inj: "hex_encode bs = hex_encode cs \<Longrightarrow> bs = cs"
  by (metis hex_roundtrip option.inject)

lemma length_hex_decode: "hex_decode s = Some bs \<Longrightarrow> length s = 2 * length bs"
  by (induction s arbitrary: bs rule: hex_decode.induct) (auto split: option.splits)

text \<open>\<open>strings.ToLower\<close> on ASCII text (what hex strings are).\<close>

definition lower_char :: "char \<Rightarrow> char" where
  "lower_char c = (let n = of_char c :: nat in if 65 \<le> n \<and> n \<le> 90 then char_of (n + 32) else c)"

definition to_lower :: "string \<Rightarrow> string" where
  "to_lower s = map lower_char s"

lemma lower_hex_digit [simp]: "n < 16 \<Longrightarrow> lower_char (hex_digit n) = hex_digit n"
proof -
  have "\<forall>n<16. lower_char (hex_digit n) = hex_digit n"
    unfolding all_below_16 by (simp add: lower_char_def hex_digit_def)
  then show "n < 16 \<Longrightarrow> ?thesis" by blast
qed

lemma to_lower_hex_encode [simp]: "to_lower (hex_encode bs) = hex_encode bs"
proof (induction bs)
  case Nil
  then show ?case by (simp add: to_lower_def)
next
  case (Cons b bs)
  have "unat b div 16 < 16" using byte_bound [of b] by simp
  with Cons show ?case by (simp add: to_lower_def)
qed

text \<open>The lower-case form of a digit is the canonical digit of its value.\<close>

lemma hex_digit_value: "hex_value c = Some n \<Longrightarrow> hex_digit n = lower_char c"
proof -
  assume h: "hex_value c = Some n"
  then have n: "n < 16" by (rule hex_value_bound)
  have lower: "\<forall>n<16. (n < 10 \<longrightarrow> of_char (hex_digit n) = n + (48::nat)) \<and>
      (\<not> n < 10 \<longrightarrow> of_char (hex_digit n) = n + (87::nat))"
    unfolding all_below_16 by (simp add: hex_digit_def)
  have "of_char (hex_digit n) = (if n < 10 then n + 48 else n + (87::nat))"
    using lower n by simp
  moreover have "of_char (lower_char c) = (if n < 10 then n + 48 else n + (87::nat))"
    using h by (auto simp: hex_value_def lower_char_def Let_def simp del: of_char_eq_iff split: if_splits)
  ultimately have "of_char (hex_digit n) = (of_char (lower_char c) :: nat)" by simp
  then show ?thesis by (rule of_char_eqI)
qed

lemma hex_encode_decode: "hex_decode s = Some bs \<Longrightarrow> hex_encode bs = to_lower s"
proof (induction s arbitrary: bs rule: hex_decode.induct)
  case (3 c d s)
  then obtain a b cs where v: "hex_value c = Some a" "hex_value d = Some b"
    and cs: "hex_decode s = Some cs" "bs = of_nat (a * 16 + b) # cs"
    by (auto split: option.splits)
  have ab: "a < 16" "b < 16" using v by (auto dest: hex_value_bound)
  then have "unat (of_nat (a * 16 + b) :: byte) = a * 16 + b" by (intro unat_byte_of_nat) simp
  moreover have "(a * 16 + b) div 16 = a" "(a * 16 + b) mod 16 = b" using ab by auto
  ultimately show ?case using "3.IH" v cs by (simp add: to_lower_def hex_digit_value)
qed (auto simp: to_lower_def)

section \<open>Base64\<close>

definition b64_std :: string where
  "b64_std = ''ABCDEFGHIJKLMNOPQRSTUVWXYZabcdefghijklmnopqrstuvwxyz0123456789+/''"

definition b64_url :: string where
  "b64_url = ''ABCDEFGHIJKLMNOPQRSTUVWXYZabcdefghijklmnopqrstuvwxyz0123456789-_''"

text \<open>
  The alphabets share their first 62 characters; \<open>b64_value\<close> is the decode map of \<open>enc\<close>.
\<close>

definition b64_value :: "string \<Rightarrow> char \<Rightarrow> nat option" where
  "b64_value alphabet c =
     (let n = of_char c :: nat in
      if 65 \<le> n \<and> n \<le> 90 then Some (n - 65)
      else if 97 \<le> n \<and> n \<le> 122 then Some (n - 71)
      else if 48 \<le> n \<and> n \<le> 57 then Some (n + 4)
      else if c = alphabet ! 62 then Some 62
      else if c = alphabet ! 63 then Some 63
      else None)"

text \<open>\<open>Encode\<close>: three bytes become four characters; a rest of one or two bytes is padded or not.\<close>

fun b64_encode :: "string \<Rightarrow> bool \<Rightarrow> bytes \<Rightarrow> string" where
  "b64_encode al pad [] = []"
| "b64_encode al pad [x] =
     [al ! (unat x div 4), al ! (unat x mod 4 * 16)] @ (if pad then ''=='' else [])"
| "b64_encode al pad [x, y] =
     [al ! (unat x div 4), al ! (unat x mod 4 * 16 + unat y div 16), al ! (unat y mod 16 * 4)]
       @ (if pad then ''='' else [])"
| "b64_encode al pad (x # y # z # bs) =
     al ! (unat x div 4) # al ! (unat x mod 4 * 16 + unat y div 16)
       # al ! (unat y mod 16 * 4 + unat z div 64) # al ! (unat z mod 64)
       # b64_encode al pad bs"

text \<open>
  \<open>Decode\<close>: carriage returns and line feeds are skipped wherever they stand. Trailing bits of the
  last character are not checked (the encodings are not \<open>Strict\<close>). A padded encoding needs
  its padding and nothing after it, an unpadded one takes no padding.
\<close>

definition skip_newlines :: "string \<Rightarrow> string" where
  "skip_newlines s = filter (\<lambda>c. c \<noteq> CHR 0x0A \<and> c \<noteq> CHR 0x0D) s"

fun b64_groups :: "string \<Rightarrow> bool \<Rightarrow> string \<Rightarrow> bytes option" where
  "b64_groups al pad [] = Some []"
| "b64_groups al pad [c] = None"
| "b64_groups al pad [c, d] =
     (if pad then None else
      case (b64_value al c, b64_value al d) of
        (Some i, Some j) \<Rightarrow> Some [of_nat (i * 4 + j div 16)]
      | _ \<Rightarrow> None)"
| "b64_groups al pad [c, d, e] =
     (if pad then None else
      case (b64_value al c, b64_value al d, b64_value al e) of
        (Some i, Some j, Some k) \<Rightarrow>
          Some [of_nat (i * 4 + j div 16), of_nat (j mod 16 * 16 + k div 4)]
      | _ \<Rightarrow> None)"
| "b64_groups al pad (c # d # e # f # s) =
     (case (b64_value al c, b64_value al d, b64_value al e, b64_value al f) of
        (Some i, Some j, Some k, Some l) \<Rightarrow>
          map_option (\<lambda>bs. of_nat (i * 4 + j div 16) # of_nat (j mod 16 * 16 + k div 4)
             # of_nat (k mod 4 * 64 + l) # bs) (b64_groups al pad s)
      | (Some i, Some j, Some k, None) \<Rightarrow>
          if pad \<and> f = CHR ''='' \<and> s = [] then
            Some [of_nat (i * 4 + j div 16), of_nat (j mod 16 * 16 + k div 4)]
          else None
      | (Some i, Some j, None, None) \<Rightarrow>
          if pad \<and> e = CHR ''='' \<and> f = CHR ''='' \<and> s = [] then Some [of_nat (i * 4 + j div 16)]
          else None
      | _ \<Rightarrow> None)"

definition b64_decode :: "string \<Rightarrow> bool \<Rightarrow> string \<Rightarrow> bytes option" where
  "b64_decode al pad s = b64_groups al pad (skip_newlines s)"

abbreviation std_encode :: "bytes \<Rightarrow> string" where
  "std_encode \<equiv> b64_encode b64_std True"

abbreviation std_decode :: "string \<Rightarrow> bytes option" where
  "std_decode \<equiv> b64_decode b64_std True"

abbreviation rawurl_encode :: "bytes \<Rightarrow> string" where
  "rawurl_encode \<equiv> b64_encode b64_url False"

abbreviation rawurl_decode :: "string \<Rightarrow> bytes option" where
  "rawurl_decode \<equiv> b64_decode b64_url False"

lemma all_below_64: "(\<forall>n<64. P n) \<longleftrightarrow> (\<forall>q<4::nat. \<forall>r<16. P (q * 16 + r))"
proof
  assume a: "\<forall>q<4. \<forall>r<16. P (q * 16 + r)"
  show "\<forall>n<64. P n"
  proof (intro allI impI)
    fix n :: nat
    assume "n < 64"
    then have "n div 16 < 4" "n mod 16 < 16" by auto
    with a have "P (n div 16 * 16 + n mod 16)" by blast
    then show "P n" by simp
  qed
next
  assume a: "\<forall>n<64. P n"
  show "\<forall>q<4. \<forall>r<16. P (q * 16 + r)"
  proof (intro allI impI)
    fix q r :: nat
    assume "q < 4" "r < 16"
    then have "q * 16 + r < 64" by simp
    with a show "P (q * 16 + r)" by blast
  qed
qed

lemma all_below_4: "(\<forall>n<4. P n) \<longleftrightarrow> P (0::nat) \<and> P 1 \<and> P 2 \<and> P 3"
  by (simp add: numeral_eq_Suc All_less_Suc2)

text \<open>What the two alphabets have in common, and the only facts the round trip needs.\<close>

definition alphabet :: "string \<Rightarrow> bool" where
  "alphabet al \<longleftrightarrow> (\<forall>n<64. b64_value al (al ! n) = Some n \<and>
     al ! n \<noteq> CHR 0x0A \<and> al ! n \<noteq> CHR 0x0D \<and> al ! n \<noteq> CHR ''='')"

lemma alphabet_std [simp]: "alphabet b64_std"
  unfolding alphabet_def all_below_64 all_below_4 all_below_16
  by (simp add: b64_value_def b64_std_def)

lemma alphabet_url [simp]: "alphabet b64_url"
  unfolding alphabet_def all_below_64 all_below_4 all_below_16
  by (simp add: b64_value_def b64_url_def)

lemma b64_value_nth [simp]: "alphabet al \<Longrightarrow> n < 64 \<Longrightarrow> b64_value al (al ! n) = Some n"
  by (simp add: alphabet_def)

lemma b64_value_pad [simp]: "alphabet al \<Longrightarrow> b64_value al CHR ''='' = None"
proof -
  assume "alphabet al"
  then have "al ! 62 \<noteq> CHR ''=''" "al ! 63 \<noteq> CHR ''=''" by (simp_all add: alphabet_def)
  then show ?thesis by (auto simp: b64_value_def)
qed

text \<open>The sextets of a group of bytes are below 64, and give the bytes back.\<close>

lemma sextet_bounds [simp]:
  fixes x y z :: byte
  shows "unat x div 4 < 64" "unat x mod 4 * 16 < 64" "unat x mod 4 * 16 + unat y div 16 < 64"
    "unat y mod 16 * 4 < 64" "unat y mod 16 * 4 + unat z div 64 < 64" "unat z mod 64 < 64"
  using byte_bound [of x] byte_bound [of y] byte_bound [of z] by simp_all

lemma byte_div [simp]: "unat (y :: byte) div 16 < 16" "unat (z :: byte) div 64 < 4"
  using byte_bound [of y] byte_bound [of z] by simp_all

lemma div_mod_pack: "b < k \<Longrightarrow> (a * k + b) div k = a" "b < k \<Longrightarrow> (a * k + b) mod k = (b::nat)"
  by auto

lemma sextets_join:
  fixes x y z :: byte
  shows "of_nat (unat x div 4 * 4 + (unat x mod 4 * 16 + unat y div 16) div 16) = x"
    "of_nat ((unat x mod 4 * 16 + unat y div 16) mod 16 * 16
        + (unat y mod 16 * 4 + unat z div 64) div 4) = y"
    "of_nat ((unat y mod 16 * 4 + unat z div 64) mod 4 * 64 + unat z mod 64) = z"
    "of_nat (unat x div 4 * 4 + (unat x mod 4 * 16) div 16) = x"
    "of_nat ((unat x mod 4 * 16 + unat y div 16) mod 16 * 16 + (unat y mod 16 * 4) div 4) = y"
proof -
  have d: "unat y div 16 < 16" "unat z div 64 < 4"
    using byte_bound [of y] byte_bound [of z] by simp_all
  note p = div_mod_pack [OF d(1)] div_mod_pack [OF d(2)]
  show "of_nat (unat x div 4 * 4 + (unat x mod 4 * 16 + unat y div 16) div 16) = x"
    by (rule of_nat_byte_unat) (simp add: p d)
  show "of_nat ((unat x mod 4 * 16 + unat y div 16) mod 16 * 16
        + (unat y mod 16 * 4 + unat z div 64) div 4) = y"
    by (rule of_nat_byte_unat) (simp add: p d)
  show "of_nat ((unat y mod 16 * 4 + unat z div 64) mod 4 * 64 + unat z mod 64) = z"
    by (rule of_nat_byte_unat) (simp add: p d)
  show "of_nat (unat x div 4 * 4 + (unat x mod 4 * 16) div 16) = x"
    by (rule of_nat_byte_unat) simp
  show "of_nat ((unat x mod 4 * 16 + unat y div 16) mod 16 * 16 + (unat y mod 16 * 4) div 4) = y"
    by (rule of_nat_byte_unat) (simp add: p d)
qed

lemma b64_groups_encode: "alphabet al \<Longrightarrow> b64_groups al pad (b64_encode al pad bs) = Some bs"
proof (induction al pad bs rule: b64_encode.induct)
  case (2 al pad x)
  then show ?case by (cases pad) (simp_all add: sextets_join del: of_nat_add of_nat_mult)
next
  case (3 al pad x y)
  then show ?case by (cases pad) (simp_all add: sextets_join del: of_nat_add of_nat_mult)
next
  case (4 al pad x y z bs)
  then show ?case by (simp add: sextets_join del: of_nat_add of_nat_mult)
qed simp

lemma skip_newlines_encode: "alphabet al \<Longrightarrow> skip_newlines (b64_encode al pad bs) = b64_encode al pad bs"
proof (induction al pad bs rule: b64_encode.induct)
  case (2 al pad x)
  then show ?case by (cases pad) (simp_all add: skip_newlines_def alphabet_def)
next
  case (3 al pad x y)
  then show ?case by (cases pad) (simp_all add: skip_newlines_def alphabet_def)
next
  case (4 al pad x y z bs)
  then show ?case by (simp add: skip_newlines_def alphabet_def)
qed (simp add: skip_newlines_def)

lemma b64_roundtrip: "alphabet al \<Longrightarrow> b64_decode al pad (b64_encode al pad bs) = Some bs"
  by (simp add: b64_decode_def skip_newlines_encode b64_groups_encode)

lemma std_roundtrip [simp]: "std_decode (std_encode bs) = Some bs"
  by (simp add: b64_roundtrip)

lemma rawurl_roundtrip [simp]: "rawurl_decode (rawurl_encode bs) = Some bs"
  by (simp add: b64_roundtrip)

lemma std_encode_inj [simp]: "std_encode bs = std_encode cs \<longleftrightarrow> bs = cs"
  by (metis std_roundtrip option.inject)

lemma length_b64_encode_raw:
  "length bs mod 3 = 0 \<Longrightarrow> length (b64_encode al pad bs) = 4 * (length bs div 3)"
proof (induction al pad bs rule: b64_encode.induct)
  case (4 al pad x y z bs)
  have "length (x # y # z # bs) mod 3 = length bs mod 3" by (simp add: mod_simps)
  with 4 have "length (b64_encode al pad bs) = 4 * (length bs div 3)" by simp
  then show ?case by simp
qed auto

text \<open>
  When the decoded length is a multiple of three, nothing is left over, no trailing bit is
  ignored, and the (newline-free) text is the one the encoder writes.
\<close>

lemma b64_value_cases:
  assumes "b64_value al c = Some n"
  shows "n < 64 \<and> (n < 62 \<longrightarrow> of_char c = (if n < 26 then n + 65 else if n < 52 then n + 71 else n - 4))
    \<and> (62 \<le> n \<longrightarrow> c = al ! n)"
  using assms by (auto simp: b64_value_def Let_def simp del: of_char_eq_iff split: if_splits)

lemma b64_value_inv:
  assumes al: "alphabet al" and v: "b64_value al c = Some n"
  shows "al ! n = c"
proof (cases "n < 62")
  case True
  have "b64_value al (al ! n) = Some n" using al b64_value_cases [OF v] by simp
  from b64_value_cases [OF this] b64_value_cases [OF v] True
  have "of_char (al ! n) = (of_char c :: nat)" by metis
  then show ?thesis by (rule of_char_eqI)
next
  case False
  with b64_value_cases [OF v] show ?thesis by simp
qed

lemma b64_value_bound: "b64_value al c = Some n \<Longrightarrow> n < 64"
  using b64_value_cases by blast

lemma sextets_split:
  assumes "i < 64" "j < 64" "k < 64" "l < (64::nat)"
  defines "x \<equiv> of_nat (i * 4 + j div 16) :: byte" and "y \<equiv> of_nat (j mod 16 * 16 + k div 4) :: byte"
    and "z \<equiv> of_nat (k mod 4 * 64 + l) :: byte"
  shows "unat x div 4 = i" "unat x mod 4 * 16 + unat y div 16 = j"
    "unat y mod 16 * 4 + unat z div 64 = k" "unat z mod 64 = l"
proof -
  have d: "j div 16 < 4" "k div 4 < 16" "j mod 16 < 16" "k mod 4 < 4" using assms(1-4) by auto
  have x: "unat x = i * 4 + j div 16" unfolding x_def using assms(1) d by (intro unat_byte_of_nat) linarith
  have y: "unat y = j mod 16 * 16 + k div 4" unfolding y_def using d by (intro unat_byte_of_nat) linarith
  have z: "unat z = k mod 4 * 64 + l" unfolding z_def using assms(4) d by (intro unat_byte_of_nat) linarith
  show "unat x div 4 = i" unfolding x using d by auto
  show "unat z mod 64 = l" unfolding z using assms(4) by auto
  have "unat x mod 4 = j div 16" "unat y div 16 = j mod 16" unfolding x y using d by auto
  then show "unat x mod 4 * 16 + unat y div 16 = j" by simp
  have "unat y mod 16 = k div 4" "unat z div 64 = k mod 4" unfolding y z using d assms(4) by auto
  then show "unat y mod 16 * 4 + unat z div 64 = k" by simp
qed

lemma not_3_dvd_2: "\<not> 3 dvd Suc (Suc 0)"
  by presburger

lemma b64_groups_canonical:
  assumes "alphabet al" and "b64_groups al pad s = Some bs" and "length bs mod 3 = 0"
  shows "b64_encode al pad bs = s"
  using assms
proof (induction al pad s arbitrary: bs rule: b64_groups.induct)
  case (5 al pad c d e f s)
  then obtain i j where ij: "b64_value al c = Some i" "b64_value al d = Some j"
    by (auto split: option.splits)
  from 5 ij obtain k where k: "b64_value al e = Some k"
    by (auto split: option.splits if_splits)
  from 5 ij k obtain l where l: "b64_value al f = Some l"
    by (auto simp: not_3_dvd_2 split: option.splits if_splits)
  from 5 ij k l obtain cs where cs: "b64_groups al pad s = Some cs"
    "bs = of_nat (i * 4 + j div 16) # of_nat (j mod 16 * 16 + k div 4) # of_nat (k mod 4 * 64 + l) # cs"
    by auto
  have "length cs mod 3 = 0" using "5.prems" cs by (simp add: mod_simps)
  then have IH: "b64_encode al pad cs = s" 
    using "5.IH" [OF refl ij(1) refl ij(2) refl k l "5.prems"(1) cs(1)] by simp
  have b: "i < 64" "j < 64" "k < 64" "l < 64"
    using b64_value_bound ij k l by blast+
  show ?case unfolding cs(2) b64_encode.simps sextets_split [OF b] IH
    using b64_value_inv [OF "5.prems"(1)] ij k l by simp
qed (auto simp: not_3_dvd_2 split: option.splits if_splits)

text \<open>
  A text that decodes to a multiple of three bytes is, up to line breaks, what the encoder writes.
\<close>

lemma b64_canonical:
  "alphabet al \<Longrightarrow> b64_decode al pad s = Some bs \<Longrightarrow> length bs mod 3 = 0 \<Longrightarrow>
   b64_encode al pad bs = skip_newlines s"
  by (simp add: b64_decode_def b64_groups_canonical)

end
