(* ===== verification/Go_Json.thy ===== *)
theory Go_Json
  imports Netip Go_Encoding
begin

text \<open>
  The part of \<open>encoding/json\<close> the program uses: the syntax tree of a document, the printer of
  \<open>json.Marshal\<close> and \<open>json.MarshalIndent\<close>, the parser, and the matching of object keys with struct
  fields. A printed document parses back to itself.
\<close>

section \<open>Documents\<close>

text \<open>Numbers keep their literal, as the decoder does until it knows the field's type.\<close>

datatype json = JNull | JBool bool | JNum string | JStr string | JArr "json list" | JObj "(string \<times> json) list"

section \<open>Strings\<close>

text \<open>The escapes of the encoder with HTML escaping on.\<close>

definition esc_ascii :: "nat \<Rightarrow> string" where
  "esc_ascii n =
     (if n = 0x22 \<or> n = 0x5C then [char_of (0x5C :: nat), char_of n]
      else if n = 0x0A then [char_of (0x5C :: nat), CHR ''n'']
      else if n = 0x0D then [char_of (0x5C :: nat), CHR ''r'']
      else if n = 0x09 then [char_of (0x5C :: nat), CHR ''t'']
      else if n < 0x20 \<or> n = 0x3C \<or> n = 0x3E \<or> n = 0x26
      then char_of (0x5C :: nat) # ''u00'' @ [hex_digit (n div 16), hex_digit (n mod 16)]
      else [char_of n])"

lemma drop_rune_less: "(r, w) = decode_rune (x # xs) \<Longrightarrow> Suc n - w < Suc n"
  using decode_rune_width [of "x # xs"] by (metis diff_less list.distinct(1) snd_conv zero_less_Suc)

function quote_body :: "string \<Rightarrow> string" where
  "quote_body s =
     (case s of
        [] \<Rightarrow> []
      | c # t \<Rightarrow>
          if of_char c < (0x80 :: nat) then esc_ascii (of_char c) @ quote_body t
          else
            (let (r, w) = decode_rune (codes s) in
             if (r, w) = (0xFFFD, 1) then char_of (0x5C :: nat) # ''ufffd'' @ quote_body t
             else if r = 0x2028 \<or> r = 0x2029
             then char_of (0x5C :: nat) # ''u202'' @ [hex_digit (r mod 16)] @ quote_body (drop w s)
             else take w s @ quote_body (drop w s)))"
  by pat_completeness auto
termination
  by (relation "measure length") (auto simp: codes_def intro: drop_rune_less)

declare quote_body.simps [simp del]

definition json_quote :: "string \<Rightarrow> string" where
  "json_quote s = char_of (0x22 :: nat) # quote_body s @ [char_of (0x22 :: nat)]"

text \<open>\<open>utf8.EncodeRune\<close>, of a rune the decoder has made: surrogates and too large values give 0xFFFD.\<close>

definition encode_rune :: "nat \<Rightarrow> string" where
  "encode_rune r =
     map char_of
       (if r < 0x80 then [r]
        else if r < 0x800 then [0xC0 + r div 64, 0x80 + r mod 64]
        else if r > 0x10FFFF \<or> 0xD800 \<le> r \<and> r \<le> 0xDFFF then [0xEF, 0xBF, 0xBD]
        else if r < 0x10000 then [0xE0 + r div 4096, 0x80 + r div 64 mod 64, 0x80 + r mod 64]
        else [0xF0 + r div 262144, 0x80 + r div 4096 mod 64, 0x80 + r div 64 mod 64, 0x80 + r mod 64])"

text \<open>\<open>getu4\<close> after the \<open>u\<close>: four hexadecimal digits.\<close>

definition getu4 :: "string \<Rightarrow> nat option" where
  "getu4 s =
     (case map hex_value (take 4 s) of
        [Some a, Some b, Some c, Some d] \<Rightarrow> Some (a * 4096 + b * 256 + c * 16 + d)
      | _ \<Rightarrow> None)"

definition surrogate_pair :: "nat \<Rightarrow> string \<Rightarrow> nat option" where
  "surrogate_pair rr s =
     (if 0xD800 \<le> rr \<and> rr \<le> 0xDBFF \<and> take 2 s = [char_of (0x5C :: nat), CHR ''u''] then
        (case getu4 (drop 2 s) of
           None \<Rightarrow> None
         | Some rr1 \<Rightarrow>
             if 0xDC00 \<le> rr1 \<and> rr1 \<le> 0xDFFF then Some (0x10000 + (rr - 0xD800) * 1024 + (rr1 - 0xDC00)) else None)
      else None)"

definition simple_escape :: "nat \<Rightarrow> nat option" where
  "simple_escape n = map_of [(0x22, 0x22), (0x5C, 0x5C), (0x2F, 0x2F), (0x62, 0x08), (0x66, 0x0C),
     (0x6E, 0x0A), (0x72, 0x0D), (0x74, 0x09)] n"

definition prepend :: "string \<Rightarrow> (string \<times> string) option \<Rightarrow> (string \<times> string) option" where
  "prepend p r = map_option (\<lambda>(v, rest). (p @ v, rest)) r"

text \<open>The rest of a string literal after its opening quote: its value and what follows the closing quote.\<close>

function unquote :: "string \<Rightarrow> (string \<times> string) option" where
  "unquote s =
     (case s of
        [] \<Rightarrow> None
      | c # t \<Rightarrow>
          (let n = of_char c :: nat in
           if n = 0x22 then Some ([], t)
           else if n = 0x5C then
             (case t of
                [] \<Rightarrow> None
              | e # u \<Rightarrow>
                  if e = CHR ''u'' then
                    (case getu4 u of
                       None \<Rightarrow> None
                     | Some rr \<Rightarrow>
                         if 0xD800 \<le> rr \<and> rr \<le> 0xDFFF then
                           (case surrogate_pair rr (drop 4 u) of
                              None \<Rightarrow> prepend (encode_rune 0xFFFD) (unquote (drop 4 u))
                            | Some r \<Rightarrow> prepend (encode_rune r) (unquote (drop 10 u)))
                         else prepend (encode_rune rr) (unquote (drop 4 u)))
                  else
                    (case simple_escape (of_char e) of
                       None \<Rightarrow> None
                     | Some x \<Rightarrow> prepend [char_of x] (unquote u)))
           else if n < 0x20 then None
           else if n < 0x80 then prepend [c] (unquote t)
           else
             (let (r, w) = decode_rune (codes s) in
              if (r, w) = (0xFFFD, 1) then prepend (encode_rune 0xFFFD) (unquote t)
              else prepend (take w s) (unquote (drop w s)))))"
  by pat_completeness auto
termination
  by (relation "measure length") (auto simp: codes_def intro: drop_rune_less)

declare unquote.simps [simp del]

section \<open>The printer\<close>

text \<open>Compact, or indented by two spaces with every element on its own line.\<close>

definition json_nl :: "bool \<Rightarrow> nat \<Rightarrow> string" where
  "json_nl ind d = (if ind then CHR 0x0A # replicate (2 * d) (CHR 0x20) else [])"

fun join_with :: "string \<Rightarrow> string list \<Rightarrow> string" where
  "join_with sep [] = []"
| "join_with sep [x] = x"
| "join_with sep (x # y # ys) = x @ sep @ join_with sep (y # ys)"

definition json_items :: "bool \<Rightarrow> nat \<Rightarrow> char \<Rightarrow> char \<Rightarrow> string list \<Rightarrow> string" where
  "json_items ind d op cl items =
     (if items = [] then [op, cl]
      else [op] @ json_nl ind (Suc d) @ join_with (CHR '','' # json_nl ind (Suc d)) items @ json_nl ind d @ [cl])"

definition json_colon :: "bool \<Rightarrow> string" where
  "json_colon ind = (if ind then '': '' else '':'')"

fun json_print :: "bool \<Rightarrow> nat \<Rightarrow> json \<Rightarrow> string" where
  "json_print ind d JNull = ''null''"
| "json_print ind d (JBool b) = (if b then ''true'' else ''false'')"
| "json_print ind d (JNum lit) = lit"
| "json_print ind d (JStr s) = json_quote s"
| "json_print ind d (JArr vs) = json_items ind d (CHR ''['') (CHR '']'') (map (json_print ind (Suc d)) vs)"
| "json_print ind d (JObj ms) =
     json_items ind d (CHR 0x7B) (CHR 0x7D) (map (\<lambda>(k, v). json_quote k @ json_colon ind @ json_print ind (Suc d) v) ms)"

section \<open>The parser\<close>

definition json_ws :: "char \<Rightarrow> bool" where
  "json_ws c \<longleftrightarrow> c = CHR 0x20 \<or> c = CHR 0x09 \<or> c = CHR 0x0A \<or> c = CHR 0x0D"

definition skip_ws :: "string \<Rightarrow> string" where
  "skip_ws s = dropWhile json_ws s"

definition is_digit :: "char \<Rightarrow> bool" where
  "is_digit c \<longleftrightarrow> digit_value c \<noteq> None"

text \<open>The number scanner: \<open>-? (0 | [1-9][0-9]*) (\.[0-9]+)? ([eE][+-]?[0-9]+)?\<close>.\<close>

definition scan_int :: "string \<Rightarrow> (string \<times> string) option" where
  "scan_int s =
     (case s of
        [] \<Rightarrow> None
      | c # t \<Rightarrow>
          if c = CHR ''0'' then Some ([c], t)
          else if is_digit c then Some (c # takeWhile is_digit t, dropWhile is_digit t)
          else None)"

definition scan_frac :: "string \<Rightarrow> (string \<times> string) option" where
  "scan_frac s =
     (case s of
        c # t \<Rightarrow>
          if c = CHR ''.'' then
            (if takeWhile is_digit t = [] then None else Some (c # takeWhile is_digit t, dropWhile is_digit t))
          else Some ([], s)
      | [] \<Rightarrow> Some ([], []))"

definition scan_exp :: "string \<Rightarrow> (string \<times> string) option" where
  "scan_exp s =
     (case s of
        c # t \<Rightarrow>
          if c = CHR ''e'' \<or> c = CHR ''E'' then
            (let (sign, u) = (case t of x # y \<Rightarrow> if x = CHR ''+'' \<or> x = CHR ''-'' then ([x], y) else ([], t) | [] \<Rightarrow> ([], t))
             in if takeWhile is_digit u = [] then None
                else Some (c # sign @ takeWhile is_digit u, dropWhile is_digit u))
          else Some ([], s)
      | [] \<Rightarrow> Some ([], []))"

definition scan_number :: "string \<Rightarrow> (string \<times> string) option" where
  "scan_number s =
     (let (sign, t) = (case s of x # y \<Rightarrow> if x = CHR ''-'' then ([x], y) else ([], s) | [] \<Rightarrow> ([], s)) in
      Option.bind (scan_int t) (\<lambda>(i, u). Option.bind (scan_frac u) (\<lambda>(f, v).
        Option.bind (scan_exp v) (\<lambda>(e, w). Some (sign @ i @ f @ e, w)))))"

definition strip_prefix :: "string \<Rightarrow> json \<Rightarrow> string \<Rightarrow> (json \<times> string) option" where
  "strip_prefix p v s = (if take (length p) s = p then Some (v, drop (length p) s) else None)"

text \<open>
  The parser recurses on fuel: a value of a text of \<open>n\<close> characters needs at most \<open>2 n + 1\<close>, because a
  call of the element loops consumes a character for every two units it passes on.
\<close>

fun parse_value :: "nat \<Rightarrow> string \<Rightarrow> (json \<times> string) option"
  and parse_elems :: "nat \<Rightarrow> string \<Rightarrow> (json list \<times> string) option"
  and parse_members :: "nat \<Rightarrow> string \<Rightarrow> ((string \<times> json) list \<times> string) option" where
  "parse_value 0 s = None"
| "parse_value (Suc f) s =
     (case skip_ws s of
        [] \<Rightarrow> None
      | c # t \<Rightarrow>
          if c = CHR 0x7B then
            (case skip_ws t of
               [] \<Rightarrow> None
             | x # u \<Rightarrow> if x = CHR 0x7D then Some (JObj [], u)
                       else map_option (\<lambda>(ms, r). (JObj ms, r)) (parse_members f t))
          else if c = CHR ''['' then
            (case skip_ws t of
               [] \<Rightarrow> None
             | x # u \<Rightarrow> if x = CHR '']'' then Some (JArr [], u)
                       else map_option (\<lambda>(vs, r). (JArr vs, r)) (parse_elems f t))
          else if c = CHR 0x22 then map_option (\<lambda>(v, r). (JStr v, r)) (unquote t)
          else if c = CHR ''t'' then strip_prefix ''true'' (JBool True) (c # t)
          else if c = CHR ''f'' then strip_prefix ''false'' (JBool False) (c # t)
          else if c = CHR ''n'' then strip_prefix ''null'' JNull (c # t)
          else map_option (\<lambda>(l, r). (JNum l, r)) (scan_number (c # t)))"
| "parse_elems 0 s = None"
| "parse_elems (Suc f) s =
     (case parse_value f s of
        None \<Rightarrow> None
      | Some (v, t) \<Rightarrow>
          (case skip_ws t of
             [] \<Rightarrow> None
           | c # u \<Rightarrow> if c = CHR '','' then map_option (\<lambda>(vs, r). (v # vs, r)) (parse_elems f u)
                     else if c = CHR '']'' then Some ([v], u) else None))"
| "parse_members 0 s = None"
| "parse_members (Suc f) s =
     (case skip_ws s of
        [] \<Rightarrow> None
      | q # t \<Rightarrow>
          if q \<noteq> CHR 0x22 then None
          else
            (case unquote t of
               None \<Rightarrow> None
             | Some (k, u) \<Rightarrow>
                 (case skip_ws u of
                    [] \<Rightarrow> None
                  | c # w \<Rightarrow>
                      if c \<noteq> CHR '':'' then None
                      else
                        (case parse_value f w of
                           None \<Rightarrow> None
                         | Some (v, x) \<Rightarrow>
                             (case skip_ws x of
                                [] \<Rightarrow> None
                              | d # y \<Rightarrow>
                                  if d = CHR '','' then map_option (\<lambda>(ms, r). ((k, v) # ms, r)) (parse_members f y)
                                  else if d = CHR 0x7D then Some ([(k, v)], y) else None)))))"

text \<open>A whole document: nothing but white space may follow the value.\<close>

definition json_parse :: "string \<Rightarrow> json option" where
  "json_parse s =
     (case parse_value (2 * length s + 2) s of
        Some (v, r) \<Rightarrow> if skip_ws r = [] then Some v else None
      | None \<Rightarrow> None)"

section \<open>Struct fields\<close>

text \<open>
  A key names a field when they agree up to case folding: ASCII case, and the Kelvin sign and the long
  s, the only other characters that fold to ASCII letters.
\<close>

definition fold_rune :: "nat \<Rightarrow> nat" where
  "fold_rune r = (if 97 \<le> r \<and> r \<le> 122 then r - 32 else if r = 0x212A then 75 else if r = 0x17F then 83 else r)"

definition fold_name :: "string \<Rightarrow> nat list" where
  "fold_name s = map (fold_rune \<circ> fst) (runes (codes s))"

definition names_field :: "string \<Rightarrow> string \<Rightarrow> bool" where
  "names_field field key \<longleftrightarrow> fold_name key = fold_name field"

text \<open>
  Every occurrence of a field is decoded in turn: \<open>null\<close> leaves the value, a value of the wrong type is
  an error of the whole document, another value replaces it.
\<close>

definition dec_field :: "string \<Rightarrow> (json \<Rightarrow> 'a option) \<Rightarrow> 'a \<Rightarrow> (string \<times> json) list \<Rightarrow> 'a option" where
  "dec_field field dec dflt ms =
     foldl (\<lambda>acc (k, v). if \<not> names_field field k then acc
              else Option.bind acc (\<lambda>old. if v = JNull then Some old else dec v)) (Some dflt) ms"

definition known_fields :: "string list \<Rightarrow> (string \<times> json) list \<Rightarrow> bool" where
  "known_fields fields ms \<longleftrightarrow> list_all (\<lambda>(k, _). list_ex (\<lambda>f. names_field f k) fields) ms"

fun dec_digits :: "string \<Rightarrow> nat \<Rightarrow> nat option" where
  "dec_digits [] acc = Some acc"
| "dec_digits (c # s) acc = (case digit_value c of None \<Rightarrow> None | Some d \<Rightarrow> dec_digits s (acc * 10 + d))"

definition dec_nat :: "nat \<Rightarrow> json \<Rightarrow> nat option" where
  "dec_nat limit v =
     (case v of
        JNum lit \<Rightarrow> if lit = [] then None
          else Option.bind (dec_digits lit 0) (\<lambda>n. if n < limit then Some n else None)
      | _ \<Rightarrow> None)"

definition dec_word :: "json \<Rightarrow> 'a::len word option" where
  "dec_word v = map_option of_nat (dec_nat (2 ^ LENGTH('a)) v)"

definition enc_word :: "'a::len word \<Rightarrow> json" where
  "enc_word w = JNum (dec_string (unat w))"

definition dec_str :: "json \<Rightarrow> string option" where
  "dec_str v = (case v of JStr s \<Rightarrow> Some s | _ \<Rightarrow> None)"

definition dec_bool :: "json \<Rightarrow> bool option" where
  "dec_bool v = (case v of JBool b \<Rightarrow> Some b | _ \<Rightarrow> None)"

fun dec_all :: "(json \<Rightarrow> 'a option) \<Rightarrow> json list \<Rightarrow> 'a list option" where
  "dec_all dec [] = Some []"
| "dec_all dec (v # vs) = Option.bind (dec v) (\<lambda>x. map_option (Cons x) (dec_all dec vs))"

text \<open>A slice; an element \<open>null\<close> is the zero value of the element type.\<close>

definition dec_slice :: "'a \<Rightarrow> (json \<Rightarrow> 'a option) \<Rightarrow> json \<Rightarrow> 'a list option" where
  "dec_slice zero dec v =
     (case v of JArr vs \<Rightarrow> dec_all (\<lambda>x. if x = JNull then Some zero else dec x) vs | _ \<Rightarrow> None)"

end
