(* ===== verification/Go_Json_Laws.thy ===== *)
theory Go_Json_Laws
  imports Go_Json
begin

text \<open>
  The laws of the JSON model: a string literal reads back as the string it was made of, and a printed
  document parses to itself, compact or indented.
\<close>

section \<open>Runes\<close>

lemma decode_runeE:
  assumes d: "decode_rune bs = (r, w)" and nv: "(r, w) \<noteq> (0xFFFD, 1)" and ne: "bs \<noteq> []"
  obtains (one) a t where "bs = a # t" "a < 0x80" "r = a" "w = 1"
  | (two) a b t where "bs = a # b # t" "0xC2 \<le> a" "a \<le> 0xDF" "cont b" "r = a mod 32 * 64 + b mod 64" "w = 2"
  | (three) a b c t where "bs = a # b # c # t" "0xE0 \<le> a" "a \<le> 0xEF"
      "(if a = 0xE0 then 0xA0 else 0x80) \<le> b" "b \<le> (if a = 0xED then 0x9F else 0xBF)" "cont c"
      "r = a mod 16 * 4096 + b mod 64 * 64 + c mod 64" "w = 3"
  | (four) a b c e t where "bs = a # b # c # e # t" "0xF0 \<le> a" "a \<le> 0xF4"
      "(if a = 0xF0 then 0x90 else 0x80) \<le> b" "b \<le> (if a = 0xF4 then 0x8F else 0xBF)" "cont c" "cont e"
      "r = a mod 8 * 262144 + b mod 64 * 4096 + c mod 64 * 64 + e mod 64" "w = 4"
proof -
  obtain a r1 where bs: "bs = a # r1" using ne by (cases bs) auto
  have not: "\<not> (r, w) = (0xFFFD, 1)" using nv .
  consider "a < 0x80" | "0xC2 \<le> a \<and> a \<le> 0xDF" | "0xE0 \<le> a \<and> a \<le> 0xEF" | "0xF0 \<le> a \<and> a \<le> 0xF4"
  proof -
    have "\<not> (\<not> a < 0x80 \<and> \<not> (0xC2 \<le> a \<and> a \<le> 0xDF) \<and> \<not> (0xE0 \<le> a \<and> a \<le> 0xEF) \<and> \<not> (0xF0 \<le> a \<and> a \<le> 0xF4))"
    proof
      assume "\<not> a < 0x80 \<and> \<not> (0xC2 \<le> a \<and> a \<le> 0xDF) \<and> \<not> (0xE0 \<le> a \<and> a \<le> 0xEF) \<and> \<not> (0xF0 \<le> a \<and> a \<le> 0xF4)"
      then have "decode_rune bs = (0xFFFD, 1)" unfolding decode_rune_def bs list.case by (simp only: if_False simp_thms)
      with d nv show False by simp
    qed
    then show thesis using that by blast
  qed
  then show thesis
  proof cases
    case 1
    then have "decode_rune bs = (a, 1)" unfolding decode_rune_def bs by simp
    with d 1 bs one show thesis by simp
  next
    case 2
    then have D: "decode_rune bs = (case r1 of b # _ \<Rightarrow> if cont b then (a mod 32 * 64 + b mod 64, 2) else (0xFFFD, 1) | _ \<Rightarrow> (0xFFFD, 1))"
      unfolding decode_rune_def bs by simp
    show thesis
    proof (cases r1)
      case Nil
      with D d not show thesis by simp
    next
      case (Cons b t)
      with D d not have "cont b" "r = a mod 32 * 64 + b mod 64" "w = 2" by (auto split: if_splits)
      with two 2 bs Cons show thesis by blast
    qed
  next
    case 3
    then have n: "\<not> a < 0x80" "\<not> (0xC2 \<le> a \<and> a \<le> 0xDF)" by simp_all
    have D: "decode_rune bs = (case r1 of b # c # _ \<Rightarrow>
             if (if a = 0xE0 then 0xA0 else 0x80) \<le> b \<and> b \<le> (if a = 0xED then 0x9F else 0xBF) \<and> cont c
             then (a mod 16 * 4096 + b mod 64 * 64 + c mod 64, 3) else (0xFFFD, 1) | _ \<Rightarrow> (0xFFFD, 1))"
      unfolding decode_rune_def bs list.case if_not_P [OF n(1)] if_not_P [OF n(2)] if_P [OF 3] ..
    obtain b c t where r1: "r1 = b # c # t" using D d not by (auto split: list.splits)
    with D d not have "(if a = 0xE0 then 0xA0 else 0x80) \<le> b \<and> b \<le> (if a = 0xED then 0x9F else 0xBF) \<and> cont c"
      "r = a mod 16 * 4096 + b mod 64 * 64 + c mod 64 \<and> w = 3" by (auto simp del: One_nat_def split: if_split_asm)
    with three 3 bs r1 show thesis by blast
  next
    case 4
    then have n: "\<not> a < 0x80" "\<not> (0xC2 \<le> a \<and> a \<le> 0xDF)" "\<not> (0xE0 \<le> a \<and> a \<le> 0xEF)" by simp_all
    have D: "decode_rune bs = (case r1 of b # c # e # _ \<Rightarrow>
             if (if a = 0xF0 then 0x90 else 0x80) \<le> b \<and> b \<le> (if a = 0xF4 then 0x8F else 0xBF) \<and> cont c \<and> cont e
             then (a mod 8 * 262144 + b mod 64 * 4096 + c mod 64 * 64 + e mod 64, 4) else (0xFFFD, 1) | _ \<Rightarrow> (0xFFFD, 1))"
      unfolding decode_rune_def bs list.case if_not_P [OF n(1)] if_not_P [OF n(2)] if_not_P [OF n(3)] if_P [OF 4] ..
    obtain b c e t where r1: "r1 = b # c # e # t" using D d not by (auto split: list.splits)
    with D d not have "(if a = 0xF0 then 0x90 else 0x80) \<le> b \<and> b \<le> (if a = 0xF4 then 0x8F else 0xBF) \<and> cont c \<and> cont e"
      "r = a mod 8 * 262144 + b mod 64 * 4096 + c mod 64 * 64 + e mod 64 \<and> w = 4" by (auto split: if_split_asm)
    with four 4 bs r1 show thesis by blast
  qed
qed

lemma decode_rune_prefix:
  assumes "decode_rune bs = (r, w)" "(r, w) \<noteq> (0xFFFD, 1)" "bs \<noteq> []"
  shows "w \<le> length bs \<and> 0 < w \<and> decode_rune (take w bs @ xs) = (r, w)"
  using assms
proof (cases rule: decode_runeE)
  case (one a t)
  then show ?thesis by (simp add: decode_rune_def)
next
  case (two a b t)
  then show ?thesis by (simp add: decode_rune_def)
next
  case (three a b c t)
  then show ?thesis by (simp add: decode_rune_def)
next
  case (four a b c e t)
  then show ?thesis by (simp add: decode_rune_def)
qed

lemma decode_rune_separator:
  assumes d: "decode_rune bs = (r, w)" and r: "r = 0x2028 \<or> r = 0x2029" and ne: "bs \<noteq> []"
  shows "w = 3 \<and> take 3 bs = [0xE2, 0x80, r - 0x2028 + 0xA8]"
proof -
  have nv: "(r, w) \<noteq> (0xFFFD, 1)" using r by auto
  from d nv ne show ?thesis
  proof (cases rule: decode_runeE)
    case (one a t)
    with r show ?thesis by auto
  next
    case (two a b t)
    then have "a mod 32 \<le> 31" "b mod 64 \<le> 63" by simp_all
    with two r show ?thesis by linarith
  next
    case (three a b c t)
    have B: "0x80 \<le> b" "b \<le> 0xBF" "0x80 \<le> c" "c \<le> 0xBF"
      using three by (auto simp: cont_def split: if_splits)
    obtain x where x: "a = 0xE0 + x" using three(2) le_Suc_ex by blast
    obtain y where y: "b = 0x80 + y" using B(1) le_Suc_ex by blast
    obtain z where z: "c = 0x80 + z" using B(3) le_Suc_ex by blast
    have le: "x \<le> 15" "y \<le> 63" "z \<le> 63" using three(3) B x y z by linarith+
    have "(0xE0 + x) mod 16 = x" "(0x80 + y) mod 64 = y" "(0x80 + z) mod 64 = z"
      using le mod_mult_self4 [of 16 14 x] mod_mult_self4 [of 64 2 y] mod_mult_self4 [of 64 2 z] by simp_all
    then have v: "r = x * 4096 + y * 64 + z" using three(7) x y z by simp
    have "x = 2" using v r le by linarith
    moreover have "y = 0" using v r le calculation by linarith
    moreover have "z = r - 0x2028 + 0x28" using v r calculation by linarith
    ultimately have "a = 0xE2 \<and> b = 0x80 \<and> c = r - 0x2028 + 0xA8" using x y z by linarith
    then show ?thesis using three(1,8) by auto
  next
    case (four a b c e t)
    have B: "0x80 \<le> b" "b \<le> 0xBF" using four(4,5) by (auto split: if_splits)
    obtain x where x: "a = 0xF0 + x" using four(2) le_Suc_ex by blast
    obtain y where y: "b = 0x80 + y" using B(1) le_Suc_ex by blast
    have le: "x \<le> 4" "y \<le> 63" using four(3) B x y by linarith+
    have "(0xF0 + x) mod 8 = x" "(0x80 + y) mod 64 = y"
      using le mod_mult_self4 [of 8 30 x] mod_mult_self4 [of 64 2 y] by simp_all
    then have v: "r = x * 262144 + y * 4096 + c mod 64 * 64 + e mod 64" using four(8) x y by simp
    have "x = 0 \<longrightarrow> 0x10 \<le> y" using four(4) x y by auto
    then have "x \<noteq> 0 \<or> 0x10 \<le> y" by blast
    then have False
    proof
      assume "x \<noteq> 0"
      then have "262144 \<le> r" using v by linarith
      with r show False by linarith
    next
      assume "0x10 \<le> y"
      then have "65536 \<le> r" using v by linarith
      with r show False by linarith
    qed
    then show ?thesis ..
  qed
qed

section \<open>String literals\<close>

lemma utf8_valid_Nil [simp]: "utf8_valid []"
  by (simp add: utf8_valid_def codes_def runes.simps)

lemma drop_codes: "drop n (codes s) = codes (drop n s)"
  by (simp add: codes_def drop_map)

lemma take_codes: "take n (codes s) = codes (take n s)"
  by (simp add: codes_def take_map)

lemma codes_append [simp]: "codes (s @ t) = codes s @ codes t"
  by (simp add: codes_def)

lemma codes_Nil [simp]: "codes s = [] \<longleftrightarrow> s = []"
  by (simp add: codes_def)

lemma codes_Cons [simp]: "codes (c # s) = of_char c # codes s"
  by (simp add: codes_def)

lemma length_codes [simp]: "length (codes s) = length s"
  by (simp add: codes_def)

lemma map_char_of_codes: "map char_of (codes s) = s"
  by (simp add: codes_def comp_def)

lemma utf8_valid_step:
  "s \<noteq> [] \<Longrightarrow> utf8_valid s \<longleftrightarrow> decode_rune (codes s) \<noteq> (0xFFFD, 1) \<and> utf8_valid (drop (snd (decode_rune (codes s))) s)"
  by (auto simp: utf8_valid_def runes.simps [of "codes s"] drop_codes)

lemma getu4_00: "n < 256 \<Longrightarrow> getu4 (CHR ''0'' # CHR ''0'' # hex_digit (n div 16) # hex_digit (n mod 16) # s) = Some n"
proof -
  assume n: "n < 256"
  have "hex_value (CHR ''0'') = Some 0" by (simp add: hex_value_def)
  moreover have "n div 16 < 16" "n mod 16 < 16" using n by auto
  ultimately show ?thesis by (simp add: getu4_def del: hex_digit_def)
qed

lemma getu4_202: "n < 16 \<Longrightarrow> getu4 (CHR ''2'' # CHR ''0'' # CHR ''2'' # hex_digit n # s) = Some (0x2020 + n)"
proof -
  assume n: "n < 16"
  have "hex_value (CHR ''0'') = Some 0" "hex_value (CHR ''2'') = Some 2" by (simp_all add: hex_value_def)
  with n show ?thesis by (simp add: getu4_def)
qed

lemma prepend_simp [simp]: "prepend p (Some (v, r)) = Some (p @ v, r)"
  by (simp add: prepend_def)

lemma encode_rune_ascii: "r < 0x80 \<Longrightarrow> encode_rune r = [char_of r]"
  by (simp add: encode_rune_def)

lemma of_char_bs: "of_char (char_of (0x5C :: nat)) = (0x5C :: nat)" "of_char (char_of (0x22 :: nat)) = (0x22 :: nat)"
  by simp_all

lemma unquote_u:
  assumes "getu4 u = Some rr" "\<not> (0xD800 \<le> rr \<and> rr \<le> 0xDFFF)"
  shows "unquote (char_of (0x5C :: nat) # CHR ''u'' # u) = prepend (encode_rune rr) (unquote (drop 4 u))"
  by (subst unquote.simps) (simp add: assms)

lemma unquote_simple:
  assumes "simple_escape (of_char e) = Some x" "e \<noteq> CHR ''u''"
  shows "unquote (char_of (0x5C :: nat) # e # u) = prepend [char_of x] (unquote u)"
  by (subst unquote.simps) (simp add: assms)

lemma unquote_plain:
  assumes "0x20 \<le> (of_char c :: nat)" "of_char c < (0x80 :: nat)" "of_char c \<noteq> (0x22 :: nat)" "of_char c \<noteq> (0x5C :: nat)"
  shows "unquote (c # u) = prepend [c] (unquote u)"
  by (subst unquote.simps) (use assms in \<open>simp add: Let_def del: of_char_eq_iff\<close>)

lemma unquote_ascii:
  fixes c :: char
  assumes "of_char c < (0x80 :: nat)"
  shows "unquote (esc_ascii (of_char c) @ s) = prepend [c] (unquote s)"
proof -
  define n :: nat where "n = of_char c"
  have c: "char_of n = c" by (simp add: n_def)
  have n: "n < 0x80" using assms by (simp add: n_def)
  consider "n = 0x22 \<or> n = 0x5C" | "n = 0x0A" | "n = 0x0D" | "n = 0x09"
    | "n \<notin> {0x22, 0x5C, 0x0A, 0x0D, 0x09}" "n < 0x20 \<or> n = 0x3C \<or> n = 0x3E \<or> n = 0x26"
    | "n \<notin> {0x22, 0x5C}" "0x20 \<le> n" "n \<notin> {0x3C, 0x3E, 0x26}" by fastforce
  then have "unquote (esc_ascii n @ s) = prepend [char_of n] (unquote s)"
  proof cases
    case 1
    moreover have "char_of (0x22 :: nat) = CHR 0x22" "char_of (0x5C :: nat) = CHR 0x5C" by code_simp+
    ultimately have "simple_escape (of_char (char_of n)) = Some n" "char_of n \<noteq> CHR ''u''"
      by (auto simp: simple_escape_def)
    with 1 show ?thesis using unquote_simple [of "char_of n" n s] by (simp add: esc_ascii_def del: of_char_of)
  next
    case 2
    then show ?thesis using unquote_simple [of "CHR ''n''" n s] by (simp add: esc_ascii_def simple_escape_def)
  next
    case 3
    then show ?thesis using unquote_simple [of "CHR ''r''" n s] by (simp add: esc_ascii_def simple_escape_def)
  next
    case 4
    then show ?thesis using unquote_simple [of "CHR ''t''" n s] by (simp add: esc_ascii_def simple_escape_def)
  next
    case 5
    have "esc_ascii n @ s = char_of (0x5C :: nat) # CHR ''u'' # CHR ''0'' # CHR ''0'' # hex_digit (n div 16) # hex_digit (n mod 16) # s"
      using 5 unfolding esc_ascii_def by simp
    then show ?thesis using unquote_u [OF getu4_00 [of n s]] n by (simp add: encode_rune_ascii)
  next
    case 6
    then have "esc_ascii n = [char_of n]" unfolding esc_ascii_def by simp
    with 6 n show ?thesis using unquote_plain [of "char_of n" s] by simp
  qed
  then show ?thesis by (simp add: n_def)
qed

lemma quote_body_Nil: "quote_body [] = []"
  by (simp add: quote_body.simps)

lemma unquote_end: "unquote (char_of (0x22 :: nat) # rest) = Some ([], rest)"
  by (subst unquote.simps) simp

lemma unquote_wide:
  assumes "\<not> of_char c < (0x80 :: nat)" "decode_rune (codes (c # u)) = (r, w)" "(r, w) \<noteq> (0xFFFD, 1)"
  shows "unquote (c # u) = prepend (take w (c # u)) (unquote (drop w (c # u)))"
proof -
  have "of_char c \<noteq> (0x22 :: nat)" "of_char c \<noteq> (0x5C :: nat)" "\<not> of_char c < (0x20 :: nat)" using assms(1) by linarith+
  then show ?thesis
    by (subst unquote.simps) (use assms in \<open>auto simp: Let_def simp del: of_char_eq_iff\<close>)
qed

lemma unquote_quote:
  "utf8_valid s \<Longrightarrow> unquote (quote_body s @ char_of (0x22 :: nat) # rest) = Some (s, rest)"
proof (induction s rule: quote_body.induct)
  case (1 s)
  show ?case
  proof (cases s)
    case Nil
    then show ?thesis by (simp add: quote_body_Nil unquote_end)
  next
    case (Cons c t)
    obtain r w where d: "decode_rune (codes s) = (r, w)" by fastforce
    from "1.prems" utf8_valid_step [of s] Cons d have nv: "(r, w) \<noteq> (0xFFFD, 1)" and v: "utf8_valid (drop w s)" by auto
    show ?thesis
    proof (cases "of_char c < (0x80 :: nat)")
      case True
      then have "w = 1" using d Cons by (simp add: decode_rune_ascii)
      with v Cons have "utf8_valid t" by simp
      from "1.IH"(1) [OF Cons True this] show ?thesis
        using True Cons by (simp add: quote_body.simps [of "c # t"] unquote_ascii)
    next
      case False
      have ne: "codes s \<noteq> []" using Cons by simp
      note p = decode_rune_prefix [OF d nv ne]
      show ?thesis
      proof (cases "r = 0x2028 \<or> r = 0x2029")
        case sep: True
        note q = decode_rune_separator [OF d sep ne]
        have IH: "unquote (quote_body (drop w s) @ char_of (0x22 :: nat) # rest) = Some (drop w s, rest)"
          using "1.IH"(3) [OF Cons False d [symmetric] refl nv sep v] .
        have Q: "quote_body s = char_of (0x5C :: nat) # ''u202'' @ [hex_digit (r mod 16)] @ quote_body (drop w s)"
          by (subst quote_body.simps) (use Cons False d nv sep in auto)
        have G: "getu4 (CHR ''2'' # CHR ''0'' # CHR ''2'' # hex_digit (r mod 16) # x) = Some r" for x
          using getu4_202 [of "r mod 16" x] sep by auto
        have "codes (take 3 s) = [0xE2, 0x80, r - 0x2028 + 0xA8]" using q by (simp add: take_codes)
        then have T: "take 3 s = map char_of [0xE2, 0x80, r - 0x2028 + 0xA8]"
          using map_char_of_codes [of "take 3 s"] by simp
        have "encode_rune r = take 3 s" using sep unfolding T encode_rune_def by auto
        then show ?thesis
          using unquote_u [OF G] sep q IH unfolding Q by auto
      next
        case nsep: False
        have IH: "unquote (quote_body (drop w s) @ char_of (0x22 :: nat) # rest) = Some (drop w s, rest)"
          using "1.IH"(4) [OF Cons False d [symmetric] refl nv nsep v] .
        let ?r = "quote_body (drop w s) @ char_of (0x22 :: nat) # rest"
        have Q: "quote_body s @ char_of (0x22 :: nat) # rest = take w s @ ?r"
          by (subst quote_body.simps) (use Cons False d nv nsep in auto)
        obtain u where u: "take w s @ ?r = c # u" using p Cons by (cases w) auto
        have "decode_rune (codes (take w s @ ?r)) = (r, w)"
          using p [of "codes ?r"] by (simp add: take_codes)
        then have "unquote (take w s @ ?r) = prepend (take w (take w s @ ?r)) (unquote (drop w (take w s @ ?r)))"
          using unquote_wide [OF False _ nv, of u] unfolding u by simp
        moreover have "take w (take w s @ ?r) = take w s" "drop w (take w s @ ?r) = ?r"
          using p [of "[]"] by simp_all
        ultimately show ?thesis using IH p [of "[]"] unfolding Q by simp
      qed
    qed
  qed
qed

section \<open>Documents\<close>

text \<open>The literals the encoder prints for integers: no leading zero, a sign where it is negative.\<close>

definition digits_ok :: "string \<Rightarrow> bool" where
  "digits_ok lit = (case dec_digits lit 0 of None \<Rightarrow> False | Some n \<Rightarrow> dec_string n = lit)"

definition num_ok :: "string \<Rightarrow> bool" where
  "num_ok lit = (case lit of [] \<Rightarrow> False | c # t \<Rightarrow> if c = CHR ''-'' then digits_ok t else digits_ok lit)"

fun json_ok :: "json \<Rightarrow> bool" where
  "json_ok JNull = True"
| "json_ok (JBool b) = True"
| "json_ok (JNum lit) = num_ok lit"
| "json_ok (JStr s) = utf8_valid s"
| "json_ok (JArr vs) = list_all json_ok vs"
| "json_ok (JObj ms) = list_all (\<lambda>(k, v). utf8_valid k \<and> json_ok v) ms"

definition num_end :: "string \<Rightarrow> bool" where
  "num_end rest = (case rest of [] \<Rightarrow> True | c # _ \<Rightarrow> \<not> is_digit c \<and> c \<noteq> CHR ''.'' \<and> c \<noteq> CHR ''e'' \<and> c \<noteq> CHR ''E'')"

definition is_ws :: "string \<Rightarrow> bool" where
  "is_ws w = list_all json_ws w"

lemma skip_ws_append: "is_ws w \<Longrightarrow> skip_ws (w @ s) = skip_ws s"
  by (induction w) (auto simp: is_ws_def skip_ws_def)

lemma skip_ws_Cons: "\<not> json_ws c \<Longrightarrow> skip_ws (c # s) = c # s"
  by (simp add: skip_ws_def)

lemma is_ws_nl [simp]: "is_ws (json_nl ind d)"
  by (auto simp: is_ws_def json_nl_def json_ws_def list_all_iff)

lemma is_ws_Nil [simp]: "is_ws []"
  by (simp add: is_ws_def)

lemma digit_char_facts:
  "n < 10 \<Longrightarrow> is_digit (digit_char n)" "n < 10 \<Longrightarrow> digit_char n = CHR ''0'' \<longleftrightarrow> n = 0"
  "n < 10 \<Longrightarrow> digit_char n \<notin> set ''-tfn[{ \<newline>'' \<and> \<not> json_ws (digit_char n) \<and> digit_char n \<noteq> CHR 0x22"
proof -
  have "\<forall>n<10. (digit_char n = CHR ''0'' \<longleftrightarrow> n = 0) \<and>
    (digit_char n \<notin> set ''-tfn[{ \<newline>'' \<and> \<not> json_ws (digit_char n) \<and> digit_char n \<noteq> CHR 0x22)"
    unfolding all_below_10 by (simp add: digit_char_def json_ws_def)
  then show "n < 10 \<Longrightarrow> is_digit (digit_char n)" "n < 10 \<Longrightarrow> digit_char n = CHR ''0'' \<longleftrightarrow> n = 0"
    "n < 10 \<Longrightarrow> digit_char n \<notin> set ''-tfn[{ \<newline>'' \<and> \<not> json_ws (digit_char n) \<and> digit_char n \<noteq> CHR 0x22"
    by (auto simp: is_digit_def)
qed

lemma dec_string_head: "\<exists>d t. dec_string n = digit_char d # t \<and> d < 10 \<and> list_all is_digit t \<and> (d = 0 \<longrightarrow> t = [] \<and> n = 0)"
proof (induction n rule: dec_string.induct)
  case (1 n)
  show ?case
  proof (cases "n < 10")
    case True
    then show ?thesis by (auto simp: dec_string_small intro!: exI [of _ n])
  next
    case False
    from "1.IH" [OF False] obtain d t where h: "dec_string (n div 10) = digit_char d # t" "d < 10" "list_all is_digit t"
      "d = 0 \<longrightarrow> t = [] \<and> n div 10 = 0" by blast
    have "d \<noteq> 0" using h(4) False by auto
    moreover have "is_digit (digit_char (n mod 10))" by (rule digit_char_facts) simp
    ultimately show ?thesis using h False by (auto simp: dec_string_step intro!: exI [of _ d])
  qed
qed

lemma scan_end: "num_end rest \<Longrightarrow> scan_frac rest = Some ([], rest)" "num_end rest \<Longrightarrow> scan_exp rest = Some ([], rest)"
  by (auto simp: num_end_def scan_frac_def scan_exp_def split: list.splits)

lemma takeWhile_digits:
  "list_all is_digit t \<Longrightarrow> num_end rest \<Longrightarrow> takeWhile is_digit (t @ rest) = t \<and> dropWhile is_digit (t @ rest) = rest"
  by (induction t) (auto simp: num_end_def split: list.splits)

lemma scan_number_dec:
  assumes "num_end rest"
  shows "scan_number (dec_string n @ rest) = Some (dec_string n, rest)"
proof -
  obtain d t where h: "dec_string n = digit_char d # t" "d < 10" "list_all is_digit t" "d = 0 \<longrightarrow> t = [] \<and> n = 0"
    using dec_string_head by blast
  have i: "scan_int (digit_char d # t @ rest) = Some (digit_char d # t, rest)"
    using h digit_char_facts [OF h(2)] takeWhile_digits [OF h(3) assms] by (auto simp: scan_int_def)
  have "digit_char d \<noteq> CHR ''-''" using digit_char_facts(3) [OF h(2)] by auto
  then show ?thesis using i h scan_end [OF assms] by (simp add: scan_number_def)
qed

lemma scan_number_neg:
  assumes "num_end rest"
  shows "scan_number (CHR ''-'' # dec_string n @ rest) = Some (CHR ''-'' # dec_string n, rest)"
proof -
  obtain d t where h: "dec_string n = digit_char d # t" "d < 10" "list_all is_digit t" "d = 0 \<longrightarrow> t = [] \<and> n = 0"
    using dec_string_head by blast
  have i: "scan_int (digit_char d # t @ rest) = Some (digit_char d # t, rest)"
    using h digit_char_facts [OF h(2)] takeWhile_digits [OF h(3) assms] by (auto simp: scan_int_def)
  then show ?thesis using h scan_end [OF assms] by (simp add: scan_number_def)
qed

lemma num_ok_dec: "num_ok lit \<Longrightarrow> \<exists>n. lit = dec_string n \<or> lit = CHR ''-'' # dec_string n"
  by (auto simp: num_ok_def digits_ok_def split: option.splits list.splits if_splits) metis+

lemma scan_num_ok: "num_ok lit \<Longrightarrow> num_end rest \<Longrightarrow> scan_number (lit @ rest) = Some (lit, rest)"
  using num_ok_dec [of lit] scan_number_dec [of rest] scan_number_neg [of rest] by auto

lemma num_ok_start:
  assumes "num_ok lit"
  shows "\<exists>c t. lit = c # t \<and> \<not> json_ws c \<and> c \<notin> set ''tfn[{]}'' \<and> c \<noteq> CHR 0x22"
proof -
  obtain n where n: "lit = dec_string n \<or> lit = CHR ''-'' # dec_string n" using num_ok_dec [OF assms] by blast
  obtain e t where h: "dec_string n = digit_char e # t" "e < 10" using dec_string_head by blast
  have "\<forall>n<10. digit_char n \<noteq> CHR '']'' \<and> digit_char n \<noteq> CHR 0x7D"
    unfolding all_below_10 by (simp add: digit_char_def)
  with h digit_char_facts(3) [OF h(2)] n show ?thesis by (auto simp: json_ws_def)
qed

lemma num_end_sep [simp]: "num_end (CHR '','' # s)" "num_end (CHR '']'' # s)" "num_end (CHR 0x7D # s)" "num_end []"
  by (simp_all add: num_end_def is_digit_def digit_value_def)

lemma num_end_nl [simp]: "num_end s \<Longrightarrow> num_end (json_nl ind d @ s)"
  by (simp add: json_nl_def num_end_def is_digit_def digit_value_def)

definition parses :: "bool \<Rightarrow> json \<Rightarrow> bool" where
  "parses ind v \<longleftrightarrow> (\<forall>d w rest f. json_ok v \<longrightarrow> num_end rest \<longrightarrow> is_ws w \<longrightarrow> 2 * length (json_print ind d v) < f \<longrightarrow>
     parse_value f (w @ json_print ind d v @ rest) = Some (v, rest))"

lemma parsesD:
  "parses ind v \<Longrightarrow> json_ok v \<Longrightarrow> num_end rest \<Longrightarrow> is_ws w \<Longrightarrow> 2 * length (json_print ind d v) < f \<Longrightarrow>
     parse_value f (w @ json_print ind d v @ rest) = Some (v, rest)"
  unfolding parses_def by blast

lemma parse_elems_print:
  assumes "\<forall>v\<in>set vs. parses ind v \<and> json_ok v" "vs \<noteq> []" "is_ws w"
    and "2 * length (join_with (CHR '','' # json_nl ind d) (map (json_print ind d) vs)) + 1 < f"
  shows "parse_elems f (w @ join_with (CHR '','' # json_nl ind d) (map (json_print ind d) vs) @ json_nl ind e @ CHR '']'' # rest)
    = Some (vs, rest)"
  using assms
proof (induction vs arbitrary: w f)
  case Nil
  then show ?case by simp
next
  case (Cons v vs)
  then obtain g where f: "f = Suc g" by (cases f) auto
  show ?case
  proof (cases vs)
    case Nil
    have "parse_value g (w @ json_print ind d v @ json_nl ind e @ CHR '']'' # rest) = Some (v, json_nl ind e @ CHR '']'' # rest)"
      by (rule parsesD) (use Cons.prems f Nil in auto)
    moreover have "skip_ws (json_nl ind e @ CHR '']'' # rest) = CHR '']'' # rest"
      by (simp add: skip_ws_append skip_ws_Cons json_ws_def)
    ultimately show ?thesis by (simp add: f Nil)
  next
    case (Cons v' vs')
    let ?j = "join_with (CHR '','' # json_nl ind d) (map (json_print ind d) vs)"
    let ?r = "json_nl ind d @ ?j @ json_nl ind e @ CHR '']'' # rest"
    have j: "join_with (CHR '','' # json_nl ind d) (map (json_print ind d) (v # vs))
        = json_print ind d v @ CHR '','' # json_nl ind d @ ?j"
      by (simp add: Cons)
    have "parse_value g (w @ json_print ind d v @ CHR '','' # ?r) = Some (v, CHR '','' # ?r)"
      by (rule parsesD) (use Cons.prems f j in auto)
    moreover have "parse_elems g ?r = Some (vs, rest)"
      by (rule Cons.IH) (use Cons.prems f j Cons in auto)
    moreover have "skip_ws (CHR '','' # ?r) = CHR '','' # ?r" by (simp add: skip_ws_Cons json_ws_def)
    ultimately show ?thesis unfolding j f by simp
  qed
qed


definition member_print :: "bool \<Rightarrow> nat \<Rightarrow> string \<times> json \<Rightarrow> string" where
  "member_print ind d = (\<lambda>(k, v). json_quote k @ json_colon ind @ json_print ind d v)"

lemma parse_members_print:
  assumes "\<forall>(k, v)\<in>set ms. utf8_valid k \<and> parses ind v \<and> json_ok v" "ms \<noteq> []" "is_ws w"
    and "2 * length (join_with (CHR '','' # json_nl ind d) (map (member_print ind d) ms)) + 1 < f"
  shows "parse_members f (w @ join_with (CHR '','' # json_nl ind d) (map (member_print ind d) ms) @ json_nl ind e @ CHR 0x7D # rest)
    = Some (ms, rest)"
  using assms
proof (induction ms arbitrary: w f)
  case Nil
  then show ?case by simp
next
  case (Cons m ms)
  obtain k v where m: "m = (k, v)" by (cases m)
  obtain g where f: "f = Suc g" using Cons.prems by (cases f) auto
  let ?c = "if ind then '' '' else []"
  have ws: "is_ws ?c" by (simp add: is_ws_def json_ws_def)
  have q22: "CHR 0x22 = char_of (0x22 :: nat)" by code_simp
  have P: "member_print ind d m = CHR 0x22 # quote_body k @ CHR 0x22 # CHR '':'' # ?c @ json_print ind d v"
    unfolding q22 by (simp add: member_print_def m json_quote_def json_colon_def)
  have head: "parse_members f (w @ member_print ind d m @ tl') =
      (case parse_value g (?c @ json_print ind d v @ tl') of None \<Rightarrow> None
       | Some (v, x) \<Rightarrow> (case skip_ws x of [] \<Rightarrow> None
         | d # y \<Rightarrow> if d = CHR '','' then map_option (\<lambda>(ms, r). ((k, v) # ms, r)) (parse_members g y)
                   else if d = CHR 0x7D then Some ([(k, v)], y) else None))" for tl'
  proof -
    have "skip_ws (w @ member_print ind d m @ tl') = CHR 0x22 # quote_body k @ CHR 0x22 # CHR '':'' # ?c @ json_print ind d v @ tl'"
      using Cons.prems unfolding P by (simp add: skip_ws_append skip_ws_Cons json_ws_def)
    moreover have "unquote (quote_body k @ CHR 0x22 # CHR '':'' # ?c @ json_print ind d v @ tl')
        = Some (k, CHR '':'' # ?c @ json_print ind d v @ tl')"
      using Cons.prems m unquote_quote [of k] unfolding q22 by simp
    moreover have "skip_ws (CHR '':'' # ?c @ json_print ind d v @ tl') = CHR '':'' # ?c @ json_print ind d v @ tl'"
      by (simp add: skip_ws_Cons json_ws_def)
    ultimately show ?thesis unfolding f by simp
  qed
  have lv: "length (json_print ind d v) + 3 \<le> length (member_print ind d m)" unfolding P by simp
  show ?case
  proof (cases ms)
    case Nil
    have "parse_value g (?c @ json_print ind d v @ json_nl ind e @ CHR 0x7D # rest) = Some (v, json_nl ind e @ CHR 0x7D # rest)"
      by (rule parsesD) (use Cons.prems f Nil m lv ws in auto)
    moreover have "skip_ws (json_nl ind e @ CHR 0x7D # rest) = CHR 0x7D # rest"
      by (simp add: skip_ws_append skip_ws_Cons json_ws_def)
    ultimately show ?thesis using head [of "json_nl ind e @ CHR 0x7D # rest"] by (simp add: Nil m)
  next
    case (Cons m' ms')
    let ?j = "join_with (CHR '','' # json_nl ind d) (map (member_print ind d) ms)"
    let ?r = "json_nl ind d @ ?j @ json_nl ind e @ CHR 0x7D # rest"
    have j: "join_with (CHR '','' # json_nl ind d) (map (member_print ind d) (m # ms))
        = member_print ind d m @ CHR '','' # json_nl ind d @ ?j"
      by (simp add: Cons)
    have "parse_value g (?c @ json_print ind d v @ CHR '','' # ?r) = Some (v, CHR '','' # ?r)"
      by (rule parsesD) (use Cons.prems f j m lv ws in auto)
    moreover have "parse_members g ?r = Some (ms, rest)"
      by (rule Cons.IH) (use Cons.prems f j Cons lv in auto)
    moreover have "skip_ws (CHR '','' # ?r) = CHR '','' # ?r" by (simp add: skip_ws_Cons json_ws_def)
    ultimately show ?thesis using head [of "CHR '','' # ?r"] unfolding j by (simp add: m)
  qed
qed

lemma parse_value_start:
  assumes "is_ws w" "\<not> json_ws c"
  shows "skip_ws (w @ c # s) = c # s"
  using assms by (simp add: skip_ws_append skip_ws_Cons)

lemma first_item:
  assumes "items \<noteq> []" "\<And>s. s \<in> set items \<Longrightarrow> \<exists>c t. s = c # t \<and> \<not> json_ws c \<and> c \<noteq> CHR '']'' \<and> c \<noteq> CHR 0x7D"
  shows "\<exists>c t. skip_ws (json_nl ind d @ join_with sep items @ rest) = c # t \<and> c \<noteq> CHR '']'' \<and> c \<noteq> CHR 0x7D"
proof -
  obtain x xs where i: "items = x # xs" using assms(1) by (cases items) auto
  with assms(2) [of x] obtain c t where x: "x = c # t" "\<not> json_ws c" "c \<noteq> CHR '']''" "c \<noteq> CHR 0x7D" by auto
  then obtain u where "join_with sep items @ rest = c # u" using i by (cases xs) auto
  with x show ?thesis by (simp add: skip_ws_append skip_ws_Cons)
qed

lemma print_start: "json_ok v \<Longrightarrow> \<exists>c t. json_print ind d v = c # t \<and> \<not> json_ws c \<and> c \<noteq> CHR '']'' \<and> c \<noteq> CHR 0x7D"
proof (cases v)
  case (JNum lit)
  assume "json_ok v"
  then show ?thesis using num_ok_start [of lit] by (auto simp: JNum)
next
  case (JStr s)
  have "char_of (0x22 :: nat) = CHR 0x22" by code_simp
  then show ?thesis by (simp add: JStr json_quote_def json_ws_def)
qed (auto simp: json_ws_def json_items_def)

lemma json_parses: "parses ind v"
proof (induction v)
  case JNull
  show ?case unfolding parses_def
  proof (intro allI impI)
    fix d w rest f assume "is_ws w" "2 * length (json_print ind d JNull) < f"
    then show "parse_value f (w @ json_print ind d JNull @ rest) = Some (JNull, rest)"
      by (cases f) (auto simp: parse_value_start json_ws_def strip_prefix_def)
  qed
next
  case (JBool b)
  show ?case unfolding parses_def
  proof (intro allI impI)
    fix d w rest f assume "is_ws w" "2 * length (json_print ind d (JBool b)) < f"
    then show "parse_value f (w @ json_print ind d (JBool b) @ rest) = Some (JBool b, rest)"
      by (cases f) (auto simp: parse_value_start json_ws_def strip_prefix_def)
  qed
next
  case (JNum lit)
  show ?case unfolding parses_def
  proof (intro allI impI)
    fix d w rest f assume ok: "json_ok (JNum lit)" and e: "num_end rest" and w: "is_ws w"
      and l: "2 * length (json_print ind d (JNum lit)) < f"
    from ok obtain x t where h: "lit = x # t" "\<not> json_ws x" "x \<notin> set ''tfn[{]}''" "x \<noteq> CHR 0x22"
      using num_ok_start [of lit] by auto
    have "skip_ws (w @ lit @ rest) = x # t @ rest" using h by (simp add: parse_value_start [OF w])
    moreover have "scan_number (x # t @ rest) = Some (lit, rest)" using scan_num_ok [of lit, OF _ e] ok h(1) by simp
    ultimately show "parse_value f (w @ json_print ind d (JNum lit) @ rest) = Some (JNum lit, rest)"
      using h(2-4) l by (cases f) auto
  qed
next
  case (JStr s)
  show ?case unfolding parses_def
  proof (intro allI impI)
    fix d w rest f assume ok: "json_ok (JStr s)" and w: "is_ws w" and l: "2 * length (json_print ind d (JStr s)) < f"
    have q22: "CHR 0x22 = char_of (0x22 :: nat)" by code_simp
    have "skip_ws (w @ json_quote s @ rest) = CHR 0x22 # quote_body s @ char_of (0x22 :: nat) # rest"
      unfolding json_quote_def q22 [symmetric] by (simp add: parse_value_start [OF w] json_ws_def)
    then show "parse_value f (w @ json_print ind d (JStr s) @ rest) = Some (JStr s, rest)"
      using ok unquote_quote [of s rest] l by (cases f) auto
  qed
next
  case (JArr vs)
  show ?case unfolding parses_def
  proof (intro allI impI)
    fix d w rest f assume ok: "json_ok (JArr vs)" and w: "is_ws w" and l: "2 * length (json_print ind d (JArr vs)) < f"
    obtain g where f: "f = Suc g" using l by (cases f) auto
    show "parse_value f (w @ json_print ind d (JArr vs) @ rest) = Some (JArr vs, rest)"
    proof (cases "vs = []")
      case True
      then show ?thesis by (simp add: f json_items_def parse_value_start [OF w] skip_ws_Cons json_ws_def)
    next
      case False
      let ?t = "json_nl ind (Suc d) @ join_with (CHR '','' # json_nl ind (Suc d)) (map (json_print ind (Suc d)) vs)
        @ json_nl ind d @ CHR '']'' # rest"
      have s: "skip_ws (w @ json_print ind d (JArr vs) @ rest) = CHR ''['' # ?t"
        using False by (simp add: json_items_def parse_value_start [OF w] json_ws_def)
      have p: "parse_elems g ?t = Some (vs, rest)"
      proof (rule parse_elems_print [OF _ False])
        show "\<forall>v\<in>set vs. parses ind v \<and> json_ok v" using JArr ok by (simp add: list_all_iff)
        have "length (json_print ind d (JArr vs)) \<ge> 2 + length (join_with (CHR '','' # json_nl ind (Suc d)) (map (json_print ind (Suc d)) vs))"
          using False by (simp add: json_items_def)
        then show "2 * length (join_with (CHR '','' # json_nl ind (Suc d)) (map (json_print ind (Suc d)) vs)) + 1 < g"
          using l f by linarith
      qed simp
      have "\<exists>c t. s = c # t \<and> \<not> json_ws c \<and> c \<noteq> CHR '']'' \<and> c \<noteq> CHR 0x7D"
        if "s \<in> set (map (json_print ind (Suc d)) vs)" for s
        using that ok print_start by (auto simp: list_all_iff)
      moreover have "map (json_print ind (Suc d)) vs \<noteq> []" using False by simp
      ultimately obtain c u where "skip_ws ?t = c # u" "c \<noteq> CHR '']''"
        using first_item [of "map (json_print ind (Suc d)) vs" ind "Suc d" "CHR '','' # json_nl ind (Suc d)"
          "json_nl ind d @ CHR '']'' # rest"] by blast
      with s p show ?thesis unfolding f by simp
    qed
  qed
next
  case (JObj ms)
  show ?case unfolding parses_def
  proof (intro allI impI)
    fix d w rest f assume ok: "json_ok (JObj ms)" and w: "is_ws w" and l: "2 * length (json_print ind d (JObj ms)) < f"
    obtain g where f: "f = Suc g" using l by (cases f) auto
    have mp: "map (\<lambda>(k, v). json_quote k @ json_colon ind @ json_print ind (Suc d) v) ms = map (member_print ind (Suc d)) ms"
      by (simp add: member_print_def)
    have q22: "char_of (0x22 :: nat) = CHR 0x22" by code_simp
    show "parse_value f (w @ json_print ind d (JObj ms) @ rest) = Some (JObj ms, rest)"
    proof (cases "ms = []")
      case True
      then show ?thesis by (simp add: f json_items_def parse_value_start [OF w] skip_ws_Cons json_ws_def)
    next
      case False
      let ?t = "json_nl ind (Suc d) @ join_with (CHR '','' # json_nl ind (Suc d)) (map (member_print ind (Suc d)) ms)
        @ json_nl ind d @ CHR 0x7D # rest"
      have pr: "json_print ind d (JObj ms) @ rest = CHR 0x7B # ?t"
        using False by (simp add: json_items_def mp)
      have s: "skip_ws (w @ json_print ind d (JObj ms) @ rest) = CHR 0x7B # ?t"
        unfolding pr by (rule parse_value_start [OF w]) (simp add: json_ws_def)
      have len: "length (json_print ind d (JObj ms)) \<ge> 2 + length (join_with (CHR '','' # json_nl ind (Suc d)) (map (member_print ind (Suc d)) ms))"
        using False by (simp add: json_items_def mp)
      have p: "parse_members g ?t = Some (ms, rest)"
      proof (rule parse_members_print [OF _ False])
        show "\<forall>(k, v)\<in>set ms. utf8_valid k \<and> parses ind v \<and> json_ok v"
          using JObj ok by (fastforce simp: list_all_iff)
        show "2 * length (join_with (CHR '','' # json_nl ind (Suc d)) (map (member_print ind (Suc d)) ms)) + 1 < g"
          using l f len by linarith
      qed simp
      have "\<exists>c t. s = c # t \<and> \<not> json_ws c \<and> c \<noteq> CHR '']'' \<and> c \<noteq> CHR 0x7D"
        if "s \<in> set (map (member_print ind (Suc d)) ms)" for s
        using that by (auto simp: member_print_def json_quote_def q22 json_ws_def)
      moreover have "map (member_print ind (Suc d)) ms \<noteq> []" using False by simp
      ultimately obtain c u where "skip_ws ?t = c # u" "c \<noteq> CHR 0x7D"
        using first_item [of "map (member_print ind (Suc d)) ms" ind "Suc d" "CHR '','' # json_nl ind (Suc d)"
          "json_nl ind d @ CHR 0x7D # rest"] by blast
      with s p show ?thesis unfolding f by simp
    qed
  qed
qed

lemma json_parse_print:
  assumes "json_ok v" "is_ws w"
  shows "json_parse (json_print ind d v @ w) = Some v"
proof -
  have e: "num_end w" using assms(2)
    by (cases w) (auto simp: num_end_def is_ws_def json_ws_def is_digit_def digit_value_def)
  have s: "skip_ws w = []" using skip_ws_append [OF assms(2), of "[]"] by (simp add: skip_ws_def)
  have "parse_value (2 * length (json_print ind d v @ w) + 2) ([] @ json_print ind d v @ w) = Some (v, w)"
    by (rule parsesD [OF json_parses assms(1) e]) simp_all
  with s show ?thesis by (simp add: json_parse_def)
qed

section \<open>Fields\<close>

lemma dec_digits_append: "dec_digits (s @ t) a = Option.bind (dec_digits s a) (dec_digits t)"
  by (induction s arbitrary: a) (auto split: option.splits)

lemma dec_digits_dec_string [simp]: "dec_digits (dec_string n) 0 = Some n"
proof (induction n rule: dec_string.induct)
  case (1 n)
  then show ?case by (cases "n < 10") (auto simp: dec_string_small dec_string_step dec_digits_append)
qed

lemma num_ok_dec_string [simp]: "num_ok (dec_string n)" "num_ok (CHR ''-'' # dec_string n)"
proof -
  obtain d t where h: "dec_string n = digit_char d # t" "d < 10" using dec_string_head by blast
  have o: "digits_ok (dec_string n)" by (simp add: digits_ok_def)
  then show "num_ok (CHR ''-'' # dec_string n)" by (simp add: num_ok_def)
  show "num_ok (dec_string n)" using o digit_char_facts(3) [OF h(2)] unfolding h(1) by (simp add: num_ok_def)
qed

lemma dec_word_enc [simp]: "dec_word (enc_word w) = Some (w :: 'a::len word)"
proof -
  have "dec_string (unat w) \<noteq> []" by simp
  then show ?thesis using unsigned_less [of w] by (simp add: dec_word_def enc_word_def dec_nat_def)
qed

lemma enc_word_simps [simp]: "json_ok (enc_word w)" "enc_word w \<noteq> JNull"
  by (simp_all add: enc_word_def)

lemma dec_all_map: "(\<And>x. x \<in> set xs \<Longrightarrow> dec (enc x) = Some x) \<Longrightarrow> dec_all dec (map enc xs) = Some xs"
  by (induction xs) auto

lemma dec_slice_map:
  assumes "\<And>x. x \<in> set xs \<Longrightarrow> dec (enc x) = Some x" "\<And>x. enc x \<noteq> JNull"
  shows "dec_slice zero dec (JArr (map enc xs)) = Some xs"
  unfolding dec_slice_def json.case by (rule dec_all_map) (use assms in auto)


lemma fold_name_ascii: "ascii s \<Longrightarrow> fold_name s = map (\<lambda>c. fold_rune (of_char c)) s"
  by (simp add: fold_name_def runes_ascii)

text \<open>The field names of a struct: ASCII, and different up to case.\<close>

definition plain_fields :: "string list \<Rightarrow> bool" where
  "plain_fields fs \<longleftrightarrow> list_all ascii fs \<and> distinct (map (map (\<lambda>c. fold_rune (of_char c))) fs)"

lemma plain_fields_names:
  assumes "plain_fields fs" "f \<in> set fs" "k \<in> set fs"
  shows "names_field f k = (k = f)"
  using assms inj_on_eq_iff [of "map (\<lambda>c. fold_rune (of_char c))" "set fs" k f]
  by (auto simp: plain_fields_def names_field_def fold_name_ascii list_all_iff distinct_map)

lemma plain_fields_utf8: "plain_fields fs \<Longrightarrow> list_all utf8_valid fs"
  by (auto simp: plain_fields_def list_all_iff utf8_ascii)

lemma known_fieldsI: "plain_fields fs \<Longrightarrow> fst ` set ms \<subseteq> set fs \<Longrightarrow> known_fields fs ms"
  using plain_fields_names unfolding known_fields_def list_all_iff list_ex_iff by force

lemma dec_field_skip:
  "\<forall>(k, v)\<in>set ms. \<not> names_field f k \<Longrightarrow>
     foldl (\<lambda>acc (k, v). if \<not> names_field f k then acc
              else Option.bind acc (\<lambda>old. if v = JNull then Some old else dec v)) acc ms = acc"
  by (induction ms arbitrary: acc) auto

lemma dec_field_lookup:
  assumes "\<forall>k\<in>set (map fst ms). names_field f k = (k = f)" and "distinct (map fst ms)"
  shows "dec_field f dec dflt ms =
    (case map_of ms f of None \<Rightarrow> Some dflt | Some v \<Rightarrow> if v = JNull then Some dflt else dec v)"
  using assms
proof (induction ms)
  case Nil
  then show ?case by (simp add: dec_field_def)
next
  case (Cons m ms)
  obtain k v where m: "m = (k, v)" by (cases m)
  show ?case
  proof (cases "k = f")
    case False
    with Cons m show ?thesis by (simp add: dec_field_def)
  next
    case True
    have "\<forall>(k, v)\<in>set ms. \<not> names_field f k" using Cons.prems m True by force
    then show ?thesis using Cons.prems(1) m True by (auto simp: dec_field_def dec_field_skip)
  qed
qed

lemma dec_field_plain:
  assumes "plain_fields fs" "fst ` set ms \<subseteq> set fs" "distinct (map fst ms)" "f \<in> set fs"
  shows "dec_field f dec dflt ms =
    (case map_of ms f of None \<Rightarrow> Some dflt | Some v \<Rightarrow> if v = JNull then Some dflt else dec v)"
  by (rule dec_field_lookup) (use assms plain_fields_names in auto)

end
