(* ===== verification/Disk.thy ===== *)
theory Disk
  imports Go_Json_Laws
begin

text \<open>
  The file system as the program uses it, and \<open>writeAtomic\<close> of \<open>internal/state/state.go\<close>, which
  \<open>internal/secret/store.go\<close> and the other stores repeat: write a temporary file in the same
  directory, sync it, rename it over the target.
\<close>

section \<open>The file system\<close>

text \<open>
  A disk is its files and a script of outcomes: each system call takes the next one, \<open>None\<close> for success
  or an error, for a write with the number of bytes that reached the file. When the script is used up
  every call succeeds. Directories are not kept; creating one only has an outcome.
\<close>

record disk =
  d_files :: "(string, bytes) fmap"
  d_script :: "(goerror option \<times> nat) list"

definition os_call :: "disk \<Rightarrow> (goerror option \<times> nat) \<times> disk" where
  "os_call d = (case d_script d of [] \<Rightarrow> ((None, 0), d) | x # xs \<Rightarrow> (x, d\<lparr>d_script := xs\<rparr>))"

definition notExist :: goerror where
  "notExist = ErrWrap [ErrTag OsErrNotExist]"

definition ReadFile :: "string \<Rightarrow> disk \<Rightarrow> bytes result \<times> disk" where
  "ReadFile path d =
     (let ((err, _), d1) = os_call d in
      (case err of
         Some e \<Rightarrow> (Inl e, d1)
       | None \<Rightarrow> (case fmlookup (d_files d1) path of None \<Rightarrow> Inl notExist | Some data \<Rightarrow> Inr data, d1)))"

definition os_Remove :: "string \<Rightarrow> disk \<Rightarrow> goerror option \<times> disk" where
  "os_Remove path d =
     (let ((err, _), d1) = os_call d in
      (case err of
         Some e \<Rightarrow> (Some e, d1)
       | None \<Rightarrow>
           if fmlookup (d_files d1) path = None then (Some notExist, d1)
           else (None, d1\<lparr>d_files := fmdrop path (d_files d1)\<rparr>)))"

text \<open>
  \<open>os.CreateTemp(dir, base + ".tmp-")\<close> opens a new file under a name no file has; which of the free
  names it takes does not matter, here it is the one with the least number.
\<close>

definition temp_path :: "string \<Rightarrow> nat \<Rightarrow> string" where
  "temp_path path n = path @ ''.tmp-'' @ dec_string n"

definition temp_name :: "string \<Rightarrow> (string, bytes) fmap \<Rightarrow> string" where
  "temp_name path files =
     (case find (\<lambda>n. fmlookup files (temp_path path n) = None) [0..<Suc (fcard (fmdom files))] of
        None \<Rightarrow> temp_path path 0
      | Some n \<Rightarrow> temp_path path n)"

text \<open>The calls on the open temporary file: chmod, write, sync, close, with the error kept by the source.\<close>

definition fill_temp :: "string \<Rightarrow> bytes \<Rightarrow> disk \<Rightarrow> goerror option \<times> disk" where
  "fill_temp tmp data d =
     (let ((chmod, _), d) = os_call d;
          (err, d) = (if chmod = None then
            (let ((e, n), d) = os_call d
             in (e, d\<lparr>d_files := fmupd tmp (if e = None then data else take n data) (d_files d)\<rparr>))
            else (chmod, d));
          (err, d) = (if err = None then (let ((e, _), d) = os_call d in (e, d)) else (err, d));
          ((close, _), d) = os_call d
      in (if err = None then close else err, d))"

text \<open>
  Creating the temporary file, filling it with \<open>fill\<close>, which is what the stores do differently, renaming it,
  and the deferred removal.
\<close>

definition replace_file ::
    "(string \<Rightarrow> bytes \<Rightarrow> disk \<Rightarrow> goerror option \<times> disk) \<Rightarrow> string \<Rightarrow> bytes \<Rightarrow> disk \<Rightarrow> goerror option \<times> disk" where
  "replace_file fill path data d =
     (let ((mkdir, _), d) = os_call d in
      if mkdir \<noteq> None then (mkdir, d)
      else
        (let ((create, _), d) = os_call d in
         if create \<noteq> None then (create, d)
         else
           (let tmp = temp_name path (d_files d);
                d = d\<lparr>d_files := fmupd tmp [] (d_files d)\<rparr>;
                (err, d) = fill tmp data d
            in if err \<noteq> None then (err, snd (os_Remove tmp d))
               else
                 (let ((rename, _), d) = os_call d in
                  if rename \<noteq> None then (rename, snd (os_Remove tmp d))
                  else
                    (let d = d\<lparr>d_files := fmdrop tmp (fmupd path
                           (case fmlookup (d_files d) tmp of None \<Rightarrow> [] | Some content \<Rightarrow> content) (d_files d))\<rparr>
                     in (None, snd (os_Remove tmp d)))))))"

definition writeAtomic :: "string \<Rightarrow> bytes \<Rightarrow> disk \<Rightarrow> goerror option \<times> disk" where
  "writeAtomic = replace_file fill_temp"

section \<open>Temporary names\<close>

lemma temp_path_inj: "temp_path path m = temp_path path n \<Longrightarrow> m = n"
  unfolding temp_path_def by (metis append_same_eq dec_digits_dec_string option.inject same_append_eq)

lemma temp_path_ne: "temp_path path n \<noteq> path"
  by (simp add: temp_path_def)

lemma temp_name_form: "\<exists>n. temp_name path files = temp_path path n"
  by (auto simp: temp_name_def split: option.splits)

lemma temp_name_ne [simp]: "temp_name path files \<noteq> path" "path \<noteq> temp_name path files"
  using temp_name_form [of path files] temp_path_ne by (metis)+

lemma temp_name_fresh [simp]: "fmlookup files (temp_name path files) = None"
proof -
  let ?P = "\<lambda>n. fmlookup files (temp_path path n) = None"
  define k where "k = Suc (fcard (fmdom files))"
  have "\<exists>n<k. ?P n"
  proof (rule ccontr)
    assume "\<not> ?thesis"
    then have "temp_path path ` {..<k} \<subseteq> fset (fmdom files)"
      by (auto simp: fmlookup_dom_iff)
    then have "card (temp_path path ` {..<k}) \<le> fcard (fmdom files)"
      by (metis card_mono finite_fset fcard.rep_eq)
    moreover have "inj_on (temp_path path) {..<k}"
      by (rule inj_onI) (rule temp_path_inj)
    ultimately show False by (simp add: card_image k_def)
  qed
  then have "find ?P [0..<k] \<noteq> None" by (auto simp: find_None_iff)
  then obtain n where n: "find ?P [0..<k] = Some n" by blast
  moreover from this have "?P n" by (auto simp: find_Some_iff)
  ultimately show ?thesis by (simp add: temp_name_def flip: k_def)
qed

section \<open>What a write does to the files\<close>

lemma os_call_files [simp]: "os_call d = (r, d') \<Longrightarrow> d_files d' = d_files d"
  by (auto simp: os_call_def split: list.splits)

lemma os_call_no_script: "d_script d = [] \<Longrightarrow> os_call d = ((None, 0), d)"
  by (simp add: os_call_def)

lemma os_Remove_files: "os_Remove p d = (e, d') \<Longrightarrow>
    d_files d' = d_files d \<or> d_files d' = fmdrop p (d_files d)"
  by (auto simp: os_Remove_def Let_def dest!: os_call_files split: prod.splits option.splits if_splits)

lemma fill_temp_files:
  assumes "fill_temp tmp data d = (err, d')"
  shows "(err = None \<longrightarrow> d_files d' = fmupd tmp data (d_files d))
    \<and> (d_files d' = d_files d \<or> (\<exists>c. d_files d' = fmupd tmp c (d_files d)))"
proof -
  obtain c n d1 where c: "os_call d = ((c, n), d1)" by (metis prod.collapse)
  show ?thesis
  proof (cases c)
    case (Some e)
    obtain x m d2 where "os_call d1 = ((x, m), d2)" by (metis prod.collapse)
    with Some c assms show ?thesis by (auto simp: fill_temp_def Let_def)
  next
    case None
    obtain w k d2 where w: "os_call d1 = ((w, k), d2)" by (metis prod.collapse)
    let ?d = "d2\<lparr>d_files := fmupd tmp (if w = None then data else take k data) (d_files d2)\<rparr>"
    obtain s m d3 where s: "os_call ?d = ((s, m), d3)" by (metis prod.collapse)
    obtain x l d4 where x: "os_call d3 = ((x, l), d4)" by (metis prod.collapse)
    note f = os_call_files [OF c] os_call_files [OF w] os_call_files [OF s] os_call_files [OF x]
    show ?thesis
    proof (cases w)
      case w': None
      with None c w s x assms have "d' = d4" by (auto simp: fill_temp_def Let_def split: if_splits)
      with f w' show ?thesis by auto
    next
      case (Some e)
      with None c w s assms have "err = Some e" "d' = d3" by (auto simp: fill_temp_def Let_def)
      with f Some show ?thesis by auto
    qed
  qed
qed

text \<open>
  The contract of \<open>writeAtomic\<close>: the target has all of the new content when there is no error and its
  old content when there is one, and no other file changes but for a temporary one under a name that
  was free.
\<close>

definition written :: "string \<Rightarrow> bytes \<Rightarrow> (string, bytes) fmap \<Rightarrow> goerror option \<Rightarrow> (string, bytes) fmap \<Rightarrow> bool" where
  "written path data files err files' \<longleftrightarrow>
     fmlookup files' path = (if err = None then Some data else fmlookup files path)
     \<and> (\<forall>q. q \<noteq> path \<longrightarrow> fmlookup files' q \<noteq> fmlookup files q \<longrightarrow> q = temp_name path files)"

text \<open>What the stores' ways to fill the temporary file have in common.\<close>

locale temp_fill =
  fixes fill :: "string \<Rightarrow> bytes \<Rightarrow> disk \<Rightarrow> goerror option \<times> disk"
  assumes fill_files: "fill tmp data d = (err, d') \<Longrightarrow>
    (err = None \<longrightarrow> d_files d' = fmupd tmp data (d_files d))
    \<and> (d_files d' = d_files d \<or> (\<exists>c. d_files d' = fmupd tmp c (d_files d)))"
    and fill_ok: "d_script d = [] \<Longrightarrow>
      fill tmp data d = (None, d\<lparr>d_files := fmupd tmp data (d_files d)\<rparr>)"
begin

lemma replaced:
  assumes "replace_file fill path data d = (err, d')"
  shows "written path data (d_files d) err (d_files d')"
proof -
  obtain e1 n1 d1 where c1: "os_call d = ((e1, n1), d1)" by (metis prod.collapse)
  obtain e2 n2 d2 where c2: "os_call d1 = ((e2, n2), d2)" by (metis prod.collapse)
  note f = os_call_files [OF c1] os_call_files [OF c2]
  show ?thesis
  proof (cases "e1 = None \<and> e2 = None")
    case False
    with c1 c2 assms have "err \<noteq> None" "d_files d' = d_files d"
      using f by (auto simp: replace_file_def Let_def split: if_splits)
    then show ?thesis by (auto simp: written_def)
  next
    case True
    let ?tmp = "temp_name path (d_files d2)"
    let ?d = "d2\<lparr>d_files := fmupd ?tmp [] (d_files d2)\<rparr>"
    obtain e3 d3 where c3: "fill ?tmp data ?d = (e3, d3)" by fastforce
    obtain e4 n4 d4 where c4: "os_call d3 = ((e4, n4), d4)" by (metis prod.collapse)
    note ff = fill_files [OF c3]
    show ?thesis
    proof (cases "e3 = None \<and> e4 = None")
      case ok: True
      then have f3: "d_files d3 = fmupd ?tmp data (d_files d2)" using ff by simp
      let ?d5 = "d4\<lparr>d_files := fmdrop ?tmp (fmupd path data (d_files d4))\<rparr>"
      obtain e6 d6 where c6: "os_Remove ?tmp ?d5 = (e6, d6)" by fastforce
      have "d' = d6 \<and> err = None"
        using assms True ok c1 c2 c3 c4 c6 f3 os_call_files [OF c4]
        by (simp add: replace_file_def Let_def)
      moreover have "d_files d6 = fmdrop ?tmp (fmupd path data (d_files d4)) \<or>
          d_files d6 = fmdrop ?tmp (fmdrop ?tmp (fmupd path data (d_files d4)))"
        using os_Remove_files [OF c6] by simp
      ultimately show ?thesis
        using f3 f os_call_files [OF c4] unfolding written_def by auto
    next
      case False
      obtain e6 d6 where c6: "os_Remove ?tmp (if e3 \<noteq> None then d3 else d4) = (e6, d6)" by fastforce
      have "d' = d6 \<and> err \<noteq> None"
        using assms True False c1 c2 c3 c4 c6 by (auto simp: replace_file_def Let_def split: if_splits)
      moreover have "d_files d6 = d_files d3 \<or> d_files d6 = fmdrop ?tmp (d_files d3)"
        using os_Remove_files [OF c6] os_call_files [OF c4] by (auto split: if_splits)
      moreover have "fmlookup (d_files d3) q = fmlookup (d_files d2) q" if "q \<noteq> ?tmp" for q
        using ff that by auto
      ultimately show ?thesis
        using f unfolding written_def by (auto split: if_splits) blast+
    qed
  qed
qed

lemma replaced_ok:
  assumes "d_script d = []"
  shows "\<exists>d'. replace_file fill path data d = (None, d') \<and> d_script d' = []"
proof -
  note c = os_call_no_script
  let ?tmp = "temp_name path (d_files d)"
  let ?d1 = "d\<lparr>d_files := fmupd ?tmp [] (d_files d)\<rparr>"
  let ?d2 = "d\<lparr>d_files := fmupd ?tmp data (fmupd ?tmp [] (d_files d))\<rparr>"
  have f: "fill ?tmp data ?d1 = (None, ?d2)"
    using fill_ok [of ?d1] assms by simp
  have s: "d_script ?d2 = []" using assms by simp
  have r: "d_script (snd (os_Remove p x)) = []" if "d_script x = []" for p x
    using that by (simp add: os_Remove_def Let_def c)
  show ?thesis
    unfolding replace_file_def c [OF assms] prod.case Let_def f c [OF s] if_False simp_thms
    using r assms by simp
qed

end

interpretation atomic: temp_fill fill_temp
proof (unfold_locales, rule fill_temp_files)
  show "fill_temp tmp data d = (None, d\<lparr>d_files := fmupd tmp data (d_files d)\<rparr>)" if "d_script d = []" for tmp data d
    using that by (simp add: fill_temp_def Let_def os_call_no_script)
qed

lemma writeAtomic_written: "writeAtomic path data d = (err, d') \<Longrightarrow> written path data (d_files d) err (d_files d')"
  unfolding writeAtomic_def by (rule atomic.replaced)

lemma writeAtomic_ok: "d_script d = [] \<Longrightarrow> \<exists>d'. writeAtomic path data d = (None, d') \<and> d_script d' = []"
  unfolding writeAtomic_def by (rule atomic.replaced_ok)

lemma written_lookup:
  assumes "written path data files err files'" "q \<noteq> path" "\<And>n. q \<noteq> temp_path path n"
  shows "fmlookup files' q = fmlookup files q"
  using assms temp_name_form [of path files] unfolding written_def by metis

end
