(* ===== verification/Lease.thy ===== *)
theory Lease
  imports Netip "HOL-Library.Multiset"
begin

text \<open>
  \<open>internal/lease/lease.go\<close>: the allocator of the member addresses 10.0.23.2 to 10.0.23.254. Its
  state is the map from public keys to leases, the table of used last octets and the counter of
  lease revisions; every operation runs under the allocator's mutex, so each is one step.
\<close>

section \<open>Model\<close>

record lease =
  lease_key :: arr32
  lease_IP :: addr
  lease_Name :: string
  lease_Enabled :: bool
  lease_Revision :: u64

text \<open>\<open>[256]bool\<close> is indexed by a byte.\<close>

record allocator =
  byKey :: "(arr32, lease) fmap"
  used :: "byte \<Rightarrow> bool"
  revision :: u64

definition memberOctet :: "addr \<Rightarrow> byte \<times> bool" where
  "memberOctet ip =
     (if \<not> Is4 ip then (0, False)
      else let v = As4 ip in (v ! 3, v ! 0 = 10 \<and> v ! 1 = 0 \<and> v ! 2 = 23 \<and> v ! 3 \<ge> 2 \<and> v ! 3 \<le> 254))"

definition isZeroKey :: "arr32 \<Rightarrow> bool" where
  "isZeroKey key = isZero (be_bytes key)"

definition allocator_empty :: allocator where
  "allocator_empty = \<lparr>byKey = fmempty, used = (\<lambda>_. False)(0 := True, 1 := True, 255 := True), revision = 0\<rparr>"

text \<open>The body of the loop of \<open>New\<close>, and \<open>New\<close>.\<close>

definition new_item :: "lease \<Rightarrow> allocator \<Rightarrow> allocator result" where
  "new_item item a =
     (let (octet, ok) = memberOctet (lease_IP item) in
      if \<not> ok \<or> isZeroKey (lease_key item) \<or> used a octet then Inl (ErrTag LeaseErrInvalid)
      else if fmlookup (byKey a) (lease_key item) \<noteq> None then Inl (ErrTag LeaseErrInvalid)
      else Inr (a\<lparr>used := (used a)(octet := True),
                  byKey := fmupd (lease_key item) item (byKey a),
                  revision := (if lease_Revision item > revision a then lease_Revision item else revision a)\<rparr>))"

fun new_loop :: "lease list \<Rightarrow> allocator \<Rightarrow> allocator result" where
  "new_loop [] a = Inr a"
| "new_loop (item # items) a = bind_result (new_item item a) (new_loop items)"

definition New :: "lease list \<Rightarrow> allocator result" where
  "New initial = new_loop initial allocator_empty"

text \<open>The loop \<open>for octet := 2; octet <= 254; octet++\<close> of \<open>Assign\<close>: the first octet not in use.\<close>

definition freeOctet :: "(byte \<Rightarrow> bool) \<Rightarrow> nat option" where
  "freeOctet table = find (\<lambda>octet. \<not> table (of_nat octet)) [2..<255]"

text \<open>\<open>Assign\<close> returns the lease and whether it is new.\<close>

definition Assign :: "arr32 \<Rightarrow> string \<Rightarrow> allocator \<Rightarrow> (lease \<times> bool) result \<times> allocator" where
  "Assign publicKey name a =
     (if isZeroKey publicKey then (Inl (ErrTag LeaseErrInvalid), a)
      else
        (case fmlookup (byKey a) publicKey of
           Some existing \<Rightarrow>
             if lease_Name existing \<noteq> name then
               (let existing' = existing\<lparr>lease_Name := name\<rparr>
                in (Inr (existing', False), a\<lparr>byKey := fmupd publicKey existing' (byKey a)\<rparr>))
             else (Inr (existing, False), a)
         | None \<Rightarrow>
             (case freeOctet (used a) of
                None \<Rightarrow> (Inl (ErrTag LeaseErrFull), a)
              | Some octet \<Rightarrow>
                  (let item = \<lparr>lease_key = publicKey, lease_IP = AddrFrom4 [10, 0, 23, of_nat octet],
                               lease_Name = name, lease_Enabled = True, lease_Revision = revision a + 1\<rparr>
                   in (Inr (item, True),
                       a\<lparr>revision := revision a + 1, used := (used a)(of_nat octet := True),
                         byKey := fmupd publicKey item (byKey a)\<rparr>)))))"

definition Remove :: "arr32 \<Rightarrow> allocator \<Rightarrow> lease option \<times> allocator" where
  "Remove publicKey a =
     (case fmlookup (byKey a) publicKey of
        None \<Rightarrow> (None, a)
      | Some item \<Rightarrow>
          (Some item, a\<lparr>used := (used a)(fst (memberOctet (lease_IP item)) := False),
                        byKey := fmdrop publicKey (byKey a)\<rparr>))"

definition Restore :: "lease \<Rightarrow> allocator \<Rightarrow> goerror option \<times> allocator" where
  "Restore item a =
     (let (octet, ok) = memberOctet (lease_IP item) in
      if \<not> ok \<or> isZeroKey (lease_key item) \<or> lease_Revision item = 0 then (Some (ErrTag LeaseErrInvalid), a)
      else
        (let existing = fmlookup (byKey a) (lease_key item) in
         if (\<exists>e\<in>set_option existing. lease_IP e \<noteq> lease_IP item) then (Some (ErrTag LeaseErrInvalid), a)
         else if used a octet \<and> (existing = None \<or> (\<exists>e\<in>set_option existing. lease_IP e \<noteq> lease_IP item))
         then (Some (ErrTag LeaseErrInvalid), a)
         else (None, a\<lparr>used := (used a)(octet := True),
                       byKey := fmupd (lease_key item) item (byKey a),
                       revision := (if lease_Revision item > revision a then lease_Revision item
                                    else revision a)\<rparr>)))"

definition RemoveIfRevision :: "arr32 \<Rightarrow> u64 \<Rightarrow> allocator \<Rightarrow> bool \<times> allocator" where
  "RemoveIfRevision publicKey rev' a =
     (case fmlookup (byKey a) publicKey of
        None \<Rightarrow> (False, a)
      | Some item \<Rightarrow>
          if lease_Revision item \<noteq> rev' then (False, a)
          else (True, a\<lparr>used := (used a)(fst (memberOctet (lease_IP item)) := False),
                        byKey := fmdrop publicKey (byKey a)\<rparr>))"

text \<open>
  The values of a map: Go iterates in an unspecified order, here it is the order of the keys; the
  sort that follows makes the result independent of it (\<open>Snapshot_order\<close> below).
\<close>

definition fm_values :: "('k::linorder, 'v) fmap \<Rightarrow> 'v list" where
  "fm_values m = map (\<lambda>k. the (fmlookup m k)) (sorted_list_of_fset (fmdom m))"

definition Snapshot :: "allocator \<Rightarrow> lease list" where
  "Snapshot a = sort_key lease_IP (fm_values (byKey a))"

section \<open>Octets\<close>

lemma byte_range: "2 \<le> (o' :: byte) \<and> o' \<le> 254 \<longleftrightarrow> o' \<noteq> 0 \<and> o' \<noteq> 1 \<and> o' \<noteq> 255"
proof -
  have "unat o' < 256" by (rule byte_bound)
  then show ?thesis by (auto simp: word_le_nat_alt word_unat_eq_iff)
qed

lemma memberOctet_net_ip [simp]: "memberOctet (net_ip o') = (o', 2 \<le> o' \<and> o' \<le> 254)"
  by (simp add: memberOctet_def)

lemma memberOctet_ok:
  "snd (memberOctet ip) \<longleftrightarrow> (\<exists>o'. ip = net_ip o' \<and> 2 \<le> o' \<and> o' \<le> 254)"
proof
  assume ok: "snd (memberOctet ip)"
  then have is4: "Is4 ip" by (auto simp: memberOctet_def split: if_splits)
  obtain a b c d where v: "As4 ip = [a, b, c, d]" using list4 [of "As4 ip"] is4 by auto
  from ok is4 have "a = 10" "b = 0" "c = 23" "2 \<le> d" "d \<le> 254"
    by (simp_all add: memberOctet_def v)
  with v is4 show "\<exists>o'. ip = net_ip o' \<and> 2 \<le> o' \<and> o' \<le> 254"
    by (metis net_ip_of)
qed (auto simp: memberOctet_net_ip)

lemma AddrFrom4_net_ip [simp]: "AddrFrom4 [10, 0, 23, o'] = net_ip o'"
  by (simp add: net_ip_def)

section \<open>The invariant\<close>

text \<open>
  Every lease is stored under its own, non-zero key, at a member address that is marked used and is
  no other lease's, with a revision the counter has reached; and nothing but the three reserved
  octets and the octets of the leases is marked used.
\<close>

definition alloc_inv :: "allocator \<Rightarrow> bool" where
  "alloc_inv a \<longleftrightarrow>
     used a 0 \<and> used a 1 \<and> used a 255
     \<and> (\<forall>k l. fmlookup (byKey a) k = Some l \<longrightarrow>
          lease_key l = k \<and> k \<noteq> 0 \<and> lease_Revision l \<le> revision a
          \<and> (\<exists>o'. lease_IP l = net_ip o' \<and> 2 \<le> o' \<and> o' \<le> 254 \<and> used a o'))
     \<and> (\<forall>k l k' l'. fmlookup (byKey a) k = Some l \<longrightarrow> fmlookup (byKey a) k' = Some l'
          \<longrightarrow> lease_IP l = lease_IP l' \<longrightarrow> k = k')
     \<and> (\<forall>o'. used a o' \<longrightarrow> o' = 0 \<or> o' = 1 \<or> o' = 255
          \<or> (\<exists>k l. fmlookup (byKey a) k = Some l \<and> lease_IP l = net_ip o'))"

lemma isZeroKey_iff [simp]: "isZeroKey k \<longleftrightarrow> k = 0"
  by (simp add: isZeroKey_def)

lemma alloc_invI:
  assumes "used a 0" "used a 1" "used a 255"
    and "\<And>k l. fmlookup (byKey a) k = Some l \<Longrightarrow> lease_key l = k \<and> k \<noteq> 0 \<and> lease_Revision l \<le> revision a
      \<and> (\<exists>o'. lease_IP l = net_ip o' \<and> 2 \<le> o' \<and> o' \<le> 254 \<and> used a o')"
    and "\<And>k l k' l'. fmlookup (byKey a) k = Some l \<Longrightarrow> fmlookup (byKey a) k' = Some l'
      \<Longrightarrow> lease_IP l = lease_IP l' \<Longrightarrow> k = k'"
    and "\<And>o'. used a o' \<Longrightarrow> o' \<noteq> 0 \<Longrightarrow> o' \<noteq> 1 \<Longrightarrow> o' \<noteq> 255 \<Longrightarrow>
      \<exists>k l. fmlookup (byKey a) k = Some l \<and> lease_IP l = net_ip o'"
  shows "alloc_inv a"
  unfolding alloc_inv_def using assms by blast

lemma alloc_invD:
  assumes "alloc_inv a"
  shows "used a 0" "used a 1" "used a 255"
    and "fmlookup (byKey a) k = Some l \<Longrightarrow> lease_key l = k"
    and "fmlookup (byKey a) k = Some l \<Longrightarrow> k \<noteq> 0"
    and "fmlookup (byKey a) k = Some l \<Longrightarrow> lease_Revision l \<le> revision a"
    and "fmlookup (byKey a) k = Some l \<Longrightarrow> \<exists>o'. lease_IP l = net_ip o' \<and> 2 \<le> o' \<and> o' \<le> 254 \<and> used a o'"
    and "fmlookup (byKey a) k = Some l \<Longrightarrow> fmlookup (byKey a) k' = Some l' \<Longrightarrow> lease_IP l = lease_IP l' \<Longrightarrow> k = k'"
    and "used a o' \<Longrightarrow> o' \<noteq> 0 \<Longrightarrow> o' \<noteq> 1 \<Longrightarrow> o' \<noteq> 255 \<Longrightarrow>
      \<exists>k l. fmlookup (byKey a) k = Some l \<and> lease_IP l = net_ip o'"
  using assms unfolding alloc_inv_def by blast+

lemma alloc_inv_used:
  assumes "alloc_inv a" and "fmlookup (byKey a) k = Some l" and "lease_IP l = net_ip o'"
  shows "used a o'"
  using alloc_invD(7) [OF assms(1,2)] assms(3) by auto

lemma alloc_inv_empty: "alloc_inv allocator_empty"
  by (rule alloc_invI) (auto simp: allocator_empty_def split: if_splits)

text \<open>
  The two ways an operation changes the table: a lease goes in at an octet that is free or its own,
  or a lease goes out with its octet.
\<close>

lemma alloc_inv_insert:
  assumes inv: "alloc_inv a" and ip: "lease_IP item = net_ip oct" "2 \<le> oct" "oct \<le> 254"
    and key: "lease_key item \<noteq> 0"
    and free: "used a oct \<Longrightarrow> \<exists>e. fmlookup (byKey a) (lease_key item) = Some e \<and> lease_IP e = lease_IP item"
    and same: "\<And>e. fmlookup (byKey a) (lease_key item) = Some e \<Longrightarrow> lease_IP e = lease_IP item"
    and rev: "revision a \<le> r" "lease_Revision item \<le> r"
  shows "alloc_inv (a\<lparr>used := (used a)(oct := True), byKey := fmupd (lease_key item) item (byKey a), revision := r\<rparr>)"
    (is "alloc_inv ?a")
proof -
  have look: "fmlookup (byKey ?a) j = (if j = lease_key item then Some item else fmlookup (byKey a) j)" for j
    by simp
  have clash: "j = lease_key item" if "fmlookup (byKey a) j = Some m" "lease_IP m = lease_IP item" for j m
  proof -
    from alloc_invD(7) [OF inv that(1)] that(2) ip have "used a oct" by auto
    then obtain e where e: "fmlookup (byKey a) (lease_key item) = Some e" "lease_IP e = lease_IP item"
      using free by blast
    from alloc_invD(8) [OF inv that(1) e(1)] that(2) e(2) show ?thesis by simp
  qed
  show ?thesis
  proof (rule alloc_invI)
    show "used ?a 0" "used ?a 1" "used ?a 255" using alloc_invD(1,2,3) [OF inv] by simp_all
    show "lease_key l = k \<and> k \<noteq> 0 \<and> lease_Revision l \<le> revision ?a
        \<and> (\<exists>o'. lease_IP l = net_ip o' \<and> 2 \<le> o' \<and> o' \<le> 254 \<and> used ?a o')"
      if l: "fmlookup (byKey ?a) k = Some l" for k l
    proof (cases "k = lease_key item")
      case True
      with l key ip rev show ?thesis by auto
    next
      case False
      with l look have "fmlookup (byKey a) k = Some l" by simp
      note d = alloc_invD(4-7) [OF inv this]
      from d(3) rev(1) have "lease_Revision l \<le> r" by (rule order_trans)
      with d(1,2,4) show ?thesis by auto
    qed
    show "k = k'" if kl: "fmlookup (byKey ?a) k = Some l" "fmlookup (byKey ?a) k' = Some l'"
      and eq: "lease_IP l = lease_IP l'" for k l k' l'
    proof (cases "k = lease_key item"; cases "k' = lease_key item")
      assume k: "k = lease_key item" "k' \<noteq> lease_key item"
      with kl have "item = l" "fmlookup (byKey a) k' = Some l'" by simp_all
      with clash [of k' l'] eq k show "k = k'" by simp
    next
      assume k: "k \<noteq> lease_key item" "k' = lease_key item"
      with kl have "item = l'" "fmlookup (byKey a) k = Some l" by simp_all
      with clash [of k l] eq k show "k = k'" by simp
    next
      assume "k \<noteq> lease_key item" "k' \<noteq> lease_key item"
      with kl have "fmlookup (byKey a) k = Some l" "fmlookup (byKey a) k' = Some l'" by simp_all
      from alloc_invD(8) [OF inv this eq] show "k = k'" .
    qed simp
    show "\<exists>k l. fmlookup (byKey ?a) k = Some l \<and> lease_IP l = net_ip o'"
      if u: "used ?a o'" and ne: "o' \<noteq> 0" "o' \<noteq> 1" "o' \<noteq> 255" for o'
    proof (cases "o' = oct")
      case True
      with ip show ?thesis unfolding look by auto
    next
      case False
      with u have "used a o'" by simp
      then obtain k l where kl: "fmlookup (byKey a) k = Some l" "lease_IP l = net_ip o'"
        using alloc_invD(9) [OF inv _ ne] by blast
      have "k \<noteq> lease_key item" using same kl False ip by auto
      with kl show ?thesis unfolding look by auto
    qed
  qed
qed

lemma alloc_inv_delete:
  assumes inv: "alloc_inv a" and item: "fmlookup (byKey a) k = Some item"
  shows "alloc_inv (a\<lparr>used := (used a)(fst (memberOctet (lease_IP item)) := False), byKey := fmdrop k (byKey a)\<rparr>)"
proof -
  from alloc_invD(7) [OF inv item] obtain oct where ip: "lease_IP item = net_ip oct" "2 \<le> oct" "oct \<le> 254" by blast
  then have oct: "oct \<noteq> 0" "oct \<noteq> 1" "oct \<noteq> 255" using byte_range [of oct] by simp_all
  have "alloc_inv (a\<lparr>used := (used a)(oct := False), byKey := fmdrop k (byKey a)\<rparr>)"
    (is "alloc_inv ?a")
  proof -
    have look: "fmlookup (byKey ?a) j = Some m \<longleftrightarrow> j \<noteq> k \<and> fmlookup (byKey a) j = Some m" for j m
      by simp
    show ?thesis
    proof (rule alloc_invI)
      show "used ?a 0" "used ?a 1" "used ?a 255" using alloc_invD(1,2,3) [OF inv] oct by simp_all
      show "lease_key l = k' \<and> k' \<noteq> 0 \<and> lease_Revision l \<le> revision ?a
          \<and> (\<exists>o'. lease_IP l = net_ip o' \<and> 2 \<le> o' \<and> o' \<le> 254 \<and> used ?a o')"
        if "fmlookup (byKey ?a) k' = Some l" for k' l
      proof -
        from that look have l: "k' \<noteq> k" "fmlookup (byKey a) k' = Some l" by auto
        from alloc_invD(7) [OF inv l(2)] obtain o' where
          o: "lease_IP l = net_ip o'" "2 \<le> o'" "o' \<le> 254" "used a o'" by blast
        with alloc_invD(8) [OF inv l(2) item] l(1) ip have "o' \<noteq> oct" by auto
        with o alloc_invD(4-6) [OF inv l(2)] show ?thesis by simp
      qed
      show "k1 = k2" if "fmlookup (byKey ?a) k1 = Some l1" "fmlookup (byKey ?a) k2 = Some l2"
        "lease_IP l1 = lease_IP l2" for k1 l1 k2 l2
        using that alloc_invD(8) [OF inv] unfolding look by blast
      show "\<exists>k' l. fmlookup (byKey ?a) k' = Some l \<and> lease_IP l = net_ip o'"
        if "used ?a o'" "o' \<noteq> 0" "o' \<noteq> 1" "o' \<noteq> 255" for o'
      proof -
        from that have o: "o' \<noteq> oct" "used a o'" by (auto split: if_splits)
        with that obtain k' l where kl: "fmlookup (byKey a) k' = Some l" "lease_IP l = net_ip o'"
          using alloc_invD(9) [OF inv] by blast
        with o(1) item ip have "k' \<noteq> k" by auto
        with kl show ?thesis unfolding look by blast
      qed
    qed
  qed
  with ip show ?thesis by simp
qed

section \<open>Every operation keeps the invariant\<close>

lemma new_item_inv:
  assumes "alloc_inv a" and "new_item item a = Inr a'"
  shows "alloc_inv a'"
proof -
  obtain oct where oct: "lease_IP item = net_ip oct" "2 \<le> oct" "oct \<le> 254"
    and c: "lease_key item \<noteq> 0" "\<not> used a oct" "fmlookup (byKey a) (lease_key item) = None"
    and a': "a' = a\<lparr>used := (used a)(oct := True), byKey := fmupd (lease_key item) item (byKey a),
      revision := (if lease_Revision item > revision a then lease_Revision item else revision a)\<rparr>"
    using assms(2) memberOctet_ok [of "lease_IP item"]
    by (auto simp: new_item_def Let_def split: prod.splits if_splits)
  show ?thesis unfolding a'
    by (rule alloc_inv_insert [OF assms(1) oct c(1)]) (use c in auto)
qed

lemma new_loop_inv: "alloc_inv a \<Longrightarrow> new_loop items a = Inr a' \<Longrightarrow> alloc_inv a'"
  by (induction items arbitrary: a) (auto simp: bind_result_Inr dest: new_item_inv)

lemma New_inv: "New initial = Inr a \<Longrightarrow> alloc_inv a"
  using new_loop_inv alloc_inv_empty by (simp add: New_def)

text \<open>The octet \<open>Assign\<close> takes is the least free one.\<close>

lemma find_upt_Some:
  "find P [m..<n] = Some i \<longleftrightarrow> m \<le> i \<and> i < n \<and> P i \<and> (\<forall>j. m \<le> j \<and> j < i \<longrightarrow> \<not> P j)"
proof -
  have "find P [m..<n] = Some i \<longleftrightarrow> (\<exists>q<n - m. P (m + q) \<and> i = m + q \<and> (\<forall>j<q. \<not> P (m + j)))"
    by (auto simp: find_Some_iff)
  also have "\<dots> \<longleftrightarrow> m \<le> i \<and> i < n \<and> P i \<and> (\<forall>j. m \<le> j \<and> j < i \<longrightarrow> \<not> P j)"
  proof
    assume "m \<le> i \<and> i < n \<and> P i \<and> (\<forall>j. m \<le> j \<and> j < i \<longrightarrow> \<not> P j)"
    then show "\<exists>q<n - m. P (m + q) \<and> i = m + q \<and> (\<forall>j<q. \<not> P (m + j))"
      by (intro exI [of _ "i - m"]) auto
  qed (auto, metis add_less_cancel_left le_Suc_ex)
  finally show ?thesis .
qed

lemma first_free_Some:
  assumes "freeOctet (used a) = Some n"
  shows "2 \<le> (of_nat n :: byte)" "(of_nat n :: byte) \<le> 254" "\<not> used a (of_nat n)"
    "\<And>o'. 2 \<le> o' \<Longrightarrow> o' < (of_nat n :: byte) \<Longrightarrow> used a o'"
proof -
  from assms have n: "2 \<le> n" "n < 255" "\<not> used a (of_nat n)"
    and least: "\<And>j. 2 \<le> j \<Longrightarrow> j < n \<Longrightarrow> used a (of_nat j)"
    unfolding freeOctet_def find_upt_Some by auto
  then have u: "unat (of_nat n :: byte) = n" by (simp add: unat_byte_of_nat)
  show "2 \<le> (of_nat n :: byte)" "(of_nat n :: byte) \<le> 254" "\<not> used a (of_nat n)"
    using n u by (simp_all add: word_le_nat_alt)
  show "used a o'" if "2 \<le> o'" "o' < (of_nat n :: byte)" for o'
    using least [of "unat o'"] that u by (simp add: word_le_nat_alt word_less_nat_alt)
qed

lemma first_free_None:
  assumes "freeOctet (used a) = None" and "2 \<le> o'" "o' \<le> 254"
  shows "used a o'"
proof -
  have "2 \<le> unat o'" "unat o' < 255" using assms(2,3) by (simp_all add: word_le_nat_alt)
  with assms(1) have "used a (of_nat (unat o'))"
    unfolding freeOctet_def find_None_iff set_upt atLeastLessThan_iff by blast
  then show ?thesis by simp
qed

lemma Assign_new_inv:
  assumes inv: "alloc_inv a" and ov: "revision a < revision a + 1" and "k \<noteq> 0" "fmlookup (byKey a) k = None"
    and free: "2 \<le> oct" "oct \<le> 254" "\<not> used a oct"
    and item: "lease_key item = k" "lease_IP item = net_ip oct" "lease_Revision item = revision a + 1"
  shows "alloc_inv (a\<lparr>revision := revision a + 1, used := (used a)(oct := True), byKey := fmupd k item (byKey a)\<rparr>)"
proof -
  have "alloc_inv (a\<lparr>used := (used a)(oct := True), byKey := fmupd (lease_key item) item (byKey a),
      revision := revision a + 1\<rparr>)"
    by (rule alloc_inv_insert [OF inv item(2) free(1,2)]) (use assms in auto)
  moreover have "a\<lparr>used := (used a)(oct := True), byKey := fmupd (lease_key item) item (byKey a),
      revision := revision a + 1\<rparr>
    = a\<lparr>revision := revision a + 1, used := (used a)(oct := True), byKey := fmupd k item (byKey a)\<rparr>"
    by (simp add: item(1))
  ultimately show ?thesis by simp
qed

lemma rename_inv:
  assumes inv: "alloc_inv a" and e: "fmlookup (byKey a) k = Some e"
  shows "alloc_inv (a\<lparr>byKey := fmupd k (e\<lparr>lease_Name := n\<rparr>) (byKey a)\<rparr>)"
proof -
  note d = alloc_invD [OF inv]
  from d(7) [OF e] obtain oct where ip: "lease_IP e = net_ip oct" "2 \<le> oct" "oct \<le> 254" "used a oct" by blast
  let ?e = "e\<lparr>lease_Name := n\<rparr>"
  have "alloc_inv (a\<lparr>used := (used a)(oct := True), byKey := fmupd (lease_key ?e) ?e (byKey a), revision := revision a\<rparr>)"
    by (rule alloc_inv_insert [OF inv]) (use ip e d(4,5,6) [OF e] in auto)
  moreover have "(used a)(oct := True) = used a" using ip(4) by (simp add: fun_upd_idem)
  ultimately show ?thesis using d(4) [OF e] by simp
qed

text \<open>
  \<open>revision a < revision a + 1\<close> says that the 64-bit counter has not reached its maximum.
\<close>

lemma Assign_inv:
  assumes inv: "alloc_inv a" and ov: "revision a < revision a + 1"
  shows "alloc_inv (snd (Assign k n a))"
proof (cases "k = 0")
  case True
  with inv show ?thesis by (simp add: Assign_def)
next
  case k: False
  show ?thesis
  proof (cases "fmlookup (byKey a) k")
    case (Some e)
    with inv k show ?thesis by (simp add: Assign_def Let_def rename_inv)
  next
    case None
    show ?thesis
    proof (cases "freeOctet (used a)")
      case f: None
      with inv k None show ?thesis by (simp add: Assign_def)
    next
      case (Some oct)
      with k None show ?thesis
        using Assign_new_inv [OF inv ov k None first_free_Some(1,2,3) [OF Some]]
        by (simp add: Assign_def Let_def)
    qed
  qed
qed

lemma Remove_inv: "alloc_inv a \<Longrightarrow> alloc_inv (snd (Remove k a))"
  by (auto simp: Remove_def alloc_inv_delete split: option.splits)

lemma RemoveIfRevision_inv: "alloc_inv a \<Longrightarrow> alloc_inv (snd (RemoveIfRevision k r a))"
  by (auto simp: RemoveIfRevision_def alloc_inv_delete split: option.splits)

lemma Restore_cases:
  assumes "Restore item a = (None, a')"
  obtains oct where "lease_IP item = net_ip oct" "2 \<le> oct" "oct \<le> 254" "lease_key item \<noteq> 0"
    "lease_Revision item \<noteq> 0"
    "\<And>e. fmlookup (byKey a) (lease_key item) = Some e \<Longrightarrow> lease_IP e = lease_IP item"
    "used a oct \<Longrightarrow> fmlookup (byKey a) (lease_key item) \<noteq> None"
    "a' = a\<lparr>used := (used a)(oct := True), byKey := fmupd (lease_key item) item (byKey a),
      revision := (if lease_Revision item > revision a then lease_Revision item else revision a)\<rparr>"
proof -
  have "snd (memberOctet (lease_IP item))"
    using assms by (auto simp: Restore_def Let_def split: prod.splits if_splits)
  then obtain oct where oct: "lease_IP item = net_ip oct" "2 \<le> oct" "oct \<le> 254"
    unfolding memberOctet_ok by blast
  have m: "memberOctet (lease_IP item) = (oct, True)" using oct by simp
  show ?thesis
  proof (cases "fmlookup (byKey a) (lease_key item)")
    case None
    with assms m show ?thesis
      by (intro that [OF oct]) (simp_all add: Restore_def Let_def split: if_splits)
  next
    case (Some e)
    with assms m show ?thesis
      by (intro that [OF oct]) (simp_all add: Restore_def Let_def split: if_splits)
  qed
qed

lemma Restore_error: "fst (Restore item a) \<noteq> None \<Longrightarrow> snd (Restore item a) = a"
  by (cases "memberOctet (lease_IP item)"; cases "fmlookup (byKey a) (lease_key item)")
    (auto simp: Restore_def Let_def)

lemma Restore_inv:
  assumes inv: "alloc_inv a"
  shows "alloc_inv (snd (Restore item a))"
proof (cases "fst (Restore item a)")
  case (Some e)
  with inv show ?thesis using Restore_error [of item a] by simp
next
  case None
  then have "Restore item a = (None, snd (Restore item a))" by (simp add: prod_eq_iff)
  then show ?thesis
  proof (rule Restore_cases)
    fix oct
    assume oct: "lease_IP item = net_ip oct" "2 \<le> oct" "oct \<le> 254" and k: "lease_key item \<noteq> 0"
      and same: "\<And>e. fmlookup (byKey a) (lease_key item) = Some e \<Longrightarrow> lease_IP e = lease_IP item"
      and u: "used a oct \<Longrightarrow> fmlookup (byKey a) (lease_key item) \<noteq> None"
      and a': "snd (Restore item a) = a\<lparr>used := (used a)(oct := True), byKey := fmupd (lease_key item) item (byKey a),
        revision := (if lease_Revision item > revision a then lease_Revision item else revision a)\<rparr>"
    show ?thesis unfolding a'
      by (rule alloc_inv_insert [OF inv oct k]) (use same u in auto)
  qed
qed

section \<open>What the operations do\<close>

lemma Assign_existing:
  assumes "fmlookup (byKey a) k = Some e" and "k \<noteq> 0"
  shows "fst (Assign k n a) = Inr (e\<lparr>lease_Name := n\<rparr>, False)"
    "fmlookup (byKey (snd (Assign k n a))) = (fmlookup (byKey a))(k \<mapsto> e\<lparr>lease_Name := n\<rparr>)"
    "used (snd (Assign k n a)) = used a" "revision (snd (Assign k n a)) = revision a"
  using assms by (auto simp: Assign_def Let_def fun_upd_idem)

lemma Assign_new:
  assumes "fmlookup (byKey a) k = None" and "k \<noteq> 0" and "freeOctet (used a) = Some oct"
  shows "Assign k n a =
    (let item = \<lparr>lease_key = k, lease_IP = net_ip (of_nat oct), lease_Name = n, lease_Enabled = True,
                 lease_Revision = revision a + 1\<rparr>
     in (Inr (item, True), a\<lparr>revision := revision a + 1, used := (used a)(of_nat oct := True),
                             byKey := fmupd k item (byKey a)\<rparr>))"
  using assms by (simp add: Assign_def Let_def)

lemma Assign_error: "fst (Assign k n a) = Inl e \<Longrightarrow> snd (Assign k n a) = a"
  by (auto simp: Assign_def Let_def split: if_splits option.splits)

text \<open>The cases of a successful \<open>Assign\<close>, as one elimination rule for its clients.\<close>

lemma Assign_cases:
  assumes "Assign k n a = (Inr (item, created), a')"
  obtains (existing) e where "fmlookup (byKey a) k = Some e" "k \<noteq> 0" "item = e\<lparr>lease_Name := n\<rparr>" "\<not> created"
      "a' = a\<lparr>byKey := fmupd k item (byKey a)\<rparr>"
  | (new) oct where "fmlookup (byKey a) k = None" "k \<noteq> 0" "freeOctet (used a) = Some oct" "created"
      "item = \<lparr>lease_key = k, lease_IP = net_ip (of_nat oct), lease_Name = n, lease_Enabled = True,
                 lease_Revision = revision a + 1\<rparr>"
      "a' = a\<lparr>revision := revision a + 1, used := (used a)(of_nat oct := True), byKey := fmupd k item (byKey a)\<rparr>"
proof (cases "fmlookup (byKey a) k")
  case None
  with assms new show ?thesis by (auto simp: Assign_def Let_def split: if_splits option.splits)
next
  case (Some e)
  show ?thesis
  proof (rule existing [OF Some])
    show "k \<noteq> 0" using assms by (auto simp: Assign_def)
    show "item = e\<lparr>lease_Name := n\<rparr>" "\<not> created"
      using assms Some by (auto simp: Assign_def Let_def split: if_splits)
    show "a' = a\<lparr>byKey := fmupd k item (byKey a)\<rparr>"
    proof (cases "lease_Name e = n")
      case True
      then have "item = e" "a' = a" using assms Some by (auto simp: Assign_def split: if_splits)
      moreover have "fmupd k e (byKey a) = byKey a"
        using Some by (intro fmap_ext) auto
      ultimately show ?thesis by simp
    next
      case False
      with assms Some show ?thesis by (auto simp: Assign_def Let_def split: if_splits)
    qed
  qed
qed

text \<open>Undoing an assignment: the lease that was there is restored, or the new one removed.\<close>

lemma fmdrop_fmupd_new: "fmlookup m k = None \<Longrightarrow> fmdrop k (fmupd k v m) = m"
  by (intro fmap_ext) auto

lemma Remove_Assign:
  assumes "alloc_inv a" and "fmlookup (byKey a) k = None" and "Assign k n a = (Inr (item, created), a')"
  shows "snd (Remove k a') = a\<lparr>revision := revision a + 1\<rparr>"
  using assms(3)
proof (cases rule: Assign_cases)
  case (existing e)
  with assms(2) show ?thesis by simp
next
  case (new oct)
  have "\<not> used a (of_nat oct)" "2 \<le> (of_nat oct :: byte)" "(of_nat oct :: byte) \<le> 254"
    using first_free_Some [OF new(3)] by blast+
  then have "(used a)(of_nat oct := False) = used a" by (simp add: fun_upd_idem)
  with new show ?thesis by (simp add: Remove_def fmdrop_fmupd_new)
qed

lemma Restore_over:
  assumes inv: "alloc_inv a" and e: "fmlookup (byKey a) k = Some e" and "lease_Revision e \<noteq> 0"
    and a': "a' = a\<lparr>byKey := fmupd k (e\<lparr>lease_Name := n\<rparr>) (byKey a)\<rparr>"
  shows "Restore e a' = (None, a)"
proof -
  note d = alloc_invD [OF inv]
  from d(7) [OF e] obtain oct where ip: "lease_IP e = net_ip oct" "2 \<le> oct" "oct \<le> 254" "used a oct" by blast
  have "fmupd k e (byKey a) = byKey a" using e by (intro fmap_ext) auto
  moreover have "fmupd k e (fmupd k (e\<lparr>lease_Name := n\<rparr>) (byKey a)) = fmupd k e (byKey a)"
    by (intro fmap_ext) auto
  moreover have "(used a)(oct := True) = used a" using ip(4) by (simp add: fun_upd_idem)
  ultimately show ?thesis
    using ip d(4,5,6) [OF e] assms(3) by (simp add: a' Restore_def Let_def not_less)
qed

lemma Restore_Remove:
  assumes inv: "alloc_inv a" and e: "fmlookup (byKey a) k = Some e" and "lease_Revision e \<noteq> 0"
  shows "Restore e (snd (Remove k a)) = (None, a)"
proof -
  note d = alloc_invD [OF inv]
  from d(7) [OF e] obtain oct where ip: "lease_IP e = net_ip oct" "2 \<le> oct" "oct \<le> 254" "used a oct" by blast
  have "fmupd k e (fmdrop k (byKey a)) = byKey a" using e by (intro fmap_ext) auto
  moreover have "(used a)(oct := True) = used a" using ip(4) by (simp add: fun_upd_idem)
  ultimately show ?thesis
    using ip e d(4,5,6) [OF e] assms(3) by (simp add: Remove_def Restore_def Let_def not_less)
qed

section \<open>The pool holds 253 members\<close>

lemma card_member_octets: "card {o' :: byte. 2 \<le> o' \<and> o' \<le> 254} = 253"
proof -
  have "{o' :: byte. 2 \<le> o' \<and> o' \<le> 254} = of_nat ` {2..254}"
  proof (rule set_eqI, rule iffI)
    fix x :: byte
    assume "x \<in> {o'. 2 \<le> o' \<and> o' \<le> 254}"
    then have "unat x \<in> {2..254}" by (simp add: word_le_nat_alt)
    then show "x \<in> of_nat ` {2..254}" by (intro image_eqI [of _ _ "unat x"]) simp_all
  next
    fix x :: byte
    assume "x \<in> of_nat ` {2..254}"
    then obtain n where "x = of_nat n" "2 \<le> n" "n \<le> 254" by auto
    then show "x \<in> {o'. 2 \<le> o' \<and> o' \<le> 254}" by (simp add: word_le_nat_alt unat_byte_of_nat)
  qed
  moreover have "inj_on (of_nat :: nat \<Rightarrow> byte) {2..254}"
  proof (rule inj_onI)
    fix x y :: nat
    assume "x \<in> {2..254}" "y \<in> {2..254}" and eq: "(of_nat x :: byte) = of_nat y"
    then have b: "x < 256" "y < 256" by auto
    have "x = unat (of_nat x :: byte)" by (rule unat_byte_of_nat [OF b(1), symmetric])
    also have "\<dots> = unat (of_nat y :: byte)" by (simp only: eq)
    also have "\<dots> = y" by (rule unat_byte_of_nat [OF b(2)])
    finally show "x = y" .
  qed
  ultimately show ?thesis by (simp add: card_image)
qed

lemma used_octets:
  assumes inv: "alloc_inv a"
  shows "card {o'. 2 \<le> o' \<and> o' \<le> 254 \<and> used a o'} = fcard (fmdom (byKey a))"
proof -
  let ?oct = "\<lambda>k. fst (memberOctet (lease_IP (the (fmlookup (byKey a) k))))"
  note d = alloc_invD [OF inv]
  have oct: "lease_IP (the (fmlookup (byKey a) k)) = net_ip (?oct k) \<and> 2 \<le> ?oct k \<and> ?oct k \<le> 254 \<and> used a (?oct k)"
    if "k \<in> fmdom' (byKey a)" for k
  proof -
    from that obtain l where l: "fmlookup (byKey a) k = Some l" by (auto simp: fmlookup_dom'_iff)
    from d(7) [OF this] l show ?thesis by auto
  qed
  have "inj_on ?oct (fmdom' (byKey a))"
  proof (rule inj_onI)
    fix k k'
    assume k: "k \<in> fmdom' (byKey a)" "k' \<in> fmdom' (byKey a)" and "?oct k = ?oct k'"
    with oct [OF k(1)] oct [OF k(2)]
    have "lease_IP (the (fmlookup (byKey a) k)) = lease_IP (the (fmlookup (byKey a) k'))" by simp
    moreover from k obtain l l' where "fmlookup (byKey a) k = Some l" "fmlookup (byKey a) k' = Some l'"
      by (auto simp: fmlookup_dom'_iff)
    ultimately show "k = k'" using d(8) by simp
  qed
  moreover have "?oct ` fmdom' (byKey a) = {o'. 2 \<le> o' \<and> o' \<le> 254 \<and> used a o'}"
  proof (rule set_eqI, rule iffI)
    fix x
    assume x: "x \<in> {o'. 2 \<le> o' \<and> o' \<le> 254 \<and> used a o'}"
    then have "x \<noteq> 0" "x \<noteq> 1" "x \<noteq> 255" using byte_range [of x] by auto
    with x obtain k l where "fmlookup (byKey a) k = Some l" "lease_IP l = net_ip x"
      using d(9) by blast
    then show "x \<in> ?oct ` fmdom' (byKey a)" by (intro image_eqI [of _ _ k]) (auto simp: fmlookup_dom'_iff)
  qed (use oct in auto)
  ultimately have "card (fmdom' (byKey a)) = card {o'. 2 \<le> o' \<and> o' \<le> 254 \<and> used a o'}"
    using card_image [of ?oct "fmdom' (byKey a)"] by simp
  then show ?thesis by (simp add: fcard.rep_eq fmdom'_alt_def)
qed

lemma full_iff:
  assumes inv: "alloc_inv a"
  shows "freeOctet (used a) = None \<longleftrightarrow> fcard (fmdom (byKey a)) = 253"
proof -
  let ?U = "{o'. 2 \<le> o' \<and> o' \<le> 254 \<and> used a o'}" and ?M = "{o' :: byte. 2 \<le> o' \<and> o' \<le> 254}"
  have sub: "?U \<subseteq> ?M" and fin: "finite ?M" by auto
  have "freeOctet (used a) = None \<longleftrightarrow> ?U = ?M"
  proof
    assume "freeOctet (used a) = None"
    with first_free_None show "?U = ?M" by blast
  next
    assume eq: "?U = ?M"
    show "freeOctet (used a) = None"
    proof (cases "freeOctet (used a)")
      case (Some n)
      from first_free_Some(1-3) [OF this] eq show ?thesis by blast
    qed
  qed
  also have "\<dots> \<longleftrightarrow> card ?U = card ?M" using card_subset_eq [OF fin sub] by auto
  finally show ?thesis using used_octets [OF inv] card_member_octets by simp
qed

section \<open>Snapshots and restarts\<close>

lemma set_fm_values: "set (fm_values m) = {v. \<exists>k. fmlookup m k = Some v}"
proof -
  have "set (fm_values m) = (\<lambda>k. the (fmlookup m k)) ` fset (fmdom m)"
    by (simp add: fm_values_def sorted_list_of_fset.rep_eq)
  also have "\<dots> = {v. \<exists>k. fmlookup m k = Some v}"
    by (force simp: fmlookup_dom_iff)
  finally show ?thesis .
qed

lemma set_Snapshot: "set (Snapshot a) = {l. \<exists>k. fmlookup (byKey a) k = Some l}"
  by (simp add: Snapshot_def set_fm_values)

lemma sorted_Snapshot: "sorted (map lease_IP (Snapshot a))"
  by (simp add: Snapshot_def)

lemma map_key_fm_values:
  assumes "\<And>k v. fmlookup m k = Some v \<Longrightarrow> f v = k"
  shows "map f (fm_values m) = sorted_list_of_fset (fmdom m)"
proof -
  have "f (the (fmlookup m k)) = k" if "k \<in> set (sorted_list_of_fset (fmdom m))" for k
  proof -
    from that obtain v where "fmlookup m k = Some v"
      by (auto simp: sorted_list_of_fset.rep_eq fmlookup_dom_iff)
    with assms show ?thesis by simp
  qed
  then show ?thesis unfolding fm_values_def map_map comp_def by (intro map_idI) simp
qed

lemma distinct_fm_values:
  assumes "\<And>k v. fmlookup m k = Some v \<Longrightarrow> f v = k"
  shows "distinct (map f (fm_values m))"
  by (simp add: map_key_fm_values [OF assms] sorted_list_of_fset.rep_eq)

lemma distinct_Snapshot_keys: "alloc_inv a \<Longrightarrow> distinct (map lease_key (Snapshot a))"
proof -
  assume inv: "alloc_inv a"
  have "distinct (map lease_key (fm_values (byKey a)))"
    by (rule distinct_fm_values) (rule alloc_invD(4) [OF inv])
  then have "distinct (fm_values (byKey a))" "inj_on lease_key (set (fm_values (byKey a)))"
    by (simp_all add: distinct_map)
  then show ?thesis by (simp add: Snapshot_def distinct_map)
qed

lemma distinct_Snapshot_IPs: "alloc_inv a \<Longrightarrow> distinct (map lease_IP (Snapshot a))"
proof -
  assume inv: "alloc_inv a"
  have "inj_on lease_IP (set (Snapshot a))"
  proof (rule inj_onI)
    fix x y
    assume "x \<in> set (Snapshot a)" "y \<in> set (Snapshot a)" and eq: "lease_IP x = lease_IP y"
    then obtain k k' where "fmlookup (byKey a) k = Some x" "fmlookup (byKey a) k' = Some y"
      by (auto simp: set_Snapshot)
    with alloc_invD(8) [OF inv this eq] show "x = y" by simp
  qed
  moreover have "distinct (Snapshot a)" using distinct_Snapshot_keys [OF inv] by (simp add: distinct_map)
  ultimately show ?thesis by (simp add: distinct_map)
qed

text \<open>
  Whatever the order in which the map is iterated, the sorted list is the same: the addresses of the
  leases are distinct.
\<close>

lemma Snapshot_order:
  assumes "alloc_inv a" and "mset items = mset (fm_values (byKey a))"
  shows "sort_key lease_IP items = Snapshot a"
proof (rule sort_key_inj_key_eq)
  show "mset items = mset (Snapshot a)" using assms(2) by (simp add: Snapshot_def)
  then have "set items = set (Snapshot a)" by (metis set_mset_mset)
  then show "inj_on lease_IP (set items)"
    using distinct_Snapshot_IPs [OF assms(1)] by (simp add: distinct_map)
  show "sorted (map lease_IP (Snapshot a))" by (rule sorted_Snapshot)
qed

text \<open>What \<open>New\<close> builds from leases with distinct keys and distinct member addresses.\<close>

lemma new_loop_builds:
  assumes "\<And>i. i \<in> set items \<Longrightarrow> \<exists>o'. lease_IP i = net_ip o' \<and> 2 \<le> o' \<and> o' \<le> 254 \<and> \<not> used a o'"
    and "\<And>i. i \<in> set items \<Longrightarrow> lease_key i \<noteq> 0 \<and> fmlookup (byKey a) (lease_key i) = None \<and> lease_Revision i \<le> r"
    and "distinct (map lease_key items)" and "distinct (map lease_IP items)" and "revision a \<le> r"
  shows "\<exists>a'. new_loop items a = Inr a'
    \<and> (\<forall>k l. fmlookup (byKey a') k = Some l \<longleftrightarrow> (l \<in> set items \<and> lease_key l = k) \<or> fmlookup (byKey a) k = Some l)
    \<and> (\<forall>o'. used a' o' \<longleftrightarrow> used a o' \<or> (\<exists>i\<in>set items. lease_IP i = net_ip o'))
    \<and> revision a' \<le> r"
  using assms
proof (induction items arbitrary: a)
  case Nil
  then show ?case by simp
next
  case (Cons i items)
  from Cons.prems(1) [of i] obtain oct where
    oct: "lease_IP i = net_ip oct" "2 \<le> oct" "oct \<le> 254" "\<not> used a oct" by auto
  from Cons.prems(2) [of i] have key: "lease_key i \<noteq> 0" "fmlookup (byKey a) (lease_key i) = None"
    "lease_Revision i \<le> r" by simp_all
  let ?a = "a\<lparr>used := (used a)(oct := True), byKey := fmupd (lease_key i) i (byKey a),
      revision := (if lease_Revision i > revision a then lease_Revision i else revision a)\<rparr>"
  have step: "new_item i a = Inr ?a" using oct key by (simp add: new_item_def)
  have p1: "\<exists>o'. lease_IP j = net_ip o' \<and> 2 \<le> o' \<and> o' \<le> 254 \<and> \<not> used ?a o'" if "j \<in> set items" for j
  proof -
    from that Cons.prems(1) [of j] obtain o' where
      o': "lease_IP j = net_ip o'" "2 \<le> o'" "o' \<le> 254" "\<not> used a o'" by auto
    moreover have "lease_IP j \<in> lease_IP ` set items" using that by (rule imageI)
    then have "o' \<noteq> oct" using Cons.prems(4) oct(1) o'(1) by auto
    ultimately show ?thesis by simp
  qed
  have p2: "lease_key j \<noteq> 0 \<and> fmlookup (byKey ?a) (lease_key j) = None \<and> lease_Revision j \<le> r"
    if "j \<in> set items" for j
    using that Cons.prems(2) [of j] Cons.prems(3) by auto
  have p3: "distinct (map lease_key items)" "distinct (map lease_IP items)" "revision ?a \<le> r"
    using Cons.prems(3-5) key(3) by simp_all
  from Cons.IH [OF p1 p2 p3] obtain a' where a': "new_loop items ?a = Inr a'"
    "\<And>k l. fmlookup (byKey a') k = Some l \<longleftrightarrow> (l \<in> set items \<and> lease_key l = k) \<or> fmlookup (byKey ?a) k = Some l"
    "\<And>o'. used a' o' \<longleftrightarrow> used ?a o' \<or> (\<exists>i\<in>set items. lease_IP i = net_ip o')" "revision a' \<le> r"
    by blast
  have "new_loop (i # items) a = Inr a'" using step a'(1) by simp
  moreover have "fmlookup (byKey a') k = Some l \<longleftrightarrow>
      (l \<in> set (i # items) \<and> lease_key l = k) \<or> fmlookup (byKey a) k = Some l" for k l
    using a'(2) [of k l] key(2) by auto
  moreover have "used a' o' \<longleftrightarrow> used a o' \<or> (\<exists>i\<in>set (i # items). lease_IP i = net_ip o')" for o'
    using a'(3) [of o'] oct(1) by auto
  ultimately show ?case using a'(4) by blast
qed

text \<open>
  A restart: \<open>New\<close> on the saved leases gives back the same leases at the same addresses. Only the
  revision counter may be lower, since it restarts from the largest saved revision.
\<close>

lemma New_Snapshot:
  assumes inv: "alloc_inv a"
  shows "\<exists>a'. New (Snapshot a) = Inr a' \<and> byKey a' = byKey a \<and> used a' = used a \<and> revision a' \<le> revision a"
proof -
  note d = alloc_invD [OF inv]
  have p: "(\<exists>o'. lease_IP i = net_ip o' \<and> 2 \<le> o' \<and> o' \<le> 254 \<and> \<not> used allocator_empty o')
      \<and> lease_key i \<noteq> 0 \<and> fmlookup (byKey allocator_empty) (lease_key i) = None \<and> lease_Revision i \<le> revision a"
    if i: "i \<in> set (Snapshot a)" for i
  proof -
    from i obtain k where k: "fmlookup (byKey a) k = Some i" by (auto simp: set_Snapshot)
    from d(7) [OF k] obtain oct where "lease_IP i = net_ip oct" "2 \<le> oct" "oct \<le> 254" by blast
    moreover from this have "\<not> used allocator_empty oct"
      using byte_range [of oct] by (simp add: allocator_empty_def)
    ultimately show ?thesis using d(4,5,6) [OF k] by (auto simp: allocator_empty_def)
  qed
  from new_loop_builds [of "Snapshot a" allocator_empty "revision a"] p
    distinct_Snapshot_keys [OF inv] distinct_Snapshot_IPs [OF inv]
  obtain a' where a': "New (Snapshot a) = Inr a'"
    "\<And>k l. fmlookup (byKey a') k = Some l \<longleftrightarrow> l \<in> set (Snapshot a) \<and> lease_key l = k"
    "\<And>o'. used a' o' \<longleftrightarrow> o' = 0 \<or> o' = 1 \<or> o' = 255 \<or> (\<exists>i\<in>set (Snapshot a). lease_IP i = net_ip o')"
    "revision a' \<le> revision a"
    by (auto simp: New_def allocator_empty_def)
  have "byKey a' = byKey a"
  proof (rule fmap_ext)
    fix k
    have "fmlookup (byKey a') k = Some l \<longleftrightarrow> fmlookup (byKey a) k = Some l" for l
      using a'(2) d(4) by (auto simp: set_Snapshot)
    then show "fmlookup (byKey a') k = fmlookup (byKey a) k"
      by (metis not_Some_eq)
  qed
  moreover have "used a' = used a"
  proof
    fix o'
    show "used a' o' = used a o'"
      unfolding a'(3) set_Snapshot using d(1,2,3) d(9) [of o'] alloc_inv_used [OF inv] by (auto; blast)
  qed
  ultimately show ?thesis using a'(1,4) by blast
qed

section \<open>The specification of \<open>Assign\<close>\<close>

text \<open>The member addresses no lease has, and an assignment in terms of the leases only.\<close>

definition free_octets :: "(arr32 \<rightharpoonup> lease) \<Rightarrow> byte set" where
  "free_octets m = {o'. 2 \<le> o' \<and> o' \<le> 254 \<and> (\<forall>k l. m k = Some l \<longrightarrow> lease_IP l \<noteq> net_ip o')}"

definition assign_spec :: "arr32 \<Rightarrow> string \<Rightarrow> u64 \<Rightarrow> (arr32 \<rightharpoonup> lease) \<Rightarrow> (lease \<times> bool) result \<times> (arr32 \<rightharpoonup> lease)" where
  "assign_spec k n rev' m =
     (if k = 0 then (Inl (ErrTag LeaseErrInvalid), m)
      else
        (case m k of
           Some l \<Rightarrow> (Inr (l\<lparr>lease_Name := n\<rparr>, False), m(k \<mapsto> l\<lparr>lease_Name := n\<rparr>))
         | None \<Rightarrow>
             if free_octets m = {} then (Inl (ErrTag LeaseErrFull), m)
             else
               (let item = \<lparr>lease_key = k, lease_IP = net_ip (Min (free_octets m)), lease_Name = n,
                            lease_Enabled = True, lease_Revision = rev' + 1\<rparr>
                in (Inr (item, True), m(k \<mapsto> item)))))"

lemma used_free_octets:
  assumes "alloc_inv a" "2 \<le> o'" "o' \<le> 254"
  shows "used a o' \<longleftrightarrow> o' \<notin> free_octets (fmlookup (byKey a))"
  using assms(2,3) alloc_invD(9) [OF assms(1), of o'] alloc_inv_used [OF assms(1)] byte_range [of o']
  by (auto simp: free_octets_def)

lemma freeOctet_Min:
  assumes inv: "alloc_inv a"
  shows "freeOctet (used a) = None \<longleftrightarrow> free_octets (fmlookup (byKey a)) = {}"
    and "freeOctet (used a) = Some n \<Longrightarrow> of_nat n = Min (free_octets (fmlookup (byKey a)))"
proof -
  let ?F = "free_octets (fmlookup (byKey a))"
  have F: "o' \<in> ?F \<Longrightarrow> 2 \<le> o' \<and> o' \<le> 254" for o' by (simp add: free_octets_def)
  note U = used_free_octets [OF inv]
  have some: "of_nat n \<in> ?F" "o' \<in> ?F \<Longrightarrow> of_nat n \<le> o'" if "freeOctet (used a) = Some n" for n o'
  proof -
    note f = first_free_Some [OF that]
    show "of_nat n \<in> ?F" using U [OF f(1,2)] f(3) by simp
    assume o: "o' \<in> ?F"
    have "\<not> o' < of_nat n" using f(4) [of o'] U [of o'] F [OF o] o by blast
    then show "of_nat n \<le> o'" by simp
  qed
  show "freeOctet (used a) = None \<longleftrightarrow> ?F = {}"
  proof (cases "freeOctet (used a)")
    case None
    then have "o' \<notin> ?F" for o' using first_free_None [OF None, of o'] U [of o'] F [of o'] by blast
    with None show ?thesis by blast
  qed (use some(1) in auto)
  show "of_nat n = Min ?F" if "freeOctet (used a) = Some n"
    using some [OF that] by (intro Min_eqI [symmetric]) (auto intro: finite)
qed

lemma Assign_refines:
  assumes "alloc_inv a"
  shows "(fst (Assign k n a), fmlookup (byKey (snd (Assign k n a)))) = assign_spec k n (revision a) (fmlookup (byKey a))"
proof (cases "k = 0 \<or> fmlookup (byKey a) k \<noteq> None")
  case True
  then show ?thesis
    by (auto simp: assign_spec_def Assign_def Let_def fun_upd_idem split: option.split)
next
  case False
  then show ?thesis
    using freeOctet_Min [OF assms]
    by (cases "freeOctet (used a)") (auto simp: assign_spec_def Assign_def Let_def)
qed

lemma free_octets_full: "alloc_inv a \<Longrightarrow> free_octets (fmlookup (byKey a)) = {} \<longleftrightarrow> fcard (fmdom (byKey a)) = 253"
  using freeOctet_Min(1) full_iff by blast

section \<open>Histories\<close>

text \<open>A history of operations; the counter does not wrap while the revisions given to \<open>Restore\<close> are below \<open>2 ^ 63\<close>.\<close>

datatype alloc_op = OpAssign arr32 string | OpRemove arr32 | OpRestore lease | OpRemoveIf arr32 u64

fun run_op :: "alloc_op \<Rightarrow> allocator \<Rightarrow> allocator" where
  "run_op (OpAssign k n) a = snd (Assign k n a)"
| "run_op (OpRemove k) a = snd (Remove k a)"
| "run_op (OpRestore l) a = snd (Restore l a)"
| "run_op (OpRemoveIf k r) a = snd (RemoveIfRevision k r a)"

fun op_revision :: "alloc_op \<Rightarrow> u64" where
  "op_revision (OpRestore l) = lease_Revision l"
| "op_revision _ = 0"

lemma run_op_inv:
  assumes "alloc_inv a" "revision a < revision a + 1"
  shows "alloc_inv (run_op op a)"
  using assms by (cases op) (auto intro: Assign_inv Remove_inv Restore_inv RemoveIfRevision_inv)

lemma Assign_revision: "revision (snd (Assign k n a)) = revision a \<or> revision (snd (Assign k n a)) = revision a + 1"
  by (simp add: Assign_def Let_def split: option.split)

lemma Remove_revision: "revision (snd (Remove k a)) = revision a" "revision (snd (RemoveIfRevision k r a)) = revision a"
  by (simp_all add: Remove_def RemoveIfRevision_def split: option.split)

lemma Restore_revision: "revision (snd (Restore l a)) = revision a \<or> revision (snd (Restore l a)) = lease_Revision l"
  unfolding Restore_def Let_def by (simp split: prod.split)

lemma run_op_revision_le:
  "revision (run_op op a) = revision a \<or> revision (run_op op a) = revision a + 1
     \<or> revision (run_op op a) = op_revision op"
proof (cases op)
  case (OpAssign k n)
  then show ?thesis using Assign_revision [of k n a] by auto
next
  case (OpRestore l)
  then show ?thesis using Restore_revision [of l a] by auto
qed (simp_all add: Remove_revision)

lemma run_op_revision:
  assumes "unat (revision a) < 2 ^ 63 + n" "unat (op_revision op) < 2 ^ 63"
  shows "unat (revision (run_op op a)) < 2 ^ 63 + Suc n"
proof -
  have "unat (revision a + 1) \<le> unat (revision a) + 1"
    using unat_plus_if' [of "revision a" 1] by (simp split: if_splits)
  then show ?thesis using run_op_revision_le [of op a] assms by auto
qed

lemma run_ops_inv:
  assumes "alloc_inv a" "unat (revision a) < 2 ^ 63 + n" "n + length ops \<le> 2 ^ 63 - 1"
    and "\<forall>op\<in>set ops. unat (op_revision op) < 2 ^ 63"
  shows "alloc_inv (fold run_op ops a)"
  using assms
proof (induction ops arbitrary: a n)
  case (Cons op ops)
  have "unat (revision a) + 1 < 2 ^ 64" using Cons.prems(2,3) by simp
  then have "revision a < revision a + 1"
    by (simp add: word_less_nat_alt unat_plus_if')
  from run_op_inv [OF Cons.prems(1) this] have "alloc_inv (run_op op a)" .
  moreover have "unat (revision (run_op op a)) < 2 ^ 63 + Suc n"
    by (rule run_op_revision [OF Cons.prems(2)]) (use Cons.prems(4) in simp)
  ultimately show ?case using Cons.IH [of "run_op op a" "Suc n"] Cons.prems(3,4) by simp
qed simp

section \<open>The interface the room relies on\<close>

text \<open>
  A member store maps keys to leases. The room uses it transactionally: it looks a key up, assigns,
  and when a later step fails puts the store back with \<open>restore\<close> (if there was a lease) or
  \<open>remove\<close>; or it removes a member and restores it.
\<close>

locale member_store =
  fixes look :: "'s \<Rightarrow> arr32 \<Rightarrow> lease option"
    and assign :: "arr32 \<Rightarrow> string \<Rightarrow> 's \<Rightarrow> (lease \<times> bool) result \<times> 's"
    and remove :: "arr32 \<Rightarrow> 's \<Rightarrow> lease option \<times> 's"
    and restore :: "lease \<Rightarrow> 's \<Rightarrow> goerror option \<times> 's"
    and inv :: "'s \<Rightarrow> bool"
  assumes assign_look: "inv s \<Longrightarrow> assign k n s = (Inr (l, c), s') \<Longrightarrow>
      look s' = (look s)(k \<mapsto> l) \<and> (c \<longleftrightarrow> look s k = None)"
    and assign_undo_new: "inv s \<Longrightarrow> look s k = None \<Longrightarrow> assign k n s = (Inr (l, c), s') \<Longrightarrow>
      look (snd (remove k s')) = look s"
    and assign_undo_old: "inv s \<Longrightarrow> look s k = Some e \<Longrightarrow> lease_Revision e \<noteq> 0 \<Longrightarrow>
      assign k n s = (Inr (l, c), s') \<Longrightarrow> restore e s' = (None, s)"
    and remove_look: "inv s \<Longrightarrow> look (snd (remove k s)) = (look s)(k := None)"
    and remove_undo: "inv s \<Longrightarrow> look s k = Some e \<Longrightarrow> lease_Revision e \<noteq> 0 \<Longrightarrow>
      restore e (snd (remove k s)) = (None, s)"
    and assign_fails: "fst (assign k n s) = Inl err \<Longrightarrow> snd (assign k n s) = s"
begin

text \<open>The undo step as the room makes it, from what the lookup before the assignment gave.\<close>

definition undo :: "arr32 \<Rightarrow> lease option \<Rightarrow> 's \<Rightarrow> 's" where
  "undo k before s = (case before of None \<Rightarrow> snd (remove k s) | Some e \<Rightarrow> snd (restore e s))"

lemma undo_assign:
  assumes "inv s" and "assign k n s = (Inr (l, c), s')" and "\<And>e. look s k = Some e \<Longrightarrow> lease_Revision e \<noteq> 0"
  shows "look (undo k (look s k) s') = look s"
  using assms assign_undo_new assign_undo_old by (cases "look s k") (auto simp: undo_def)

lemma assign_other: "inv s \<Longrightarrow> assign k n s = (Inr (l, c), s') \<Longrightarrow> j \<noteq> k \<Longrightarrow> look s' j = look s j"
  using assign_look by fastforce

end

definition lookup_lease :: "allocator \<Rightarrow> arr32 \<Rightarrow> lease option" where
  "lookup_lease a k = fmlookup (byKey a) k"

interpretation leases: member_store lookup_lease Assign Remove Restore alloc_inv
proof unfold_locales
  fix s k n l c s'
  assume "alloc_inv s" "Assign k n s = (Inr (l, c), s')"
  then show "lookup_lease s' = (lookup_lease s)(k \<mapsto> l) \<and> (c \<longleftrightarrow> lookup_lease s k = None)"
    by (auto simp: lookup_lease_def fun_eq_iff elim: Assign_cases)
next
  fix s k n l c s'
  assume "alloc_inv s" "lookup_lease s k = None" "Assign k n s = (Inr (l, c), s')"
  then show "lookup_lease (snd (Remove k s')) = lookup_lease s"
    using Remove_Assign by (simp add: lookup_lease_def fun_eq_iff)
next
  fix s k e n l c s'
  assume a: "alloc_inv s" "lookup_lease s k = Some e" "lease_Revision e \<noteq> 0" "Assign k n s = (Inr (l, c), s')"
  from a(4) a(2) have "s' = s\<lparr>byKey := fmupd k (e\<lparr>lease_Name := n\<rparr>) (byKey s)\<rparr>"
    by (cases rule: Assign_cases) (auto simp: lookup_lease_def)
  with a show "Restore e s' = (None, s)" by (simp add: lookup_lease_def Restore_over)
next
  fix s k
  assume "alloc_inv s"
  then show "lookup_lease (snd (Remove k s)) = (lookup_lease s)(k := None)"
    by (auto simp: lookup_lease_def Remove_def fun_eq_iff split: option.splits)
next
  fix s k e
  assume "alloc_inv s" "lookup_lease s k = Some e" "lease_Revision e \<noteq> 0"
  then show "Restore e (snd (Remove k s)) = (None, s)"
    by (simp add: lookup_lease_def Restore_Remove)
next
  fix k n s e
  assume "fst (Assign k n s) = Inl e"
  then show "snd (Assign k n s) = s" by (rule Assign_error)
qed

end
