(* ===== verification/Room_State.thy ===== *)
theory Room_State
  imports Disk Lease Go_Encoding
begin

text \<open>
  \<open>internal/state/state.go\<close>: the persisted room, its validation, its JSON form, and \<open>Load\<close> and
  \<open>Save\<close> with the backup file.
\<close>

section \<open>Model\<close>

record member_rec =
  ms_PublicKey :: string
  ms_IP :: string
  ms_Name :: string
  ms_Enabled :: bool
  ms_LeaseRevision :: u64

record room_rec =
  rs_SchemaVersion :: int
  rs_RoomID :: string
  rs_HostUID :: string
  rs_PairPort :: u16
  rs_WireGuardPort :: u16
  rs_RelayPort :: u16
  rs_JoinEnabled :: bool
  rs_Members :: "member_rec list"
  rs_BlockedMembers :: "string list"
  rs_BlockedUIDs :: "string list"

definition SchemaVersion :: int where "SchemaVersion = 1"

definition errState :: goerror where
  "errState = ErrTag StateErrInvalid"

definition validMemberIP :: "addr \<Rightarrow> bool" where
  "validMemberIP ip =
     (if \<not> Is4 ip then False
      else let b = As4 ip in b ! 0 = 10 \<and> b ! 1 = 0 \<and> b ! 2 = 23 \<and> b ! 3 \<ge> 2 \<and> b ! 3 \<le> 254)"

text \<open>The loops of \<open>validate\<close>, with the sets of what they have seen.\<close>

fun valid_members :: "member_rec list \<Rightarrow> string list \<Rightarrow> addr list \<Rightarrow> string list option" where
  "valid_members [] keys ips = Some keys"
| "valid_members (m # ms) keys ips =
     (case (std_decode (ms_PublicKey m), ParseAddr (ms_IP m)) of
        (Some key, Some ip) \<Rightarrow>
          if length key \<noteq> 32 \<or> \<not> validMemberIP ip \<or> ms_LeaseRevision m = 0 \<or> ms_PublicKey m \<in> set keys \<or> ip \<in> set ips
          then None
          else valid_members ms (ms_PublicKey m # keys) (ip # ips)
      | _ \<Rightarrow> None)"

fun valid_blocked :: "string list \<Rightarrow> string list \<Rightarrow> bool" where
  "valid_blocked [] keys = True"
| "valid_blocked (encoded # es) keys =
     (case std_decode encoded of
        None \<Rightarrow> False
      | Some key \<Rightarrow> if length key \<noteq> 32 \<or> encoded \<in> set keys then False else valid_blocked es (encoded # keys))"

text \<open>A host UID in canonical form: 16 lower-case hexadecimal digits.\<close>

definition canonical_uid :: "string \<Rightarrow> bool" where
  "canonical_uid uid =
     (case hex_decode uid of None \<Rightarrow> False | Some b \<Rightarrow> length b = 8 \<and> hex_encode b = uid)"

fun valid_uids :: "string \<Rightarrow> string list \<Rightarrow> string list \<Rightarrow> bool" where
  "valid_uids host [] seen = True"
| "valid_uids host (uid # us) seen =
     (if \<not> canonical_uid uid \<or> uid = host \<or> uid \<in> set seen then False else valid_uids host us (uid # seen))"

definition validate :: "room_rec \<Rightarrow> goerror option" where
  "validate value =
     (if rs_SchemaVersion value \<noteq> SchemaVersion
         \<or> (case hex_decode (rs_RoomID value) of None \<Rightarrow> True | Some roomID \<Rightarrow> length roomID \<noteq> 16)
         \<or> rs_PairPort value = 0 \<or> rs_WireGuardPort value = 0 \<or> rs_RelayPort value = 0
      then Some errState
      else if \<not> canonical_uid (rs_HostUID value) then Some errState
      else
        (case valid_members (rs_Members value) [] [] of
           None \<Rightarrow> Some errState
         | Some keys \<Rightarrow>
             if \<not> valid_blocked (rs_BlockedMembers value) keys then Some errState
             else if \<not> valid_uids (rs_HostUID value) (rs_BlockedUIDs value) [] then Some errState
             else None))"

section \<open>The JSON form\<close>

definition enc_int :: "int \<Rightarrow> json" where
  "enc_int i = JNum (if i < 0 then CHR ''-'' # dec_string (nat (- i)) else dec_string (nat i))"

definition dec_int :: "json \<Rightarrow> int option" where
  "dec_int v =
     (case v of
        JNum lit \<Rightarrow>
          (case lit of
             c # t \<Rightarrow>
               if c = CHR ''-'' then map_option (\<lambda>n. - int n) (dec_nat (2 ^ 63 + 1) (JNum t))
               else map_option int (dec_nat (2 ^ 63) (JNum lit))
           | [] \<Rightarrow> None)
      | _ \<Rightarrow> None)"

definition enc_member :: "member_rec \<Rightarrow> json" where
  "enc_member m = JObj [(''publicKey'', JStr (ms_PublicKey m)), (''ip'', JStr (ms_IP m)), (''name'', JStr (ms_Name m)),
     (''enabled'', JBool (ms_Enabled m)), (''leaseRevision'', enc_word (ms_LeaseRevision m))]"

text \<open>\<open>omitempty\<close> leaves out an empty list.\<close>

definition omit_empty :: "string \<Rightarrow> string list \<Rightarrow> (string \<times> json) list" where
  "omit_empty field xs = (if xs = [] then [] else [(field, JArr (map JStr xs))])"

definition enc_room :: "room_rec \<Rightarrow> json" where
  "enc_room r = JObj
     ([(''schemaVersion'', enc_int (rs_SchemaVersion r)), (''roomId'', JStr (rs_RoomID r)),
       (''hostUid'', JStr (rs_HostUID r)), (''pairPort'', enc_word (rs_PairPort r)),
       (''wireGuardPort'', enc_word (rs_WireGuardPort r)), (''discoveryRelayPort'', enc_word (rs_RelayPort r)),
       (''joinEnabled'', JBool (rs_JoinEnabled r)), (''members'', JArr (map enc_member (rs_Members r)))]
      @ omit_empty ''blockedMembers'' (rs_BlockedMembers r) @ omit_empty ''blockedUids'' (rs_BlockedUIDs r))"

definition zero_member :: member_rec where
  "zero_member = \<lparr>ms_PublicKey = [], ms_IP = [], ms_Name = [], ms_Enabled = False, ms_LeaseRevision = 0\<rparr>"

definition member_fields :: "string list" where
  "member_fields = [''publicKey'', ''ip'', ''name'', ''enabled'', ''leaseRevision'']"

definition room_fields :: "string list" where
  "room_fields = [''schemaVersion'', ''roomId'', ''hostUid'', ''pairPort'', ''wireGuardPort'',
     ''discoveryRelayPort'', ''joinEnabled'', ''members'', ''blockedMembers'', ''blockedUids'']"

text \<open>The flag is \<open>DisallowUnknownFields\<close>.\<close>

definition dec_member :: "bool \<Rightarrow> json \<Rightarrow> member_rec option" where
  "dec_member strict v =
     (case v of
        JObj ms \<Rightarrow>
          if strict \<and> \<not> known_fields member_fields ms then None
          else
            Option.bind (dec_field ''publicKey'' dec_str [] ms) (\<lambda>key.
            Option.bind (dec_field ''ip'' dec_str [] ms) (\<lambda>ip.
            Option.bind (dec_field ''name'' dec_str [] ms) (\<lambda>name.
            Option.bind (dec_field ''enabled'' dec_bool False ms) (\<lambda>enabled.
            Option.bind (dec_field ''leaseRevision'' dec_word 0 ms) (\<lambda>rev'.
              Some \<lparr>ms_PublicKey = key, ms_IP = ip, ms_Name = name, ms_Enabled = enabled, ms_LeaseRevision = rev'\<rparr>)))))
      | _ \<Rightarrow> None)"

definition zero_room :: room_rec where
  "zero_room = \<lparr>rs_SchemaVersion = 0, rs_RoomID = [], rs_HostUID = [], rs_PairPort = 0, rs_WireGuardPort = 0,
     rs_RelayPort = 0, rs_JoinEnabled = False, rs_Members = [], rs_BlockedMembers = [], rs_BlockedUIDs = []\<rparr>"

definition dec_room :: "bool \<Rightarrow> json \<Rightarrow> room_rec option" where
  "dec_room strict v =
     (case v of
        JNull \<Rightarrow> Some zero_room
      | JObj ms \<Rightarrow>
          if strict \<and> \<not> known_fields room_fields ms then None
          else
            Option.bind (dec_field ''schemaVersion'' dec_int 0 ms) (\<lambda>schema.
            Option.bind (dec_field ''roomId'' dec_str [] ms) (\<lambda>roomID.
            Option.bind (dec_field ''hostUid'' dec_str [] ms) (\<lambda>hostUID.
            Option.bind (dec_field ''pairPort'' dec_word 0 ms) (\<lambda>pairPort.
            Option.bind (dec_field ''wireGuardPort'' dec_word 0 ms) (\<lambda>wgPort.
            Option.bind (dec_field ''discoveryRelayPort'' dec_word 0 ms) (\<lambda>relayPort.
            Option.bind (dec_field ''joinEnabled'' dec_bool False ms) (\<lambda>join.
            Option.bind (dec_field ''members'' (dec_slice zero_member (dec_member strict)) [] ms) (\<lambda>members.
            Option.bind (dec_field ''blockedMembers'' (dec_slice [] dec_str) [] ms) (\<lambda>blocked.
            Option.bind (dec_field ''blockedUids'' (dec_slice [] dec_str) [] ms) (\<lambda>uids.
              Some \<lparr>rs_SchemaVersion = schema, rs_RoomID = roomID, rs_HostUID = hostUID, rs_PairPort = pairPort,
                    rs_WireGuardPort = wgPort, rs_RelayPort = relayPort, rs_JoinEnabled = join, rs_Members = members,
                    rs_BlockedMembers = blocked, rs_BlockedUIDs = uids\<rparr>))))))))))
      | _ \<Rightarrow> None)"

definition marshal_room :: "room_rec \<Rightarrow> bytes" where
  "marshal_room r = bytes_of (json_print True 0 (enc_room r) @ [CHR 0x0A])"

definition unmarshal_room :: "bool \<Rightarrow> bytes \<Rightarrow> room_rec option" where
  "unmarshal_room strict data = Option.bind (json_parse (string_of data)) (dec_room strict)"

section \<open>Load and Save\<close>

definition loadOne :: "string \<Rightarrow> disk \<Rightarrow> room_rec result \<times> disk" where
  "loadOne path d =
     (let (data, d) = ReadFile path d in
      (case data of
         Inl e \<Rightarrow> (Inl e, d)
       | Inr data \<Rightarrow>
           (case unmarshal_room True data of
              None \<Rightarrow> (Inl errState, d)
            | Some value \<Rightarrow> (case validate value of Some e \<Rightarrow> (Inl e, d) | None \<Rightarrow> (Inr value, d)))))"

definition bak :: "string \<Rightarrow> string" where
  "bak path = path @ ''.bak''"

definition Load :: "string \<Rightarrow> disk \<Rightarrow> room_rec result \<times> disk" where
  "Load path d =
     (let (value, d) = loadOne path d in
      (case value of
         Inr v \<Rightarrow> (Inr v, d)
       | Inl err \<Rightarrow>
           (let (backup, d) = loadOne (bak path) d in
            (case backup of
               Inl _ \<Rightarrow> (Inl (if errors_is err OsErrNotExist then err else ErrWrap [err]), d)
             | Inr v \<Rightarrow> (Inr v, d)))))"

definition Save :: "string \<Rightarrow> room_rec \<Rightarrow> disk \<Rightarrow> goerror option \<times> disk" where
  "Save path value d =
     (case validate value of
        Some e \<Rightarrow> (Some e, d)
      | None \<Rightarrow>
          (let data = marshal_room value;
               (old, d) = ReadFile path d;
               (err, d) = (case old of
                  Inl _ \<Rightarrow> (None, d)
                | Inr old \<Rightarrow>
                    (case unmarshal_room False old of
                       None \<Rightarrow> (None, d)
                     | Some previous \<Rightarrow>
                         if validate previous = None then writeAtomic (bak path) old d else (None, d)))
           in if err \<noteq> None then (err, d) else writeAtomic path data d))"

section \<open>Round trip of the JSON form\<close>

lemma plain_member_fields: "plain_fields member_fields"
  by (simp add: plain_fields_def member_fields_def ascii_def fold_rune_def)

lemma plain_room_fields: "plain_fields room_fields"
  by (simp add: plain_fields_def room_fields_def ascii_def fold_rune_def)

lemma dec_member_enc: "dec_member strict (enc_member m) = Some m"
proof -
  obtain ms where E: "enc_member m = JObj ms" and ms: "ms = [(''publicKey'', JStr (ms_PublicKey m)), (''ip'', JStr (ms_IP m)),
     (''name'', JStr (ms_Name m)), (''enabled'', JBool (ms_Enabled m)), (''leaseRevision'', enc_word (ms_LeaseRevision m))]"
    by (simp add: enc_member_def)
  have sub: "fst ` set ms \<subseteq> set member_fields" and d: "distinct (map fst ms)" by (simp_all add: ms member_fields_def)
  note F = dec_field_plain [OF plain_member_fields sub d]
  show ?thesis
    unfolding E dec_member_def json.case using known_fieldsI [OF plain_member_fields sub]
    by (simp add: F member_fields_def) (simp add: ms dec_str_def dec_bool_def)
qed

definition room_text_ok :: "room_rec \<Rightarrow> bool" where
  "room_text_ok r \<longleftrightarrow> utf8_valid (rs_RoomID r) \<and> utf8_valid (rs_HostUID r)
     \<and> list_all (\<lambda>m. utf8_valid (ms_PublicKey m) \<and> utf8_valid (ms_IP m) \<and> utf8_valid (ms_Name m)) (rs_Members r)
     \<and> list_all utf8_valid (rs_BlockedMembers r) \<and> list_all utf8_valid (rs_BlockedUIDs r)"

lemma field_utf8 [simp]: "utf8_valid ''publicKey''" "utf8_valid ''ip''" "utf8_valid ''name''" "utf8_valid ''enabled''"
  "utf8_valid ''leaseRevision''" "utf8_valid ''schemaVersion''" "utf8_valid ''roomId''" "utf8_valid ''hostUid''"
  "utf8_valid ''pairPort''" "utf8_valid ''wireGuardPort''" "utf8_valid ''discoveryRelayPort''"
  "utf8_valid ''joinEnabled''" "utf8_valid ''members''" "utf8_valid ''blockedMembers''" "utf8_valid ''blockedUids''"
  by (auto intro!: utf8_ascii simp: ascii_def)

lemma json_ok_room:
  assumes "room_text_ok r" "rs_SchemaVersion r = SchemaVersion"
  shows "json_ok (enc_room r)"
proof -
  have "json_ok (enc_int (rs_SchemaVersion r))" unfolding assms(2) by (simp add: SchemaVersion_def enc_int_def)
  moreover have "list_all json_ok (map enc_member (rs_Members r))"
    using assms(1) by (auto simp: room_text_ok_def list_all_iff enc_member_def)
  ultimately show ?thesis
    using assms(1) by (auto simp: enc_room_def omit_empty_def room_text_ok_def list_all_iff)
qed

lemma dec_str_slice: "dec_slice [] dec_str (JArr (map JStr xs)) = Some xs"
  by (rule dec_slice_map) (simp_all add: dec_str_def)

lemma dec_room_enc:
  assumes "rs_SchemaVersion r = SchemaVersion"
  shows "dec_room strict (enc_room r) = Some r"
proof -
  define ms where "ms = [(''schemaVersion'', enc_int (rs_SchemaVersion r)), (''roomId'', JStr (rs_RoomID r)),
       (''hostUid'', JStr (rs_HostUID r)), (''pairPort'', enc_word (rs_PairPort r)),
       (''wireGuardPort'', enc_word (rs_WireGuardPort r)), (''discoveryRelayPort'', enc_word (rs_RelayPort r)),
       (''joinEnabled'', JBool (rs_JoinEnabled r)), (''members'', JArr (map enc_member (rs_Members r)))]
      @ omit_empty ''blockedMembers'' (rs_BlockedMembers r) @ omit_empty ''blockedUids'' (rs_BlockedUIDs r)"
  have E: "enc_room r = JObj ms" by (simp add: enc_room_def ms_def)
  have sub: "fst ` set ms \<subseteq> set room_fields" by (auto simp: ms_def room_fields_def omit_empty_def)
  have dist: "distinct (map fst ms)" by (simp add: ms_def omit_empty_def)
  note k = known_fieldsI [OF plain_room_fields sub]
  note F = dec_field_plain [OF plain_room_fields sub dist]
  have schema: "dec_int (enc_int (rs_SchemaVersion r)) = Some (rs_SchemaVersion r)" "enc_int (rs_SchemaVersion r) \<noteq> JNull"
    unfolding assms SchemaVersion_def
    by (simp_all add: enc_int_def dec_int_def dec_nat_def dec_string_small digit_char_def digit_value_def)
  have members: "dec_slice zero_member (dec_member strict) (JArr (map enc_member (rs_Members r))) = Some (rs_Members r)"
    by (rule dec_slice_map, rule dec_member_enc, simp add: enc_member_def)
  have lookups: "map_of ms ''schemaVersion'' = Some (enc_int (rs_SchemaVersion r))"
    "map_of ms ''roomId'' = Some (JStr (rs_RoomID r))" "map_of ms ''hostUid'' = Some (JStr (rs_HostUID r))"
    "map_of ms ''pairPort'' = Some (enc_word (rs_PairPort r))" "map_of ms ''wireGuardPort'' = Some (enc_word (rs_WireGuardPort r))"
    "map_of ms ''discoveryRelayPort'' = Some (enc_word (rs_RelayPort r))"
    "map_of ms ''joinEnabled'' = Some (JBool (rs_JoinEnabled r))"
    "map_of ms ''members'' = Some (JArr (map enc_member (rs_Members r)))"
    "map_of ms ''blockedMembers'' = (if rs_BlockedMembers r = [] then None else Some (JArr (map JStr (rs_BlockedMembers r))))"
    "map_of ms ''blockedUids'' = (if rs_BlockedUIDs r = [] then None else Some (JArr (map JStr (rs_BlockedUIDs r))))"
    by (simp_all add: ms_def omit_empty_def)
  show ?thesis
    unfolding E dec_room_def json.case using k
    by (simp add: F room_fields_def lookups schema members dec_str_slice) (simp add: dec_str_def dec_bool_def)
qed

lemma unmarshal_marshal_room:
  assumes "room_text_ok r" "rs_SchemaVersion r = SchemaVersion"
  shows "unmarshal_room strict (marshal_room r) = Some r"
proof -
  have "json_parse (json_print True 0 (enc_room r) @ [CHR 0x0A]) = Some (enc_room r)"
    by (rule json_parse_print [OF json_ok_room [OF assms]]) (simp add: is_ws_def json_ws_def)
  then show ?thesis by (simp add: unmarshal_room_def marshal_room_def dec_room_enc [OF assms(2)])
qed

lemma validate_schema: "validate r = None \<Longrightarrow> rs_SchemaVersion r = SchemaVersion"
  by (auto simp: validate_def split: if_splits)

section \<open>Load after Save\<close>

text \<open>What one file holds for \<open>Load\<close>.\<close>

definition file_room :: "(string, bytes) fmap \<Rightarrow> string \<Rightarrow> room_rec option" where
  "file_room files path =
     Option.bind (fmlookup files path) (\<lambda>data. Option.bind (unmarshal_room True data) (\<lambda>r.
       if validate r = None then Some r else None))"

text \<open>The room the two files stand for.\<close>

definition saved_room :: "string \<Rightarrow> (string, bytes) fmap \<Rightarrow> room_rec option" where
  "saved_room path files = (case file_room files path of Some r \<Rightarrow> Some r | None \<Rightarrow> file_room files (bak path))"

lemma loadOne_no_script:
  assumes "d_script d = []"
  shows "snd (loadOne path d) = d"
    "fst (loadOne path d) = Inr r \<longleftrightarrow> file_room (d_files d) path = Some r"
  using assms
  by (auto simp: loadOne_def ReadFile_def os_call_no_script Let_def file_room_def split: option.splits)

lemma Load_saved:
  assumes "d_script d = []"
  shows "fst (Load path d) = Inr r \<longleftrightarrow> saved_room path (d_files d) = Some r"
proof -
  obtain v where v: "loadOne path d = (v, d)" using loadOne_no_script(1) [OF assms] by (metis prod.collapse)
  obtain u where u: "loadOne (bak path) d = (u, d)" using loadOne_no_script(1) [OF assms] by (metis prod.collapse)
  note L = loadOne_no_script(2) [OF assms, of path] loadOne_no_script(2) [OF assms, of "bak path"]
  show ?thesis
  proof (cases v)
    case (Inr x)
    then have "file_room (d_files d) path = Some x"
      using loadOne_no_script(2) [OF assms, of path x] v by simp
    then show ?thesis using Inr by (simp add: Load_def v saved_room_def)
  next
    case (Inl e)
    then have n: "file_room (d_files d) path = None" using L(1) v by (metis fst_conv not_Some_eq sum.distinct(1))
    show ?thesis
      using L(2) u n Inl by (cases u) (auto simp: Load_def v saved_room_def)
  qed
qed

lemma bak_ne: "bak path \<noteq> path" "path \<noteq> bak path" "bak path \<noteq> temp_path path n" "path \<noteq> temp_path (bak path) n"
proof -
  have "length path < length (bak path)" by (simp add: bak_def)
  then show "bak path \<noteq> path" "path \<noteq> bak path" by auto
  show "bak path \<noteq> temp_path path n" by (simp add: bak_def temp_path_def)
  have "length path < length (temp_path (bak path) n)" by (simp add: bak_def temp_path_def)
  then show "path \<noteq> temp_path (bak path) n" by auto
qed

lemma ReadFile_files: "ReadFile p d = (r, d') \<Longrightarrow> d_files d' = d_files d"
  by (auto simp: ReadFile_def Let_def dest!: os_call_files split: prod.splits option.splits)

lemma ReadFile_data: "ReadFile p d = (Inr data, d') \<Longrightarrow> fmlookup (d_files d) p = Some data"
  by (auto simp: ReadFile_def Let_def dest!: os_call_files split: prod.splits option.splits)

text \<open>What \<open>Save\<close> leaves in the two files.\<close>

lemma Save_files:
  assumes "Save path value d = (err, d')" and "validate value = None"
  shows "fmlookup (d_files d') path = (if err = None then Some (marshal_room value) else fmlookup (d_files d) path)"
    and "fmlookup (d_files d') (bak path) = fmlookup (d_files d) (bak path)
      \<or> (\<exists>old r. fmlookup (d_files d) path = Some old \<and> unmarshal_room False old = Some r \<and> validate r = None
          \<and> fmlookup (d_files d') (bak path) = Some old)"
    and "q \<noteq> path \<Longrightarrow> q \<noteq> bak path \<Longrightarrow> (\<And>n. q \<noteq> temp_path path n) \<Longrightarrow> (\<And>n. q \<noteq> temp_path (bak path) n)
      \<Longrightarrow> fmlookup (d_files d') q = fmlookup (d_files d) q"
proof -
  obtain old d1 where r: "ReadFile path d = (old, d1)" by fastforce
  note f1 = ReadFile_files [OF r]
  obtain e2 d2 where s2: "(case old of Inl _ \<Rightarrow> (None, d1)
      | Inr old \<Rightarrow> (case unmarshal_room False old of None \<Rightarrow> (None, d1)
          | Some previous \<Rightarrow> if validate previous = None then writeAtomic (bak path) old d1 else (None, d1))) = (e2, d2)"
    by fastforce
  have S: "(if e2 \<noteq> None then (e2, d2) else writeAtomic path (marshal_room value) d2) = (err, d')"
    using assms s2 by (simp add: Save_def r Let_def)
  have "d2 = d1 \<or> (\<exists>o' p. old = Inr o' \<and> unmarshal_room False o' = Some p \<and> validate p = None
      \<and> written (bak path) o' (d_files d1) e2 (d_files d2))"
    using s2 by (auto split: sum.splits option.splits if_splits dest: writeAtomic_written)
  then have two: "fmlookup (d_files d2) path = fmlookup (d_files d) path"
      "fmlookup (d_files d2) (bak path) = fmlookup (d_files d) (bak path)
        \<or> (\<exists>old r. fmlookup (d_files d) path = Some old \<and> unmarshal_room False old = Some r \<and> validate r = None
          \<and> fmlookup (d_files d2) (bak path) = Some old)"
      "q \<noteq> bak path \<Longrightarrow> (\<And>n. q \<noteq> temp_path (bak path) n) \<Longrightarrow> fmlookup (d_files d2) q = fmlookup (d_files d) q"
  proof -
    assume h: "d2 = d1 \<or> (\<exists>o' p. old = Inr o' \<and> unmarshal_room False o' = Some p \<and> validate p = None
      \<and> written (bak path) o' (d_files d1) e2 (d_files d2))"
    show "fmlookup (d_files d2) path = fmlookup (d_files d) path"
      using h f1 written_lookup [OF _ bak_ne(2) bak_ne(4)] by auto
    show "fmlookup (d_files d2) (bak path) = fmlookup (d_files d) (bak path)
        \<or> (\<exists>old r. fmlookup (d_files d) path = Some old \<and> unmarshal_room False old = Some r \<and> validate r = None
          \<and> fmlookup (d_files d2) (bak path) = Some old)"
      using h f1 r by (cases e2) (auto simp: written_def dest: ReadFile_data)
    show "fmlookup (d_files d2) q = fmlookup (d_files d) q" if "q \<noteq> bak path" "\<And>n. q \<noteq> temp_path (bak path) n"
      using h f1 written_lookup [OF _ that] by auto
  qed
  have "(err \<noteq> None \<and> d' = d2) \<or> written path (marshal_room value) (d_files d2) err (d_files d')"
    using S by (auto split: if_splits dest: writeAtomic_written)
  then have three: "fmlookup (d_files d') path =
        (if err = None then Some (marshal_room value) else fmlookup (d_files d2) path)"
      "fmlookup (d_files d') (bak path) = fmlookup (d_files d2) (bak path)"
      "q \<noteq> path \<Longrightarrow> (\<And>n. q \<noteq> temp_path path n) \<Longrightarrow> fmlookup (d_files d') q = fmlookup (d_files d2) q"
  proof -
    assume h: "(err \<noteq> None \<and> d' = d2) \<or> written path (marshal_room value) (d_files d2) err (d_files d')"
    then show "fmlookup (d_files d') path = (if err = None then Some (marshal_room value) else fmlookup (d_files d2) path)"
      by (auto simp: written_def)
    show "fmlookup (d_files d') (bak path) = fmlookup (d_files d2) (bak path)"
      using h written_lookup [OF _ bak_ne(1) bak_ne(3)] by auto
    show "fmlookup (d_files d') q = fmlookup (d_files d2) q" if "q \<noteq> path" "\<And>n. q \<noteq> temp_path path n"
      using h written_lookup [OF _ that] by auto
  qed
  show "fmlookup (d_files d') path = (if err = None then Some (marshal_room value) else fmlookup (d_files d) path)"
    using three(1) two(1) by simp
  show "fmlookup (d_files d') (bak path) = fmlookup (d_files d) (bak path)
      \<or> (\<exists>old r. fmlookup (d_files d) path = Some old \<and> unmarshal_room False old = Some r \<and> validate r = None
          \<and> fmlookup (d_files d') (bak path) = Some old)"
    using three(2) two(2) by simp
  show "q \<noteq> path \<Longrightarrow> q \<noteq> bak path \<Longrightarrow> (\<And>n. q \<noteq> temp_path path n) \<Longrightarrow> (\<And>n. q \<noteq> temp_path (bak path) n)
      \<Longrightarrow> fmlookup (d_files d') q = fmlookup (d_files d) q"
    using three(3) two(3) by simp
qed

text \<open>A failed \<open>Save\<close> leaves the main file alone.\<close>

lemma Save_failed:
  "Save path value d = (Some e, d') \<Longrightarrow> fmlookup (d_files d') path = fmlookup (d_files d) path"
  using Save_files(1) [of path "value" d "Some e" d'] by (cases "validate value") (auto simp: Save_def)

lemma file_room_marshal:
  assumes "room_text_ok value" "validate value = None" "fmlookup files path = Some (marshal_room value)"
  shows "file_room files path = Some value"
  using assms validate_schema [OF assms(2)] by (simp add: file_room_def unmarshal_marshal_room)

text \<open>A successful \<open>Save\<close> is what the next \<open>Load\<close> gives.\<close>

lemma Save_ok:
  assumes "Save path value d = (None, d')" "room_text_ok value"
  shows "saved_room path (d_files d') = Some value"
proof -
  have v: "validate value = None" using assms(1) by (auto simp: Save_def split: option.splits)
  show ?thesis
    using file_room_marshal [OF assms(2) v] Save_files(1) [OF assms(1) v] by (simp add: saved_room_def)
qed

text \<open>Whatever fails during \<open>Save\<close>, a room whose main file is readable is not lost.\<close>

lemma Save_old_or_new:
  assumes "Save path value d = (err, d')" "room_text_ok value"
    and old: "file_room (d_files d) path = Some r"
  shows "saved_room path (d_files d') = Some (if err = None then value else r)"
proof (cases err)
  case None
  then show ?thesis using Save_ok assms(1,2) by simp
next
  case (Some e)
  with Save_failed assms(1) have "fmlookup (d_files d') path = fmlookup (d_files d) path" by blast
  then show ?thesis using old Some by (simp add: saved_room_def file_room_def)
qed

text \<open>
  A room that only the backup holds survives when the main file is not accepted by the lenient check
  of \<open>Save\<close> either.
\<close>

lemma Save_old_or_new_backup:
  assumes "Save path value d = (err, d')" "room_text_ok value"
    and main: "\<And>old p. fmlookup (d_files d) path = Some old \<Longrightarrow> unmarshal_room False old = Some p \<Longrightarrow> validate p \<noteq> None"
    and old: "saved_room path (d_files d) = Some r"
  shows "saved_room path (d_files d') = Some (if err = None then value else r)"
proof (cases err)
  case None
  then show ?thesis using Save_ok assms(1,2) by simp
next
  case (Some e)
  have "fmlookup (d_files d') path = fmlookup (d_files d) path" using Save_failed assms(1) Some by blast
  moreover have "fmlookup (d_files d') (bak path) = fmlookup (d_files d) (bak path)"
  proof (cases "validate value")
    case None
    show ?thesis using Save_files(2) [OF assms(1) None] main by blast
  qed (use assms(1) in \<open>simp add: Save_def\<close>)
  ultimately have "saved_room path (d_files d') = saved_room path (d_files d)"
    by (simp add: saved_room_def file_room_def split: option.split)
  with old Some show ?thesis by simp
qed

end
