(* ===== verification/Go_Crypto.thy ===== *)
theory Go_Crypto
  imports Opl_Prelude
begin

unbundle bit_operations_syntax

text \<open>
  The checksums and MACs the program computes: \<open>crc32.ChecksumIEEE\<close>, \<open>sha256.Sum256\<close> and
  \<open>hmac.New(sha256.New, key)\<close>, from their published definitions. \<open>hash.Write\<close> only appends to the
  message, so a MAC is a function of the key and of the concatenation of what was written.
\<close>

section \<open>CRC-32 (IEEE)\<close>

definition crc_bit :: "u32 \<Rightarrow> u32" where
  "crc_bit c = (if c AND 1 = 1 then drop_bit 1 c XOR 0xEDB88320 else drop_bit 1 c)"

definition crc_byte :: "u32 \<Rightarrow> byte \<Rightarrow> u32" where
  "crc_byte c b = (crc_bit ^^ 8) (c XOR ucast b)"

definition ChecksumIEEE :: "bytes \<Rightarrow> u32" where
  "ChecksumIEEE bs = NOT (foldl crc_byte 0xFFFFFFFF bs)"

section \<open>SHA-256\<close>

definition sha_k :: "u32 list" where
  "sha_k = [
   1116352408, 1899447441, 3049323471, 3921009573, 961987163, 1508970993, 2453635748, 2870763221,
   3624381080, 310598401, 607225278, 1426881987, 1925078388, 2162078206, 2614888103, 3248222580,
   3835390401, 4022224774, 264347078, 604807628, 770255983, 1249150122, 1555081692, 1996064986,
   2554220882, 2821834349, 2952996808, 3210313671, 3336571891, 3584528711, 113926993, 338241895,
   666307205, 773529912, 1294757372, 1396182291, 1695183700, 1986661051, 2177026350, 2456956037,
   2730485921, 2820302411, 3259730800, 3345764771, 3516065817, 3600352804, 4094571909, 275423344,
   430227734, 506948616, 659060556, 883997877, 958139571, 1322822218, 1537002063, 1747873779,
   1955562222, 2024104815, 2227730452, 2361852424, 2428436474, 2756734187, 3204031479, 3329325298]"

definition sha_init :: "u32 list" where
  "sha_init = [1779033703, 3144134277, 1013904242, 2773480762, 1359893119, 2600822924, 528734635, 1541459225]"

definition rotr :: "nat \<Rightarrow> u32 \<Rightarrow> u32" where
  "rotr n x = drop_bit n x OR push_bit (32 - n) x"

text \<open>The padded message: a 1 bit, zeros, the bit length as 64 bits.\<close>

definition sha_pad :: "bytes \<Rightarrow> bytes" where
  "sha_pad m =
     m @ [0x80] @ replicate ((119 - length m mod 64) mod 64) 0
       @ be_bytes (of_nat (8 * length m) :: u64)"

fun chunks :: "nat \<Rightarrow> nat \<Rightarrow> bytes \<Rightarrow> bytes list" where
  "chunks 0 n xs = []"
| "chunks (Suc k) n xs = take n xs # chunks k n (drop n xs)"

text \<open>The message schedule, newest word first.\<close>

fun sha_sched :: "nat \<Rightarrow> u32 list \<Rightarrow> u32 list" where
  "sha_sched 0 ws = ws"
| "sha_sched (Suc n) ws =
     (let s0 = (let x = ws ! 14 in rotr 7 x XOR rotr 18 x XOR drop_bit 3 x);
          s1 = (let x = ws ! 1 in rotr 17 x XOR rotr 19 x XOR drop_bit 10 x)
      in sha_sched n ((ws ! 15 + s0 + ws ! 6 + s1) # ws))"

definition sha_round :: "u32 list \<Rightarrow> u32 \<times> u32 \<Rightarrow> u32 list" where
  "sha_round st kw =
     (case st of
        [a, b, c, d, e, f, g, h] \<Rightarrow>
          (let t1 = h + (rotr 6 e XOR rotr 11 e XOR rotr 25 e) + ((e AND f) XOR (NOT e AND g))
                    + fst kw + snd kw;
               t2 = (rotr 2 a XOR rotr 13 a XOR rotr 22 a) + ((a AND b) XOR (a AND c) XOR (b AND c))
           in [t1 + t2, a, b, c, d + t1, e, f, g])
      | _ \<Rightarrow> st)"

definition sha_block :: "u32 list \<Rightarrow> bytes \<Rightarrow> u32 list" where
  "sha_block st block =
     (let ws = map be_word (chunks 16 4 block);
          sched = rev (sha_sched 48 (rev ws))
      in map2 (+) st (foldl sha_round st (zip sha_k sched)))"

definition Sum256 :: "bytes \<Rightarrow> arr32" where
  "Sum256 m =
     (let p = sha_pad m
      in be_word (concat (map be_bytes (foldl sha_block sha_init (chunks (length p div 64) 64 p)))))"

section \<open>HMAC\<close>

definition hmac_sha256 :: "bytes \<Rightarrow> bytes \<Rightarrow> arr32" where
  "hmac_sha256 key msg =
     (let k0 = (if 64 < length key then be_bytes (Sum256 key) else key);
          k = k0 @ replicate (64 - length k0) 0
      in Sum256 (map (\<lambda>b. b XOR 0x5C) k @ be_bytes (Sum256 (map (\<lambda>b. b XOR 0x36) k @ msg))))"

section \<open>X25519\<close>

text \<open>
  \<open>ecdh.X25519().NewPrivateKey(k).PublicKey()\<close>: the Montgomery ladder of RFC 7748 on the base point 9,
  over the integers modulo \<open>2 ^ 255 - 19\<close>. Keys are little-endian byte strings.
\<close>

definition p25519 :: int where
  "p25519 = 2 ^ 255 - 19"

fun pow_mod :: "nat \<Rightarrow> int \<Rightarrow> int \<Rightarrow> int \<Rightarrow> int" where
  "pow_mod 0 b e acc = acc"
| "pow_mod (Suc n) b e acc =
     pow_mod n (b * b mod p25519) (e div 2) (if e mod 2 = 1 then acc * b mod p25519 else acc)"

text \<open>The inverse of a field element, by Fermat: the exponent has 255 bits.\<close>

definition inv25519 :: "int \<Rightarrow> int" where
  "inv25519 z = pow_mod 255 z (p25519 - 2) 1"

definition ladder_step :: "int \<Rightarrow> int \<times> int \<times> int \<times> int \<Rightarrow> int \<times> int \<times> int \<times> int" where
  "ladder_step x1 st =
     (case st of (x2, z2, x3, z3) \<Rightarrow>
        let a = x2 + z2; aa = a * a mod p25519; b = x2 - z2; bb = b * b mod p25519; e = aa - bb;
            c = x3 + z3; d = x3 - z3; da = d * a mod p25519; cb = c * b mod p25519
        in (aa * bb mod p25519, e * (aa + 121665 * e) mod p25519,
            (da + cb) * (da + cb) mod p25519, x1 * ((da - cb) * (da - cb) mod p25519) mod p25519))"

definition cswap :: "bool \<Rightarrow> int \<times> int \<times> int \<times> int \<Rightarrow> int \<times> int \<times> int \<times> int" where
  "cswap b st = (if b then (case st of (x2, z2, x3, z3) \<Rightarrow> (x3, z3, x2, z2)) else st)"

fun ladder :: "nat \<Rightarrow> int \<Rightarrow> int \<Rightarrow> int \<times> int \<times> int \<times> int \<Rightarrow> int \<times> int \<times> int \<times> int" where
  "ladder 0 k x1 st = st"
| "ladder (Suc t) k x1 st =
     (let bit = (k div 2 ^ t mod 2 = 1) in ladder t k x1 (cswap bit (ladder_step x1 (cswap bit st))))"

definition x25519_base :: "arr32 \<Rightarrow> arr32" where
  "x25519_base key =
     (let k = int (be_nat (rev (be_bytes key)) 0);
          k = k - k mod 8 - k div 2 ^ 254 * 2 ^ 254 + 2 ^ 254;
          (x2, z2, _, _) = ladder 255 k 9 (1, 0, 9, 1)
      in be_word (rev (put_nat 32 (nat (x2 * inv25519 z2 mod p25519)) [])))"

end
