(* ===== verification/Secret_Store.thy ===== *)
theory Secret_Store
  imports Disk Go_Crypto
begin

text \<open>
  \<open>internal/secret/store.go\<close> with the Unix protection of \<open>dpapi_other.go\<close>, and
  \<open>internal/device/key.go\<close>: secrets in files, and the device key kept in one of them.
\<close>

section \<open>Secrets\<close>

definition unixHeader :: bytes where
  "unixHeader = bytes_of (''OPL-PLAIN-1'' @ [CHR 0x00])"

definition protect :: "bytes \<Rightarrow> bytes result" where
  "protect v = Inr (unixHeader @ v)"

definition unprotect :: "bytes \<Rightarrow> bytes result" where
  "unprotect v =
     (if take (length unixHeader) v \<noteq> unixHeader then Inl (ErrTag (Other ''invalid Unix secret format''))
      else Inr (drop (length unixHeader) v))"

text \<open>
  \<open>fmt.Errorf("%w: %w", ErrStore, err)\<close>. The calls between \<open>protect\<close> and the end of \<open>Save\<close> are those
  of \<open>writeAtomic\<close>, in the same order.
\<close>

definition store_error :: "goerror \<Rightarrow> goerror" where
  "store_error e = ErrWrap [ErrTag SecretErrStore, e]"

definition secret_Save :: "string \<Rightarrow> bytes \<Rightarrow> disk \<Rightarrow> goerror option \<times> disk" where
  "secret_Save path plaintext d =
     (if plaintext = [] then (Some (ErrWrap [ErrTag SecretErrStore]), d)
      else
        (case protect plaintext of
           Inl e \<Rightarrow> (Some (store_error e), d)
         | Inr protected \<Rightarrow>
             (let (err, d) = writeAtomic path protected d in (map_option store_error err, d))))"

definition secret_Load :: "string \<Rightarrow> disk \<Rightarrow> bytes result \<times> disk" where
  "secret_Load path d =
     (let (protected, d) = ReadFile path d in
      (case protected of
         Inl e \<Rightarrow> (Inl (store_error e), d)
       | Inr protected \<Rightarrow>
           (case unprotect protected of Inl e \<Rightarrow> (Inl (store_error e), d) | Inr plaintext \<Rightarrow> (Inr plaintext, d))))"

text \<open>The plaintext a file holds.\<close>

definition file_secret :: "(string, bytes) fmap \<Rightarrow> string \<Rightarrow> bytes option" where
  "file_secret files path =
     Option.bind (fmlookup files path) (\<lambda>v. case unprotect v of Inl _ \<Rightarrow> None | Inr p \<Rightarrow> Some p)"

lemma unprotect_protect: "protect v = Inr p \<Longrightarrow> unprotect p = Inr v"
  by (auto simp: protect_def unprotect_def)

lemma secret_Load_ok:
  assumes "d_script d = []" "file_secret (d_files d) path = Some v"
  shows "secret_Load path d = (Inr v, d)"
proof -
  from assms(2) obtain f where f: "fmlookup (d_files d) path = Some f" "unprotect f = Inr v"
    by (cases "fmlookup (d_files d) path") (auto simp: file_secret_def split: sum.splits)
  then show ?thesis using assms(1) by (simp add: secret_Load_def ReadFile_def os_call_no_script)
qed

lemma secret_Load_data:
  "secret_Load path d = (Inr v, d') \<Longrightarrow> file_secret (d_files d) path = Some v \<and> d_files d' = d_files d"
  by (auto simp: secret_Load_def ReadFile_def Let_def file_secret_def dest!: os_call_files
      split: prod.splits option.splits sum.splits)

lemma secret_Load_files: "secret_Load path d = (r, d') \<Longrightarrow> d_files d' = d_files d"
  by (auto simp: secret_Load_def ReadFile_def Let_def dest!: os_call_files
      split: prod.splits option.splits sum.splits)

text \<open>A file that is not there is reported so that the callers can tell.\<close>

lemma secret_Load_missing:
  assumes "d_script d = []" "fmlookup (d_files d) path = None"
  shows "\<exists>e. secret_Load path d = (Inl e, d) \<and> errors_is e OsErrNotExist"
  using assms by (simp add: secret_Load_def ReadFile_def os_call_no_script store_error_def notExist_def)

lemma secret_Save_files:
  assumes "secret_Save path v d = (err, d')"
  shows "file_secret (d_files d') path = (if err = None then Some v else file_secret (d_files d) path)
    \<and> (\<forall>q. q \<noteq> path \<longrightarrow> (\<forall>n. q \<noteq> temp_path path n) \<longrightarrow> fmlookup (d_files d') q = fmlookup (d_files d) q)"
proof (cases "v = []")
  case True
  with assms show ?thesis by (auto simp: secret_Save_def)
next
  case False
  obtain e d1 where w: "writeAtomic path (unixHeader @ v) d = (e, d1)" by fastforce
  have d': "d' = d1" "err = map_option store_error e"
    using assms False w by (simp_all add: secret_Save_def protect_def)
  note W = writeAtomic_written [OF w]
  have "file_secret files path = Some v" if "fmlookup files path = Some (unixHeader @ v)" for files
    using that by (simp add: file_secret_def unprotect_def)
  moreover have "file_secret (d_files d') path = file_secret (d_files d) path"
    if "fmlookup (d_files d') path = fmlookup (d_files d) path"
    using that by (simp add: file_secret_def)
  ultimately show ?thesis using W d' written_lookup [OF W] by (cases e) (auto simp: written_def)
qed

lemma secret_Save_ok: "d_script d = [] \<Longrightarrow> v \<noteq> [] \<Longrightarrow> \<exists>d'. secret_Save path v d = (None, d') \<and> d_script d' = []"
  using writeAtomic_ok [of d path "unixHeader @ v"] by (auto simp: secret_Save_def protect_def)

section \<open>The device key\<close>

record KeyPair =
  kp_Private :: arr32
  kp_Public :: arr32

definition fromECDH :: "arr32 \<Rightarrow> KeyPair" where
  "fromECDH priv = \<lparr>kp_Private = priv, kp_Public = x25519_base priv\<rparr>"

definition FromPrivate :: "bytes \<Rightarrow> KeyPair result" where
  "FromPrivate data =
     (if length data \<noteq> 32 then Inl (ErrTag DeviceErrInvalid) else Inr (fromECDH (be_word data)))"

text \<open>The random source gives the 32 bytes of a private key or an error.\<close>

definition Generate :: "arr32 result \<Rightarrow> KeyPair result" where
  "Generate random = (case random of Inl e \<Rightarrow> Inl e | Inr priv \<Rightarrow> Inr (fromECDH priv))"

definition LoadOrCreate :: "string \<Rightarrow> bool \<Rightarrow> arr32 result \<Rightarrow> disk \<Rightarrow> KeyPair result \<times> disk" where
  "LoadOrCreate path fixed random d =
     (let create = (\<lambda>d. case Generate random of
             Inl e \<Rightarrow> (Inl e, d)
           | Inr v \<Rightarrow>
               if fixed then
                 (let (err, d) = secret_Save path (be_bytes (kp_Private v)) d
                  in (case err of Some e \<Rightarrow> (Inl e, d) | None \<Rightarrow> (Inr v, d)))
               else (Inr v, d))
      in if fixed then
           (let (data, d) = secret_Load path d in
            (case data of
               Inr data \<Rightarrow> (FromPrivate data, d)
             | Inl e \<Rightarrow> if \<not> errors_is e OsErrNotExist then (Inl e, d) else create d))
         else create d)"

text \<open>A fixed key is stable: once a call has returned it, every later call on that file returns it.\<close>

lemma LoadOrCreate_stored:
  assumes "LoadOrCreate path True random d = (Inr kp, d')"
  shows "file_secret (d_files d') path = Some (be_bytes (kp_Private kp)) \<and> kp = fromECDH (kp_Private kp)"
proof -
  obtain data d1 where l: "secret_Load path d = (data, d1)" by fastforce
  show ?thesis
  proof (cases data)
    case (Inr b)
    with assms l have "FromPrivate b = Inr kp" "d' = d1" by (simp_all add: LoadOrCreate_def)
    then have b: "length b = 32" "kp = fromECDH (be_word b)" by (auto simp: FromPrivate_def split: if_splits)
    then have "be_bytes (kp_Private kp) = b" by (simp add: fromECDH_def be_bytes_be_word_widths)
    with b secret_Load_data [of path d b d1] l Inr \<open>d' = d1\<close> show ?thesis by (simp add: fromECDH_def)
  next
    case (Inl e)
    with assms l obtain priv where r: "random = Inr priv"
      by (auto simp: LoadOrCreate_def Generate_def split: sum.splits if_splits)
    obtain err d2 where s: "secret_Save path (be_bytes priv) d1 = (err, d2)" by fastforce
    from assms l Inl r s have "err = None" "kp = fromECDH priv" "d' = d2"
      by (auto simp: LoadOrCreate_def Generate_def fromECDH_def split: if_splits option.splits)
    with secret_Save_files [OF s] show ?thesis by (simp add: fromECDH_def)
  qed
qed

lemma LoadOrCreate_again:
  assumes "LoadOrCreate path True random d = (Inr kp, d')" "d_script d2 = []"
    and "fmlookup (d_files d2) path = fmlookup (d_files d') path"
  shows "LoadOrCreate path True random2 d2 = (Inr kp, d2)"
proof -
  have "file_secret (d_files d2) path = Some (be_bytes (kp_Private kp))"
    using LoadOrCreate_stored [OF assms(1)] assms(3) by (simp add: file_secret_def)
  from secret_Load_ok [OF assms(2) this] show ?thesis
    using LoadOrCreate_stored [OF assms(1)] by (simp add: LoadOrCreate_def FromPrivate_def)
qed

end
