(* ===== verification/Pairing_Wire.thy ===== *)
theory Pairing_Wire
  imports Netip Go_Crypto
begin

text \<open>
  \<open>internal/pairing/pairing.go\<close> and the message formats of \<open>internal/pairing/network.go\<close>: the
  server challenge, the client request, the pair result, the acknowledgement, the statistics report
  and the device snapshot, their MACs, and the frames they travel in.
\<close>

section \<open>Constants and checks\<close>

definition ProtocolVersion :: byte where "ProtocolVersion = 2"
definition MaxNameBytes :: nat where "MaxNameBytes = 64"
definition MaxUIDBytes :: nat where "MaxUIDBytes = 31"
definition MaxFrameBytes :: nat where "MaxFrameBytes = 16384"
definition maxDevices :: nat where "maxDevices = 253"

definition FrameServerChallenge :: byte where "FrameServerChallenge = 1"
definition FrameClientRequest :: byte where "FrameClientRequest = 2"
definition FramePairResult :: byte where "FramePairResult = 3"
definition FramePairAck :: byte where "FramePairAck = 4"
definition FrameStatsReport :: byte where "FrameStatsReport = 5"
definition FrameDeviceSnapshot :: byte where "FrameDeviceSnapshot = 6"

definition StatusOK :: byte where "StatusOK = 0"
definition StatusAuthFailed :: byte where "StatusAuthFailed = 1"
definition StatusJoinPaused :: byte where "StatusJoinPaused = 2"
definition StatusRoomFull :: byte where "StatusRoomFull = 3"
definition StatusInternal :: byte where "StatusInternal = 4"
definition StatusMemberDisabled :: byte where "StatusMemberDisabled = 5"

lemmas frame_types = FrameServerChallenge_def FrameClientRequest_def FramePairResult_def
  FramePairAck_def FrameStatsReport_def FrameDeviceSnapshot_def

lemmas statuses = StatusOK_def StatusAuthFailed_def StatusJoinPaused_def StatusRoomFull_def
  StatusInternal_def StatusMemberDisabled_def

definition requestDomain :: bytes where "requestDomain = bytes_of ''OPL2-PAIR-REQUEST''"
definition resultDomain :: bytes where "resultDomain = bytes_of ''OPL2-PAIR-RESULT''"
definition ackDomain :: bytes where "ackDomain = bytes_of ''OPL2-PAIR-ACK''"
definition pskDomain :: bytes where "pskDomain = bytes_of ''OPL2-WG-PSK''"

definition errProtocol :: goerror where
  "errProtocol = ErrTag PairErrProtocol"

definition validName :: "string \<Rightarrow> bool" where
  "validName name \<longleftrightarrow> utf8_valid name \<and> length name \<le> MaxNameBytes \<and> printable name"

definition validUID :: "string \<Rightarrow> bool" where
  "validUID value \<longleftrightarrow> value = trim_space value \<and> utf8_valid value \<and> 8 \<le> length value
     \<and> length value \<le> 31 \<and> printable value"

lemma validUID_visible: "visible v \<Longrightarrow> 8 \<le> length v \<Longrightarrow> length v \<le> 31 \<Longrightarrow> validUID v"
  by (simp add: validUID_def visible_text)

lemma validName_visible: "visible v \<Longrightarrow> length v \<le> 64 \<Longrightarrow> validName v"
  by (simp add: validName_def MaxNameBytes_def visible_text)

definition validAuthKey :: "bytes \<Rightarrow> bool" where
  "validAuthKey value \<longleftrightarrow> (length value = 12 \<or> length value = 32) \<and> \<not> isZero value"

definition validFrameType :: "byte \<Rightarrow> bool" where
  "validFrameType value \<longleftrightarrow> FrameServerChallenge \<le> value \<and> value \<le> FrameDeviceSnapshot"

definition ValidFailureStatus :: "byte \<Rightarrow> bool" where
  "ValidFailureStatus value \<longleftrightarrow> StatusAuthFailed \<le> value \<and> value \<le> StatusMemberDisabled"

definition len_byte :: "string \<Rightarrow> byte" where
  "len_byte s = of_nat (length (bytes_of s))"

section \<open>Server challenge\<close>

record ServerChallenge =
  sc_Version :: byte
  sc_ServerNonce :: arr32
  sc_HostPublicKey :: arr32

text \<open>The reader of random bytes gives the 32 bytes of the nonce or an error.\<close>

definition NewServerChallenge :: "arr32 \<Rightarrow> arr32 result \<Rightarrow> ServerChallenge result" where
  "NewServerChallenge hostPublicKey random =
     (if isZero (be_bytes hostPublicKey) then Inl errProtocol
      else
        (case random of
           Inl e \<Rightarrow> Inl e
         | Inr nonce \<Rightarrow> Inr \<lparr>sc_Version = ProtocolVersion, sc_ServerNonce = nonce,
                             sc_HostPublicKey = hostPublicKey\<rparr>))"

definition marshalChallenge :: "ServerChallenge \<Rightarrow> bytes" where
  "marshalChallenge v = [sc_Version v] @ be_bytes (sc_ServerNonce v) @ be_bytes (sc_HostPublicKey v)"

definition ParseServerChallenge :: "bytes \<Rightarrow> ServerChallenge result" where
  "ParseServerChallenge b =
     (if length b \<noteq> 65 \<or> b ! 0 \<noteq> ProtocolVersion \<or> isZero (drop 33 b) then Inl errProtocol
      else Inr \<lparr>sc_Version = b ! 0, sc_ServerNonce = be_word (subslice 1 33 b),
                sc_HostPublicKey = be_word (drop 33 b)\<rparr>)"

section \<open>Client request\<close>

record ClientRequest =
  cr_ClientNonce :: arr32
  cr_ClientPublicKey :: arr32
  cr_UID :: string
  cr_Name :: string
  cr_MAC :: arr32

text \<open>What \<open>requestMAC\<close> writes to the hash.\<close>

definition requestMessage :: "ServerChallenge \<Rightarrow> ClientRequest \<Rightarrow> bytes" where
  "requestMessage challenge request =
     requestDomain @ [sc_Version challenge] @ be_bytes (sc_ServerNonce challenge)
       @ be_bytes (cr_ClientNonce request) @ be_bytes (sc_HostPublicKey challenge)
       @ be_bytes (cr_ClientPublicKey request)
       @ [len_byte (cr_UID request)] @ bytes_of (cr_UID request)
       @ [len_byte (cr_Name request)] @ bytes_of (cr_Name request)"

definition requestMAC :: "ServerChallenge \<Rightarrow> ClientRequest \<Rightarrow> bytes \<Rightarrow> arr32" where
  "requestMAC challenge request authKey = hmac_sha256 authKey (requestMessage challenge request)"

definition newClientRequest ::
  "ServerChallenge \<Rightarrow> arr32 \<Rightarrow> string \<Rightarrow> string \<Rightarrow> bytes \<Rightarrow> arr32 result \<Rightarrow> ClientRequest result" where
  "newClientRequest challenge clientPublicKey uid name authKey random =
     (if (uid \<noteq> '''' \<and> \<not> validUID uid) \<or> \<not> validName name \<or> \<not> validAuthKey authKey
         \<or> isZero (be_bytes clientPublicKey) \<or> sc_Version challenge \<noteq> ProtocolVersion
         \<or> isZero (be_bytes (sc_HostPublicKey challenge))
      then Inl errProtocol
      else
        (case random of
           Inl e \<Rightarrow> Inl e
         | Inr nonce \<Rightarrow>
             (let v = \<lparr>cr_ClientNonce = nonce, cr_ClientPublicKey = clientPublicKey, cr_UID = uid,
                       cr_Name = name, cr_MAC = 0\<rparr>
              in Inr (v\<lparr>cr_MAC := requestMAC challenge v authKey\<rparr>))))"

definition marshalRequest :: "ClientRequest \<Rightarrow> bytes result" where
  "marshalRequest v =
     (if (cr_UID v \<noteq> '''' \<and> \<not> validUID (cr_UID v)) \<or> \<not> validName (cr_Name v)
         \<or> isZero (be_bytes (cr_ClientPublicKey v))
      then Inl errProtocol
      else Inr (be_bytes (cr_ClientNonce v) @ be_bytes (cr_ClientPublicKey v)
             @ [len_byte (cr_UID v)] @ bytes_of (cr_UID v)
             @ [len_byte (cr_Name v)] @ bytes_of (cr_Name v) @ be_bytes (cr_MAC v)))"

definition ParseClientRequest :: "bytes \<Rightarrow> ClientRequest result" where
  "ParseClientRequest b =
     (if length b < 98 then Inl errProtocol
      else
        (let uidLength = unat (b ! 64) in
         if uidLength > MaxUIDBytes \<or> length b < 98 + uidLength then Inl errProtocol
         else
           (let nameLength = unat (b ! (65 + uidLength)) in
            if nameLength > MaxNameBytes \<or> length b \<noteq> 98 + uidLength + nameLength then Inl errProtocol
            else
              (let v = \<lparr>cr_ClientNonce = be_word (take 32 b), cr_ClientPublicKey = be_word (subslice 32 64 b),
                        cr_UID = string_of (subslice 65 (65 + uidLength) b),
                        cr_Name = string_of (subslice (66 + uidLength) (66 + uidLength + nameLength) b),
                        cr_MAC = be_word (drop (66 + uidLength + nameLength) b)\<rparr>
               in if (cr_UID v \<noteq> '''' \<and> \<not> validUID (cr_UID v)) \<or> \<not> validName (cr_Name v)
                     \<or> isZero (be_bytes (cr_ClientPublicKey v))
                  then Inl errProtocol else Inr v))))"

definition verifyClientRequest :: "ServerChallenge \<Rightarrow> ClientRequest \<Rightarrow> bytes \<Rightarrow> bool" where
  "verifyClientRequest challenge request authKey =
     (if sc_Version challenge \<noteq> ProtocolVersion \<or> isZero (be_bytes (sc_HostPublicKey challenge))
         \<or> isZero (be_bytes (cr_ClientPublicKey request))
         \<or> (cr_UID request \<noteq> '''' \<and> \<not> validUID (cr_UID request)) \<or> \<not> validAuthKey authKey
         \<or> \<not> validName (cr_Name request)
      then False
      else requestMAC challenge request authKey = cr_MAC request)"

section \<open>Pair result, acknowledgement, pre-shared key\<close>

record PairResult =
  pr_Status :: byte
  pr_AssignedIP :: addr
  pr_PrefixLength :: byte
  pr_WireGuardPort :: u16
  pr_DiscoveryRelayPort :: u16
  pr_HostPublicKey :: arr32
  pr_LeaseRevision :: u64
  pr_MAC :: arr32

definition resultWithoutMAC :: "PairResult \<Rightarrow> bytes" where
  "resultWithoutMAC v =
     [pr_Status v] @ (if Is4 (pr_AssignedIP v) then As4 (pr_AssignedIP v) else [0, 0, 0, 0])
       @ [pr_PrefixLength v] @ be_bytes (pr_WireGuardPort v) @ be_bytes (pr_DiscoveryRelayPort v)
       @ be_bytes (pr_HostPublicKey v) @ be_bytes (pr_LeaseRevision v)"

text \<open>
  \<open>requestBytes, _ := request.MarshalBinary()\<close>: the bytes are nil when the request is malformed.
\<close>

definition resultMAC :: "ServerChallenge \<Rightarrow> ClientRequest \<Rightarrow> PairResult \<Rightarrow> bytes \<Rightarrow> arr32" where
  "resultMAC challenge request result authKey =
     (let requestBytes = (case marshalRequest request of Inl _ \<Rightarrow> [] | Inr b \<Rightarrow> b);
          transcript = Sum256 (marshalChallenge challenge @ requestBytes)
      in hmac_sha256 authKey (resultDomain @ be_bytes transcript @ resultWithoutMAC result))"

definition newPairResult ::
  "ServerChallenge \<Rightarrow> ClientRequest \<Rightarrow> addr \<Rightarrow> byte \<Rightarrow> u16 \<Rightarrow> u16 \<Rightarrow> u64 \<Rightarrow> bytes \<Rightarrow> PairResult result" where
  "newPairResult challenge request assignedIP prefix wireGuardPort relayPort rev' authKey =
     (if \<not> Is4 assignedIP \<or> prefix > 32 \<or> wireGuardPort = 0 \<or> relayPort = 0 \<or> \<not> validAuthKey authKey
      then Inl errProtocol
      else
        (let v = \<lparr>pr_Status = StatusOK, pr_AssignedIP = assignedIP, pr_PrefixLength = prefix,
                  pr_WireGuardPort = wireGuardPort, pr_DiscoveryRelayPort = relayPort,
                  pr_HostPublicKey = sc_HostPublicKey challenge, pr_LeaseRevision = rev', pr_MAC = 0\<rparr>
         in Inr (v\<lparr>pr_MAC := resultMAC challenge request v authKey\<rparr>)))"

definition marshalResult :: "PairResult \<Rightarrow> bytes result" where
  "marshalResult v =
     (if \<not> Is4 (pr_AssignedIP v) \<or> pr_PrefixLength v > 32 \<or> pr_WireGuardPort v = 0 \<or> pr_DiscoveryRelayPort v = 0
      then Inl errProtocol
      else Inr ([pr_Status v] @ As4 (pr_AssignedIP v) @ [pr_PrefixLength v] @ be_bytes (pr_WireGuardPort v)
             @ be_bytes (pr_DiscoveryRelayPort v) @ be_bytes (pr_HostPublicKey v)
             @ be_bytes (pr_LeaseRevision v) @ be_bytes (pr_MAC v)))"

definition ParsePairResult :: "bytes \<Rightarrow> PairResult result" where
  "ParsePairResult b =
     (if length b \<noteq> 82 \<or> b ! 0 \<noteq> StatusOK \<or> b ! 5 > 32 then Inl errProtocol
      else
        (let wgPort = be_word (subslice 6 8 b); relayPort = be_word (subslice 8 10 b) in
         if wgPort = 0 \<or> relayPort = 0 then Inl errProtocol
         else Inr \<lparr>pr_Status = b ! 0, pr_AssignedIP = AddrFrom4 (subslice 1 5 b), pr_PrefixLength = b ! 5,
                   pr_WireGuardPort = wgPort, pr_DiscoveryRelayPort = relayPort,
                   pr_HostPublicKey = be_word (subslice 10 42 b),
                   pr_LeaseRevision = be_word (subslice 42 50 b), pr_MAC = be_word (drop 50 b)\<rparr>))"

definition verifyPairResult :: "ServerChallenge \<Rightarrow> ClientRequest \<Rightarrow> PairResult \<Rightarrow> bytes \<Rightarrow> bool" where
  "verifyPairResult challenge request result authKey =
     (if pr_Status result \<noteq> StatusOK \<or> \<not> Is4 (pr_AssignedIP result) \<or> pr_PrefixLength result > 32
         \<or> pr_WireGuardPort result = 0 \<or> pr_DiscoveryRelayPort result = 0
         \<or> pr_HostPublicKey result \<noteq> sc_HostPublicKey challenge \<or> \<not> validAuthKey authKey
      then False
      else resultMAC challenge request result authKey = pr_MAC result)"

definition pairAck :: "bytes \<Rightarrow> u64 \<Rightarrow> arr32" where
  "pairAck authKey rev' = hmac_sha256 authKey (ackDomain @ be_bytes rev')"

definition verifyPairAck :: "bytes \<Rightarrow> u64 \<Rightarrow> arr32 \<Rightarrow> bool" where
  "verifyPairAck authKey rev' mac = (if \<not> validAuthKey authKey then False else pairAck authKey rev' = mac)"

definition DerivePSK :: "arr12 \<Rightarrow> arr32 \<Rightarrow> arr32 \<Rightarrow> arr32" where
  "DerivePSK roomKey hostPublicKey clientPublicKey =
     hmac_sha256 (be_bytes roomKey) (pskDomain @ be_bytes hostPublicKey @ be_bytes clientPublicKey)"

section \<open>Statistics report and device snapshot\<close>

text \<open>\<open>int64\<close> fields are 64-bit words; \<open>sint\<close> reads their sign.\<close>

record StatsReport =
  st_TimestampMS :: u64
  st_UID :: string
  st_RxBytes :: u64
  st_TxBytes :: u64

record Device =
  dv_LatencyMS :: u64
  dv_UID :: string
  dv_VirtualIP :: string
  dv_RxBytes :: u64
  dv_TxBytes :: u64

definition marshalStatsReport :: "StatsReport \<Rightarrow> bytes result" where
  "marshalStatsReport report =
     (if \<not> validUID (st_UID report) then Inl errProtocol
      else Inr ([len_byte (st_UID report)] @ bytes_of (st_UID report) @ be_bytes (st_RxBytes report)
             @ be_bytes (st_TxBytes report) @ be_bytes (st_TimestampMS report)))"

definition parseStatsReport :: "bytes \<Rightarrow> StatsReport result" where
  "parseStatsReport payload =
     (if length payload < 26 then Inl errProtocol
      else
        (let uidLength = unat (payload ! 0) in
         if length payload \<noteq> 25 + uidLength then Inl errProtocol
         else
           (let report = \<lparr>st_TimestampMS = be_word (subslice (17 + uidLength) (25 + uidLength) payload),
                          st_UID = string_of (subslice 1 (1 + uidLength) payload),
                          st_RxBytes = be_word (subslice (1 + uidLength) (9 + uidLength) payload),
                          st_TxBytes = be_word (subslice (9 + uidLength) (17 + uidLength) payload)\<rparr>
            in if \<not> validUID (st_UID report) then Inl errProtocol else Inr report)))"

text \<open>
  One entry of \<open>marshalDevices\<close>; \<open>netip.MustParseAddr(..).As4()\<close> panics unless the address is IPv4,
  which the addresses the server stores are.
\<close>

definition device_entry :: "Device \<Rightarrow> bytes" where
  "device_entry device =
     [len_byte (dv_UID device)] @ bytes_of (dv_UID device)
       @ (case ParseAddr (dv_VirtualIP device) of None \<Rightarrow> [] | Some ip \<Rightarrow> As4 ip)
       @ be_bytes (dv_RxBytes device) @ be_bytes (dv_TxBytes device) @ be_bytes (dv_LatencyMS device)"

definition marshalDevices :: "Device list \<Rightarrow> bytes" where
  "marshalDevices devices = be_bytes (of_nat (length devices) :: u16) @ concat (map device_entry devices)"

text \<open>The loop of \<open>parseDevices\<close>: \<open>count\<close> entries are read, and nothing may be left over.\<close>

fun parse_entries :: "nat \<Rightarrow> bytes \<Rightarrow> Device list result" where
  "parse_entries 0 rest = (if rest = [] then Inr [] else Inl errProtocol)"
| "parse_entries (Suc count) rest =
     (case rest of
        [] \<Rightarrow> Inl errProtocol
      | l # _ \<Rightarrow>
          (let uidLength = unat l in
           if 29 + uidLength > length rest then Inl errProtocol
           else
             (let uid = string_of (subslice 1 (1 + uidLength) rest) in
              if \<not> validUID uid then Inl errProtocol
              else
                (let ip = AddrFrom4 (subslice (1 + uidLength) (5 + uidLength) rest);
                     device = \<lparr>dv_LatencyMS = be_word (subslice (21 + uidLength) (29 + uidLength) rest),
                       dv_UID = uid, dv_VirtualIP = addr_string ip,
                       dv_RxBytes = be_word (subslice (5 + uidLength) (13 + uidLength) rest),
                       dv_TxBytes = be_word (subslice (13 + uidLength) (21 + uidLength) rest)\<rparr>
                 in bind_result (parse_entries count (drop (29 + uidLength) rest)) (\<lambda>ds. Inr (device # ds))))))"

definition parseDevices :: "bytes \<Rightarrow> Device list result" where
  "parseDevices payload =
     (if length payload < 2 then Inl errProtocol
      else
        (let count = unat (be_word (take 2 payload) :: u16) in
         if count > maxDevices then Inl errProtocol else parse_entries count (drop 2 payload)))"

section \<open>Frames\<close>

text \<open>
  An \<open>io.Writer\<close> is what it has taken so far and how it answers the next calls: how many bytes it
  takes and its error. Without an answer left it takes everything.
\<close>

record writer =
  w_out :: bytes
  w_script :: "(nat \<times> goerror option) list"

fun writeAll :: "(nat \<times> goerror option) list \<Rightarrow> bytes \<Rightarrow> bytes \<Rightarrow> goerror option \<times> writer" where
  "writeAll [] out value = (None, \<lparr>w_out = out @ value, w_script = []\<rparr>)"
| "writeAll ((n, err) # script) out value =
     (if value = [] then (None, \<lparr>w_out = out, w_script = (n, err) # script\<rparr>)
      else
        (let out' = out @ take n value in
         (case err of
            Some e \<Rightarrow> (Some e, \<lparr>w_out = out', w_script = script\<rparr>)
          | None \<Rightarrow>
              if n = 0 then (Some (ErrTag IoErrShortWrite), \<lparr>w_out = out', w_script = script\<rparr>)
              else writeAll script out' (drop n value))))"

definition WriteFrame :: "writer \<Rightarrow> byte \<Rightarrow> bytes \<Rightarrow> goerror option \<times> writer" where
  "WriteFrame w frameType payload =
     (let l = 1 + length payload in
      if \<not> validFrameType frameType \<or> l > MaxFrameBytes then (Some errProtocol, w)
      else
        (let header = be_bytes (of_nat l :: u32) @ [frameType];
             (err, w') = writeAll (w_script w) (w_out w) header
         in (case err of
               Some e \<Rightarrow> (Some e, w')
             | None \<Rightarrow> writeAll (w_script w') (w_out w') payload)))"

text \<open>
  An \<open>io.Reader\<close> is the bytes it still delivers and the error after them. \<open>io.ReadFull\<close> turns an
  end of file in the middle into \<open>ErrUnexpectedEOF\<close>.
\<close>

record reader =
  r_data :: bytes
  r_end :: goerror

definition ReadFull :: "nat \<Rightarrow> reader \<Rightarrow> bytes result \<times> reader" where
  "ReadFull n r =
     (if n \<le> length (r_data r) then (Inr (take n (r_data r)), r\<lparr>r_data := drop n (r_data r)\<rparr>)
      else if r_data r = [] then (Inl (r_end r), r)
      else (Inl (if r_end r = ErrTag IoEOF then ErrTag IoErrUnexpectedEOF else r_end r), r\<lparr>r_data := []\<rparr>))"

definition ReadFrame :: "reader \<Rightarrow> (byte \<times> bytes) result \<times> reader" where
  "ReadFrame r =
     (let (size, r1) = ReadFull 4 r in
      (case size of
         Inl e \<Rightarrow> (Inl e, r1)
       | Inr s \<Rightarrow>
           (let l = unat (be_word s :: u32) in
            if l = 0 \<or> l > MaxFrameBytes then (Inl errProtocol, r1)
            else
              (let (body, r2) = ReadFull l r1 in
               (case body of
                  Inl e \<Rightarrow> (Inl e, r2)
                | Inr b \<Rightarrow> if \<not> validFrameType (b ! 0) then (Inl errProtocol, r2) else (Inr (b ! 0, drop 1 b), r2))))))"

end
