(* ===== verification/Pairing_Codec.thy ===== *)
theory Pairing_Codec
  imports Pairing_Wire
begin

text \<open>
  The laws of the pairing messages: every message format is a canonical codec, the constructors make
  messages their verifiers accept, and the inputs of the MACs determine the messages they protect.
\<close>

section \<open>Length bytes\<close>

lemma unat_len_byte: "length s < 256 \<Longrightarrow> unat (len_byte s) = length s"
  by (simp add: len_byte_def unat_byte_of_nat)

lemma validUID_length: "validUID s \<Longrightarrow> 8 \<le> length s \<and> length s \<le> 31"
  by (simp add: validUID_def)

lemma validName_length: "validName s \<Longrightarrow> length s \<le> 64"
  by (simp add: validName_def MaxNameBytes_def)

lemma not_validUID_Nil [simp]: "\<not> validUID ''''"
  by (simp add: validUID_def)

lemma len_byte_eq: "unat b = length bs \<Longrightarrow> len_byte (string_of bs) = b"
  unfolding len_byte_def length_bytes_of length_string_of by (rule of_nat_byte_unat) simp

section \<open>The server challenge\<close>

definition challenge_ok :: "ServerChallenge \<Rightarrow> bool" where
  "challenge_ok c \<longleftrightarrow> sc_Version c = ProtocolVersion \<and> sc_HostPublicKey c \<noteq> 0"

lemma ParseServerChallenge_marshal: "challenge_ok c \<Longrightarrow> ParseServerChallenge (marshalChallenge c) = Inr c"
  by (simp add: ParseServerChallenge_def marshalChallenge_def challenge_ok_def subslice_def)

lemma ParseServerChallenge_form:
  assumes "ParseServerChallenge b = Inr c"
  shows "challenge_ok c \<and> marshalChallenge c = b"
proof -
  from assms have l: "length b = 65" and v: "b ! 0 = ProtocolVersion" and nz: "\<not> isZero (drop 33 b)"
    and c: "c = \<lparr>sc_Version = b ! 0, sc_ServerNonce = be_word (subslice 1 33 b),
                sc_HostPublicKey = be_word (drop 33 b)\<rparr>"
    by (auto simp: ParseServerChallenge_def split: if_splits)
  have k: "be_bytes (be_word (drop 33 b) :: arr32) = drop 33 b"
    using l by (intro be_bytes_be_word_widths(5)) simp
  have n: "be_bytes (be_word (subslice 1 33 b) :: arr32) = subslice 1 33 b"
    using l by (intro be_bytes_be_word_widths(5)) simp
  have "sc_HostPublicKey c \<noteq> 0" using nz isZero_arrays(1) [of "sc_HostPublicKey c"] k c by simp
  moreover have "b = b ! 0 # subslice 1 33 b @ drop 33 b"
    using take_drop_subslice [of 1 33 b] l by (simp add: take_Suc_conv_app_nth)
  ultimately show ?thesis using v k n by (simp add: challenge_ok_def marshalChallenge_def c)
qed

interpretation challenge_codec:
  canonical_codec "\<lambda>c. Inr (marshalChallenge c)" ParseServerChallenge challenge_ok
  by unfold_locales (auto simp: ParseServerChallenge_marshal dest: ParseServerChallenge_form)

lemma NewServerChallenge_ok: "NewServerChallenge key random = Inr c \<Longrightarrow> challenge_ok c"
  by (auto simp: NewServerChallenge_def challenge_ok_def split: if_splits sum.splits)

section \<open>The client request\<close>

definition request_ok :: "ClientRequest \<Rightarrow> bool" where
  "request_ok r \<longleftrightarrow> (cr_UID r = '''' \<or> validUID (cr_UID r)) \<and> validName (cr_Name r) \<and> cr_ClientPublicKey r \<noteq> 0"

lemma request_lengths: "request_ok r \<Longrightarrow> length (cr_UID r) \<le> 31 \<and> length (cr_Name r) \<le> 64"
  by (auto simp: request_ok_def dest: validUID_length validName_length)

lemma marshalRequest_ok: "request_ok r \<longleftrightarrow> (\<exists>b. marshalRequest r = Inr b)"
  by (auto simp: request_ok_def marshalRequest_def)

definition request_bytes :: "ClientRequest \<Rightarrow> bytes" where
  "request_bytes v = be_bytes (cr_ClientNonce v) @ be_bytes (cr_ClientPublicKey v)
     @ [len_byte (cr_UID v)] @ bytes_of (cr_UID v) @ [len_byte (cr_Name v)] @ bytes_of (cr_Name v)
     @ be_bytes (cr_MAC v)"

lemma marshalRequest_bytes: "request_ok r \<Longrightarrow> marshalRequest r = Inr (request_bytes r)"
  by (auto simp: marshalRequest_def request_ok_def request_bytes_def)

lemma ParseClientRequest_bytes:
  assumes ok: "request_ok r"
  shows "ParseClientRequest (request_bytes r) = Inr r"
proof -
  let ?u = "bytes_of (cr_UID r)" and ?n = "bytes_of (cr_Name r)" and ?b = "request_bytes r"
  have lu: "length ?u \<le> 31" and ln: "length ?n \<le> 64" using request_lengths [OF ok] by simp_all
  have U: "unat (?b ! 64) = length ?u"
    using lu by (simp add: request_bytes_def nth_append unat_len_byte)
  have N: "unat (?b ! (65 + length ?u)) = length ?n"
    using ln by (simp add: request_bytes_def nth_append unat_len_byte)
  have L: "length ?b = 98 + length ?u + length ?n" by (simp add: request_bytes_def)
  have S: "take 32 ?b = be_bytes (cr_ClientNonce r)" "subslice 32 64 ?b = be_bytes (cr_ClientPublicKey r)"
    "subslice 65 (65 + length ?u) ?b = ?u"
    "subslice (66 + length ?u) (66 + length ?u + length ?n) ?b = ?n"
    "drop (66 + length ?u + length ?n) ?b = be_bytes (cr_MAC r)"
    by (simp_all add: request_bytes_def subslice_def)
  have "\<not> ((cr_UID r \<noteq> '''' \<and> \<not> validUID (cr_UID r)) \<or> \<not> validName (cr_Name r) \<or> cr_ClientPublicKey r = 0)"
    using ok by (auto simp: request_ok_def)
  then show ?thesis
    unfolding ParseClientRequest_def Let_def U N L S MaxUIDBytes_def MaxNameBytes_def
    using lu ln by simp
qed

lemma ParseClientRequest_form:
  assumes "ParseClientRequest b = Inr r"
  shows "request_ok r \<and> request_bytes r = b"
proof -
  define u where "u = unat (b ! 64)"
  define n where "n = unat (b ! (65 + u))"
  from assms have len: "length b = 98 + u + n"
    and r: "r = \<lparr>cr_ClientNonce = be_word (take 32 b), cr_ClientPublicKey = be_word (subslice 32 64 b),
                 cr_UID = string_of (subslice 65 (65 + u) b),
                 cr_Name = string_of (subslice (66 + u) (66 + u + n) b),
                 cr_MAC = be_word (drop (66 + u + n) b)\<rparr>"
    and ok: "\<not> ((cr_UID r \<noteq> '''' \<and> \<not> validUID (cr_UID r)) \<or> \<not> validName (cr_Name r)
                  \<or> isZero (be_bytes (cr_ClientPublicKey r)))"
    by (auto simp: ParseClientRequest_def Let_def u_def n_def split: if_splits)
  have w: "be_bytes (be_word (take 32 b) :: arr32) = take 32 b"
    "be_bytes (be_word (subslice 32 64 b) :: arr32) = subslice 32 64 b"
    "be_bytes (be_word (drop (66 + u + n) b) :: arr32) = drop (66 + u + n) b"
    using len by (auto intro!: be_bytes_be_word_widths(5))
  have l: "len_byte (string_of (subslice 65 (65 + u) b)) = b ! 64"
    "len_byte (string_of (subslice (66 + u) (66 + u + n) b)) = b ! (65 + u)"
    using len by (auto intro!: len_byte_eq simp: u_def n_def)
  have "request_bytes r = take 32 b @ subslice 32 64 b @ (b ! 64 # subslice 65 (65 + u) b)
      @ (b ! (65 + u) # subslice (66 + u) (66 + u + n) b) @ drop (66 + u + n) b"
    by (simp add: request_bytes_def r w l)
  also have "b ! (65 + u) # subslice (66 + u) (66 + u + n) b = subslice (65 + u) (66 + u + n) b"
    using subslice_Cons_nth [of "65 + u" "66 + u + n" b] len by simp
  also have "b ! 64 # subslice 65 (65 + u) b = subslice 64 (65 + u) b"
    using subslice_Cons_nth [of "64" "65 + u" b] len by simp
  also have "take 32 b = subslice 0 32 b" by (simp add: subslice_def)
  also have "subslice 0 32 b @ subslice 32 64 b @ subslice 64 (65 + u) b
      @ subslice (65 + u) (66 + u + n) b @ drop (66 + u + n) b
      = (((subslice 0 32 b @ subslice 32 64 b) @ subslice 64 (65 + u) b)
         @ subslice (65 + u) (66 + u + n) b) @ drop (66 + u + n) b" by simp
  also have "\<dots> = subslice 0 (66 + u + n) b @ drop (66 + u + n) b"
    by (simp add: subslice_join)
  also have "\<dots> = b" by (simp add: subslice_def)
  finally show ?thesis using ok by (auto simp: request_ok_def)
qed

interpretation request_codec: canonical_codec marshalRequest ParseClientRequest request_ok
  by unfold_locales
    (auto simp: marshalRequest_bytes ParseClientRequest_bytes dest: ParseClientRequest_form)

lemma newClientRequest_ok: "newClientRequest c key uid name authKey random = Inr r \<Longrightarrow> request_ok r"
  by (auto simp: newClientRequest_def request_ok_def Let_def split: if_splits sum.splits)

lemma requestMAC_update [simp]: "requestMAC c (r\<lparr>cr_MAC := m\<rparr>) k = requestMAC c r k"
  by (simp add: requestMAC_def requestMessage_def)

lemma newClientRequest_verifies:
  "newClientRequest c key uid name authKey random = Inr r \<Longrightarrow> verifyClientRequest c r authKey"
  by (auto simp: newClientRequest_def verifyClientRequest_def requestMAC_def requestMessage_def Let_def
      split: if_splits sum.splits)

section \<open>What the request MAC covers\<close>

lemma string_field_split:
  assumes "length s < 256" "length t < 256"
    and "[len_byte s] @ bytes_of s @ x = [len_byte t] @ bytes_of t @ y"
  shows "s = t \<and> x = y"
proof -
  have "unat (len_byte s) = unat (len_byte t)" using assms(3) by simp
  then have "length (bytes_of s) = length (bytes_of t)" using assms(1,2) by (simp add: unat_len_byte)
  with assms(3) show ?thesis by simp
qed

lemma requestMessage_inj:
  assumes "request_ok r" "request_ok r'" and eq: "requestMessage c r = requestMessage c' r'"
  shows "c = c' \<and> r\<lparr>cr_MAC := 0\<rparr> = r'\<lparr>cr_MAC := 0\<rparr>"
proof -
  note l = request_lengths [OF assms(1)] request_lengths [OF assms(2)]
  from eq have v: "sc_Version c = sc_Version c'" "sc_ServerNonce c = sc_ServerNonce c'"
    "cr_ClientNonce r = cr_ClientNonce r'" "sc_HostPublicKey c = sc_HostPublicKey c'"
    "cr_ClientPublicKey r = cr_ClientPublicKey r'"
    and s: "[len_byte (cr_UID r)] @ bytes_of (cr_UID r) @ [len_byte (cr_Name r)] @ bytes_of (cr_Name r) @ []
      = [len_byte (cr_UID r')] @ bytes_of (cr_UID r') @ [len_byte (cr_Name r')] @ bytes_of (cr_Name r') @ []"
    by (simp_all add: requestMessage_def)
  have lens: "length (cr_UID r) < 256" "length (cr_UID r') < 256" "length (cr_Name r) < 256" "length (cr_Name r') < 256"
    using l by linarith+
  note U = string_field_split [OF lens(1,2) s]
  note N = string_field_split [OF lens(3,4) conjunct2 [OF U]]
  have "cr_UID r = cr_UID r'" "cr_Name r = cr_Name r'" using U N by blast+
  with v show ?thesis by (auto intro!: ServerChallenge.equality ClientRequest.equality)
qed

lemma domains_differ:
  "requestDomain @ x \<noteq> resultDomain @ y" "requestDomain @ x \<noteq> ackDomain @ y"
  "requestDomain @ x \<noteq> pskDomain @ y" "resultDomain @ x \<noteq> ackDomain @ y"
  "resultDomain @ x \<noteq> pskDomain @ y" "ackDomain @ x \<noteq> pskDomain @ y"
  by (simp_all add: requestDomain_def resultDomain_def ackDomain_def pskDomain_def bytes_of_def)

section \<open>The pair result\<close>

definition result_ok :: "PairResult \<Rightarrow> bool" where
  "result_ok v \<longleftrightarrow> pr_Status v = StatusOK \<and> Is4 (pr_AssignedIP v) \<and> pr_PrefixLength v \<le> 32
     \<and> pr_WireGuardPort v \<noteq> 0 \<and> pr_DiscoveryRelayPort v \<noteq> 0"

definition result_bytes :: "PairResult \<Rightarrow> bytes" where
  "result_bytes v = [pr_Status v] @ As4 (pr_AssignedIP v) @ [pr_PrefixLength v] @ be_bytes (pr_WireGuardPort v)
     @ be_bytes (pr_DiscoveryRelayPort v) @ be_bytes (pr_HostPublicKey v) @ be_bytes (pr_LeaseRevision v)
     @ be_bytes (pr_MAC v)"

lemma marshalResult_bytes: "result_ok v \<Longrightarrow> marshalResult v = Inr (result_bytes v)"
  by (auto simp: marshalResult_def result_ok_def result_bytes_def not_less)

lemma ParsePairResult_bytes:
  assumes "result_ok v"
  shows "ParsePairResult (result_bytes v) = Inr v"
proof -
  let ?b = "result_bytes v"
  from assms have ip: "Is4 (pr_AssignedIP v)" and
    ok: "pr_Status v = StatusOK" "\<not> pr_PrefixLength v > 32" "pr_WireGuardPort v \<noteq> 0" "pr_DiscoveryRelayPort v \<noteq> 0"
    by (auto simp: result_ok_def)
  have l: "length (As4 (pr_AssignedIP v)) = 4" using ip by simp
  have S: "length ?b = 82" "?b ! 0 = pr_Status v" "?b ! 5 = pr_PrefixLength v"
    "subslice 1 5 ?b = As4 (pr_AssignedIP v)" "subslice 6 8 ?b = be_bytes (pr_WireGuardPort v)"
    "subslice 8 10 ?b = be_bytes (pr_DiscoveryRelayPort v)" "subslice 10 42 ?b = be_bytes (pr_HostPublicKey v)"
    "subslice 42 50 ?b = be_bytes (pr_LeaseRevision v)" "drop 50 ?b = be_bytes (pr_MAC v)"
    using l by (simp_all add: result_bytes_def subslice_def nth_append)
  show ?thesis unfolding ParsePairResult_def Let_def S using ok ip by simp
qed

lemma ParsePairResult_form:
  assumes "ParsePairResult b = Inr v"
  shows "result_ok v \<and> result_bytes v = b"
proof -
  from assms have len: "length b = 82" and h: "b ! 0 = StatusOK" "\<not> b ! 5 > 32"
    and nz: "be_word (subslice 6 8 b) \<noteq> (0 :: u16)" "be_word (subslice 8 10 b) \<noteq> (0 :: u16)"
    and v: "v = \<lparr>pr_Status = b ! 0, pr_AssignedIP = AddrFrom4 (subslice 1 5 b), pr_PrefixLength = b ! 5,
                 pr_WireGuardPort = be_word (subslice 6 8 b), pr_DiscoveryRelayPort = be_word (subslice 8 10 b),
                 pr_HostPublicKey = be_word (subslice 10 42 b),
                 pr_LeaseRevision = be_word (subslice 42 50 b), pr_MAC = be_word (drop 50 b)\<rparr>"
    by (auto simp: ParsePairResult_def Let_def split: if_splits)
  have w: "be_bytes (be_word (subslice 6 8 b) :: u16) = subslice 6 8 b"
    "be_bytes (be_word (subslice 8 10 b) :: u16) = subslice 8 10 b"
    "be_bytes (be_word (subslice 10 42 b) :: arr32) = subslice 10 42 b"
    "be_bytes (be_word (subslice 42 50 b) :: u64) = subslice 42 50 b"
    "be_bytes (be_word (drop 50 b) :: arr32) = drop 50 b"
    "As4 (AddrFrom4 (subslice 1 5 b)) = subslice 1 5 b"
    by (rule be_bytes_be_word_widths As4_AddrFrom4, simp add: len)+
  have "result_bytes v = [b ! 0] @ subslice 1 5 b @ [b ! 5] @ subslice 6 8 b @ subslice 8 10 b
      @ subslice 10 42 b @ subslice 42 50 b @ drop 50 b"
    by (simp add: result_bytes_def v w [unfolded One_nat_def])
  also have "[b ! 0] = subslice 0 1 b" using len by (simp add: subslice_def take_Suc_conv_app_nth)
  also have "[b ! 5] = subslice 5 6 b"
    using subslice_Cons_nth [of 5 6 b] len by (simp add: subslice_def)
  also have "subslice 0 1 b @ subslice 1 5 b @ subslice 5 6 b @ subslice 6 8 b @ subslice 8 10 b
      @ subslice 10 42 b @ subslice 42 50 b @ drop 50 b
      = ((((((subslice 0 1 b @ subslice 1 5 b) @ subslice 5 6 b) @ subslice 6 8 b) @ subslice 8 10 b)
      @ subslice 10 42 b) @ subslice 42 50 b) @ drop 50 b" by simp
  also have "\<dots> = b" by (simp only: subslice_join) (simp add: subslice_def subslice_join)
  finally show ?thesis using h nz by (simp add: result_ok_def v not_less)
qed

interpretation result_codec: canonical_codec marshalResult ParsePairResult result_ok
  by unfold_locales (auto simp: marshalResult_bytes ParsePairResult_bytes dest: ParsePairResult_form)

lemma resultMAC_update [simp]: "resultMAC c r (v\<lparr>pr_MAC := m\<rparr>) k = resultMAC c r v k"
  by (simp add: resultMAC_def resultWithoutMAC_def)

lemma newPairResult_ok: "newPairResult c r ip p wg relay rev' k = Inr v \<Longrightarrow> result_ok v"
  by (auto simp: newPairResult_def result_ok_def Let_def not_less split: if_splits)

lemma newPairResult_verifies:
  "newPairResult c r ip p wg relay rev' k = Inr v \<Longrightarrow> verifyPairResult c r v k"
  by (auto simp: newPairResult_def verifyPairResult_def Let_def resultMAC_def resultWithoutMAC_def
      split: if_splits)

lemma resultWithoutMAC_inj:
  assumes "result_ok v" "result_ok v'" and eq: "resultWithoutMAC v = resultWithoutMAC v'"
  shows "v\<lparr>pr_MAC := 0\<rparr> = v'\<lparr>pr_MAC := 0\<rparr>"
proof -
  have "As4 (pr_AssignedIP v) = As4 (pr_AssignedIP v')" "pr_Status v = pr_Status v'"
    "pr_PrefixLength v = pr_PrefixLength v'" "pr_WireGuardPort v = pr_WireGuardPort v'"
    "pr_DiscoveryRelayPort v = pr_DiscoveryRelayPort v'" "pr_HostPublicKey v = pr_HostPublicKey v'"
    "pr_LeaseRevision v = pr_LeaseRevision v'"
    using eq assms(1,2) by (simp_all add: resultWithoutMAC_def result_ok_def)
  moreover have "pr_AssignedIP v = pr_AssignedIP v'"
    using calculation(1) assms(1,2) by (metis AddrFrom4_As4 result_ok_def)
  ultimately show ?thesis by (cases v; cases v') simp
qed

end
