(* ===== verification/Pairing_Stream.thy ===== *)
theory Pairing_Stream
  imports Pairing_Codec
begin

text \<open>
  The laws of the traffic after the handshake: the statistics report and the device snapshot round
  trip, and the frames carry a message through a byte stream unchanged.
\<close>

section \<open>The statistics report\<close>

definition stats_bytes :: "StatsReport \<Rightarrow> bytes" where
  "stats_bytes r = [len_byte (st_UID r)] @ bytes_of (st_UID r) @ be_bytes (st_RxBytes r)
     @ be_bytes (st_TxBytes r) @ be_bytes (st_TimestampMS r)"

definition stats_ok :: "StatsReport \<Rightarrow> bool" where
  "stats_ok r \<longleftrightarrow> validUID (st_UID r)"

lemma marshalStatsReport_bytes: "stats_ok r \<Longrightarrow> marshalStatsReport r = Inr (stats_bytes r)"
  by (simp add: marshalStatsReport_def stats_ok_def stats_bytes_def)

lemma parseStatsReport_bytes:
  assumes "stats_ok r"
  shows "parseStatsReport (stats_bytes r) = Inr r"
proof -
  let ?u = "bytes_of (st_UID r)" and ?b = "stats_bytes r"
  have l: "8 \<le> length ?u" "length ?u \<le> 31"
    using validUID_length assms by (auto simp: stats_ok_def)
  have U: "unat (?b ! 0) = length ?u" using l by (simp add: stats_bytes_def unat_len_byte)
  have L: "length ?b = 25 + length ?u" by (simp add: stats_bytes_def)
  have S: "subslice (17 + length ?u) (25 + length ?u) ?b = be_bytes (st_TimestampMS r)"
    "subslice 1 (1 + length ?u) ?b = ?u"
    "subslice (1 + length ?u) (9 + length ?u) ?b = be_bytes (st_RxBytes r)"
    "subslice (9 + length ?u) (17 + length ?u) ?b = be_bytes (st_TxBytes r)"
    by (simp_all add: stats_bytes_def subslice_def drop_Cons')
  have "st_UID r \<noteq> []" using l by auto
  then show ?thesis unfolding parseStatsReport_def Let_def U L S
    using assms l by (simp add: stats_ok_def)
qed

lemma parseStatsReport_form:
  assumes "parseStatsReport b = Inr r"
  shows "stats_ok r \<and> stats_bytes r = b"
proof -
  define u where "u = unat (b ! 0)"
  from assms have len: "length b = 25 + u"
    and r: "r = \<lparr>st_TimestampMS = be_word (subslice (17 + u) (25 + u) b), st_UID = string_of (subslice 1 (1 + u) b),
                 st_RxBytes = be_word (subslice (1 + u) (9 + u) b), st_TxBytes = be_word (subslice (9 + u) (17 + u) b)\<rparr>"
    and ok: "validUID (st_UID r)"
    by (auto simp: parseStatsReport_def Let_def u_def split: if_splits)
  have w: "be_bytes (be_word (subslice (17 + u) (25 + u) b) :: u64) = subslice (17 + u) (25 + u) b"
    "be_bytes (be_word (subslice (1 + u) (9 + u) b) :: u64) = subslice (1 + u) (9 + u) b"
    "be_bytes (be_word (subslice (9 + u) (17 + u) b) :: u64) = subslice (9 + u) (17 + u) b"
    "len_byte (string_of (subslice 1 (1 + u) b)) = b ! 0"
    by (rule be_bytes_be_word_widths len_byte_eq, simp add: len u_def)+
  have "stats_bytes r = (b ! 0 # subslice 1 (1 + u) b) @ subslice (1 + u) (9 + u) b
      @ subslice (9 + u) (17 + u) b @ subslice (17 + u) (25 + u) b"
    by (simp only: stats_bytes_def r StatsReport.simps w bytes_of_string_of append_Cons append_Nil)
  also have "b ! 0 # subslice 1 (1 + u) b = subslice 0 (1 + u) b"
    using subslice_Cons_nth [of 0 "1 + u" b] len by simp
  also have "subslice 0 (1 + u) b @ subslice (1 + u) (9 + u) b
      @ subslice (9 + u) (17 + u) b @ subslice (17 + u) (25 + u) b
      = ((subslice 0 (1 + u) b @ subslice (1 + u) (9 + u) b)
      @ subslice (9 + u) (17 + u) b) @ subslice (17 + u) (25 + u) b" by simp
  also have "\<dots> = subslice 0 (25 + u) b" by (simp add: subslice_join)
  also have "\<dots> = b" using len by (simp add: subslice_def)
  finally show ?thesis using ok by (simp add: stats_ok_def)
qed

interpretation stats_codec: canonical_codec marshalStatsReport parseStatsReport stats_ok
  by unfold_locales
    (auto simp: marshalStatsReport_bytes parseStatsReport_bytes dest: parseStatsReport_form)

section \<open>The device snapshot\<close>

definition device_ok :: "Device \<Rightarrow> bool" where
  "device_ok d \<longleftrightarrow> validUID (dv_UID d)
     \<and> (case ParseAddr (dv_VirtualIP d) of None \<Rightarrow> False | Some ip \<Rightarrow> Is4 ip \<and> addr_string ip = dv_VirtualIP d)"

definition devices_ok :: "Device list \<Rightarrow> bool" where
  "devices_ok ds \<longleftrightarrow> length ds \<le> maxDevices \<and> (\<forall>d\<in>set ds. device_ok d)"

lemma device_okE:
  assumes "device_ok d"
  obtains ip where "Is4 ip" "dv_VirtualIP d = addr_string ip" "ParseAddr (dv_VirtualIP d) = Some ip"
    "validUID (dv_UID d)" "8 \<le> length (dv_UID d)" "length (dv_UID d) \<le> 31"
  using assms validUID_length [of "dv_UID d"] by (auto simp: device_ok_def split: option.splits)

lemma length_device_entry: "device_ok d \<Longrightarrow> length (device_entry d) = 29 + length (dv_UID d)"
  by (erule device_okE) (simp add: device_entry_def)

lemma parse_entries_Cons:
  assumes "device_ok d"
  shows "parse_entries (Suc n) (device_entry d @ rest) = bind_result (parse_entries n rest) (\<lambda>ds. Inr (d # ds))"
proof -
  from assms obtain ip where ip: "Is4 ip" "dv_VirtualIP d = addr_string ip" "ParseAddr (dv_VirtualIP d) = Some ip"
    and uid: "validUID (dv_UID d)" "8 \<le> length (dv_UID d)" "length (dv_UID d) \<le> 31"
    by (rule device_okE)
  let ?u = "bytes_of (dv_UID d)" and ?b = "device_entry d @ rest"
  have E: "?b = [len_byte (dv_UID d)] @ ?u @ As4 ip @ be_bytes (dv_RxBytes d) @ be_bytes (dv_TxBytes d)
      @ be_bytes (dv_LatencyMS d) @ rest"
    by (simp add: device_entry_def ip)
  have l: "length (As4 ip) = 4" using ip by simp
  have L: "length ?b = 29 + length ?u + length rest" using length_device_entry [OF assms] by simp
  have U: "unat (len_byte (dv_UID d)) = length ?u" using uid by (simp add: unat_len_byte)
  have S: "subslice 1 (1 + length ?u) ?b = ?u" "subslice (1 + length ?u) (5 + length ?u) ?b = As4 ip"
    "subslice (5 + length ?u) (13 + length ?u) ?b = be_bytes (dv_RxBytes d)"
    "subslice (13 + length ?u) (21 + length ?u) ?b = be_bytes (dv_TxBytes d)"
    "subslice (21 + length ?u) (29 + length ?u) ?b = be_bytes (dv_LatencyMS d)"
    "drop (29 + length ?u) ?b = rest"
    unfolding E using l by (simp_all add: subslice_def drop_Cons')
  obtain t where t: "?b = len_byte (dv_UID d) # t" by (simp add: E)
  have "parse_entries (Suc n) (len_byte (dv_UID d) # t) = bind_result (parse_entries n rest) (\<lambda>ds. Inr (d # ds))"
    unfolding parse_entries.simps list.case Let_def U unfolding t [symmetric] L S
    using uid ip by (cases d) (simp flip: ip(2))
  then show ?thesis by (simp only: t)
qed

lemma parse_entries_concat:
  "\<forall>d\<in>set ds. device_ok d \<Longrightarrow> parse_entries (length ds) (concat (map device_entry ds)) = Inr ds"
proof (induction ds)
  case Nil
  then show ?case by simp
next
  case (Cons d ds)
  then show ?case using parse_entries_Cons [of d "length ds" "concat (map device_entry ds)"] by (simp del: parse_entries.simps)
qed

lemma parseDevices_marshal:
  assumes "length ds < 65536" "\<forall>d\<in>set ds. device_ok d"
  shows "parseDevices (marshalDevices ds) =
    (if length ds \<le> maxDevices then Inr ds else Inl errProtocol)"
proof -
  have "unat (of_nat (length ds) :: u16) = length ds" using assms(1) by (simp add: unat_of_nat)
  moreover have "take 2 (marshalDevices ds) = be_bytes (of_nat (length ds) :: u16)"
    "drop 2 (marshalDevices ds) = concat (map device_entry ds)" "\<not> length (marshalDevices ds) < 2"
    by (simp_all add: marshalDevices_def)
  ultimately show ?thesis
    unfolding parseDevices_def Let_def using assms(2)
    by (simp add: parse_entries_concat)
qed

lemma parse_entries_form:
  "parse_entries n b = Inr ds \<Longrightarrow> length ds = n \<and> (\<forall>d\<in>set ds. device_ok d) \<and> concat (map device_entry ds) = b"
proof (induction n arbitrary: b ds)
  case 0
  then show ?case by (simp split: if_splits)
next
  case (Suc n)
  then obtain l t where b: "b = l # t" by (cases b) auto
  define u where "u = unat l"
  let ?d = "\<lparr>dv_LatencyMS = be_word (subslice (21 + u) (29 + u) b), dv_UID = string_of (subslice 1 (1 + u) b),
    dv_VirtualIP = addr_string (AddrFrom4 (subslice (1 + u) (5 + u) b)),
    dv_RxBytes = be_word (subslice (5 + u) (13 + u) b), dv_TxBytes = be_word (subslice (13 + u) (21 + u) b)\<rparr>"
  from Suc.prems obtain ds' where len: "\<not> 29 + u > length b"
    and uid: "validUID (string_of (subslice 1 (1 + u) b))"
    and rest: "parse_entries n (drop (29 + u) b) = Inr ds'" and ds: "ds = ?d # ds'"
    by (auto simp: b u_def Let_def bind_result_Inr split: if_splits)
  have w: "be_bytes (be_word (subslice (21 + u) (29 + u) b) :: u64) = subslice (21 + u) (29 + u) b"
    "be_bytes (be_word (subslice (5 + u) (13 + u) b) :: u64) = subslice (5 + u) (13 + u) b"
    "be_bytes (be_word (subslice (13 + u) (21 + u) b) :: u64) = subslice (13 + u) (21 + u) b"
    "As4 (AddrFrom4 (subslice (1 + u) (5 + u) b)) = subslice (1 + u) (5 + u) b"
    using len by (intro be_bytes_be_word_widths As4_AddrFrom4; simp)+
  have lb: "len_byte (string_of (subslice 1 (1 + u) b)) = b ! 0"
    using len by (intro len_byte_eq) (simp add: b u_def)
  have "device_entry ?d = (b ! 0 # subslice 1 (1 + u) b) @ subslice (1 + u) (5 + u) b
      @ subslice (5 + u) (13 + u) b @ subslice (13 + u) (21 + u) b @ subslice (21 + u) (29 + u) b"
    by (simp only: device_entry_def Device.simps w lb bytes_of_string_of append_Cons append_Nil
        ParseAddr_string [OF Is4_AddrFrom4] option.case)
  also have "b ! 0 # subslice 1 (1 + u) b = subslice 0 (1 + u) b"
    using subslice_Cons_nth [of 0 "1 + u" b] len by (cases b) simp_all
  also have "subslice 0 (1 + u) b @ subslice (1 + u) (5 + u) b
      @ subslice (5 + u) (13 + u) b @ subslice (13 + u) (21 + u) b @ subslice (21 + u) (29 + u) b
      = (((subslice 0 (1 + u) b @ subslice (1 + u) (5 + u) b)
      @ subslice (5 + u) (13 + u) b) @ subslice (13 + u) (21 + u) b) @ subslice (21 + u) (29 + u) b" by simp
  also have "\<dots> = subslice 0 (29 + u) b" by (simp add: subslice_join)
  also have "\<dots> = take (29 + u) b" by (simp add: subslice_def)
  finally have "device_entry ?d @ drop (29 + u) b = b" by simp
  moreover have "device_ok ?d" using uid by (simp add: device_ok_def)
  ultimately show ?case using Suc.IH [OF rest] ds by simp
qed

lemma parseDevices_form:
  assumes "parseDevices b = Inr ds"
  shows "devices_ok ds \<and> marshalDevices ds = b"
proof -
  from assms have l: "\<not> length b < 2" and n: "\<not> unat (be_word (take 2 b) :: u16) > maxDevices"
    and e: "parse_entries (unat (be_word (take 2 b) :: u16)) (drop 2 b) = Inr ds"
    by (auto simp: parseDevices_def Let_def split: if_splits)
  have "(of_nat (length ds) :: u16) = be_word (take 2 b)" using parse_entries_form [OF e] by simp
  moreover have "be_bytes (be_word (take 2 b) :: u16) = take 2 b"
    using l by (intro be_bytes_be_word_widths(1)) simp
  ultimately show ?thesis using parse_entries_form [OF e] n
    by (simp add: devices_ok_def marshalDevices_def)
qed

interpretation devices_codec: canonical_codec "\<lambda>ds. Inr (marshalDevices ds)" parseDevices devices_ok
  by unfold_locales
    (auto simp: devices_ok_def maxDevices_def parseDevices_marshal dest: parseDevices_form)

section \<open>Frames\<close>

text \<open>A script never fails when every call takes at least one byte and returns no error.\<close>

definition script_ok :: "(nat \<times> goerror option) list \<Rightarrow> bool" where
  "script_ok script \<longleftrightarrow> (\<forall>(n, err)\<in>set script. 0 < n \<and> err = None)"

lemma writeAll_prefix:
  "writeAll script out bs = (err, w) \<Longrightarrow> \<exists>k. w_out w = out @ take k bs \<and> (err = None \<longrightarrow> length bs \<le> k)"
proof (induction script out bs rule: writeAll.induct)
  case (1 out bs)
  then show ?case by (auto intro: exI [of _ "length bs"])
next
  case (2 n e script out bs)
  show ?case
  proof (cases "bs = [] \<or> e \<noteq> None \<or> n = 0")
    case True
    with "2.prems" show ?thesis
      by (auto simp: Let_def split: option.splits if_splits intro: exI [of _ n])
  next
    case False
    with "2.prems" have w: "writeAll script (out @ take n bs) (drop n bs) = (err, w)"
      by (simp add: Let_def)
    from "2.IH" [OF _ refl _ _ w] False obtain k where
      "w_out w = (out @ take n bs) @ take k (drop n bs)" "err = None \<longrightarrow> length (drop n bs) \<le> k"
      by auto
    then show ?thesis by (intro exI [of _ "n + k"]) (auto simp: take_add)
  qed
qed

lemma writeAll_ok: "script_ok script \<Longrightarrow> \<exists>s. writeAll script out bs = (None, \<lparr>w_out = out @ bs, w_script = s\<rparr>) \<and> script_ok s"
proof (induction script out bs rule: writeAll.induct)
  case (1 out bs)
  then show ?case by (simp add: script_ok_def)
next
  case (2 n e script out bs)
  then have e: "e = None" "0 < n" "script_ok script" by (auto simp: script_ok_def)
  show ?case
  proof (cases "bs = []")
    case True
    with "2.prems" show ?thesis by simp
  next
    case False
    from "2.IH" [OF False refl _ _ e(3)] e False obtain s where
      "writeAll script (out @ take n bs) (drop n bs)
        = (None, \<lparr>w_out = (out @ take n bs) @ drop n bs, w_script = s\<rparr>) \<and> script_ok s" by auto
    with False e show ?thesis by (simp add: Let_def)
  qed
qed

definition frame_bytes :: "byte \<Rightarrow> bytes \<Rightarrow> bytes" where
  "frame_bytes t payload = be_bytes (of_nat (1 + length payload) :: u32) @ [t] @ payload"

definition frame_ok :: "byte \<Rightarrow> bytes \<Rightarrow> bool" where
  "frame_ok t payload \<longleftrightarrow> validFrameType t \<and> 1 + length payload \<le> MaxFrameBytes"

lemma WriteFrame_ok:
  assumes "frame_ok t payload" "script_ok (w_script w)"
  shows "\<exists>w'. WriteFrame w t payload = (None, w') \<and> w_out w' = w_out w @ frame_bytes t payload \<and> script_ok (w_script w')"
proof -
  let ?h = "be_bytes (of_nat (1 + length payload) :: u32) @ [t]"
  from writeAll_ok [OF assms(2)] obtain s where
    h: "writeAll (w_script w) (w_out w) ?h = (None, \<lparr>w_out = w_out w @ ?h, w_script = s\<rparr>)" "script_ok s" by blast
  from writeAll_ok [OF this(2)] obtain s' where
    p: "writeAll s (w_out w @ ?h) payload = (None, \<lparr>w_out = (w_out w @ ?h) @ payload, w_script = s'\<rparr>)"
    "script_ok s'" by blast
  show ?thesis using assms(1) h p
    unfolding WriteFrame_def Let_def frame_ok_def
    by (simp del: of_nat_Suc of_nat_add add: frame_bytes_def)
qed

lemma WriteFrame_rejects: "\<not> frame_ok t payload \<Longrightarrow> WriteFrame w t payload = (Some errProtocol, w)"
  by (auto simp: frame_ok_def WriteFrame_def Let_def)

lemma WriteFrame_prefix:
  assumes "WriteFrame w t payload = (err, w')"
  shows "\<exists>k. w_out w' = w_out w @ take k (frame_bytes t payload) \<and> (err = None \<longrightarrow> length (frame_bytes t payload) \<le> k)"
proof (cases "frame_ok t payload")
  case False
  then show ?thesis using assms WriteFrame_rejects [OF False, of w] by (auto intro: exI [of _ 0])
next
  case True
  let ?h = "be_bytes (of_nat (1 + length payload) :: u32) @ [t]"
  obtain e1 w1 where h: "writeAll (w_script w) (w_out w) ?h = (e1, w1)" by fastforce
  from writeAll_prefix [OF h] obtain k where k: "w_out w1 = w_out w @ take k ?h" "e1 = None \<longrightarrow> length ?h \<le> k" by blast
  have F: "frame_bytes t payload = ?h @ payload" by (simp add: frame_bytes_def)
  show ?thesis
  proof (cases e1)
    case (Some e)
    with assms True h have "err = Some e" "w' = w1"
      by (auto simp: WriteFrame_def Let_def frame_ok_def simp del: of_nat_Suc of_nat_add)
    moreover have "take (min k (length ?h)) (frame_bytes t payload) = take k ?h"
      unfolding F take_append by (simp add: min_def)
    ultimately show ?thesis using k by (intro exI [of _ "min k (length ?h)"]) simp
  next
    case None
    with assms True h have "writeAll (w_script w1) (w_out w1) payload = (err, w')"
      by (simp add: WriteFrame_def Let_def frame_ok_def del: of_nat_Suc of_nat_add)
    from writeAll_prefix [OF this] obtain j where
      "w_out w' = w_out w1 @ take j payload" "err = None \<longrightarrow> length payload \<le> j" by blast
    then show ?thesis using k None F by (intro exI [of _ "length ?h + j"]) simp
  qed
qed

lemma ReadFull_ok [simp]: "n = length xs \<Longrightarrow>
    ReadFull n \<lparr>r_data = xs @ rest, r_end = e\<rparr> = (Inr xs, \<lparr>r_data = rest, r_end = e\<rparr>)"
  by (simp add: ReadFull_def)

lemma ReadFrame_frame:
  assumes "frame_ok t payload"
  shows "ReadFrame \<lparr>r_data = frame_bytes t payload @ rest, r_end = e\<rparr> = (Inr (t, payload), \<lparr>r_data = rest, r_end = e\<rparr>)"
proof -
  have l: "unat (of_nat (1 + length payload) :: u32) = 1 + length payload"
    using assms by (simp add: frame_ok_def MaxFrameBytes_def unat_of_nat del: of_nat_Suc of_nat_add)
  have r1: "ReadFull 4 \<lparr>r_data = frame_bytes t payload @ rest, r_end = e\<rparr>
      = (Inr (be_bytes (of_nat (1 + length payload) :: u32)), \<lparr>r_data = ([t] @ payload) @ rest, r_end = e\<rparr>)"
    unfolding frame_bytes_def append_assoc by (rule ReadFull_ok) simp
  have r2: "ReadFull (1 + length payload) \<lparr>r_data = ([t] @ payload) @ rest, r_end = e\<rparr>
      = (Inr ([t] @ payload), \<lparr>r_data = rest, r_end = e\<rparr>)"
    by (rule ReadFull_ok) simp
  show ?thesis
    unfolding ReadFrame_def r1 prod.case Let_def sum.case be_word_be_bytes_widths l r2
    using assms by (simp add: frame_ok_def)
qed

text \<open>What \<open>ReadFrame\<close> accepts is what \<open>WriteFrame\<close> writes: the frame it consumed is the frame of its result.\<close>

lemma ReadFrame_form:
  assumes "ReadFrame r = (Inr (t, payload), r')"
  shows "frame_ok t payload \<and> r_data r = frame_bytes t payload @ r_data r' \<and> r_end r' = r_end r"
proof -
  let ?l = "unat (be_word (take 4 (r_data r)) :: u32)"
  let ?b = "take ?l (drop 4 (r_data r))"
  from assms have n4: "4 \<le> length (r_data r)" and l: "?l \<noteq> 0" "?l \<le> MaxFrameBytes"
    and nl: "?l \<le> length (drop 4 (r_data r))" and v: "validFrameType (?b ! 0)"
    and t: "t = ?b ! 0" "payload = drop 1 ?b" and r': "r' = r\<lparr>r_data := drop ?l (drop 4 (r_data r))\<rparr>"
    by (auto simp: ReadFrame_def ReadFull_def Let_def split: if_splits sum.splits prod.splits)
  have b: "[t] @ payload = ?b" using l nl by (cases ?b) (auto simp: t)
  then have "1 + length payload = ?l" using nl by (metis length_append length_Cons list.size(3) length_take min.absorb2 add.commute One_nat_def add_Suc_right)
  then have "(of_nat (1 + length payload) :: u32) = be_word (take 4 (r_data r))"
    by (simp del: of_nat_Suc of_nat_add)
  moreover have "be_bytes (be_word (take 4 (r_data r)) :: u32) = take 4 (r_data r)"
    using n4 by (intro be_bytes_be_word_widths(2)) simp
  ultimately have "frame_bytes t payload = take 4 (r_data r) @ ?b"
    unfolding frame_bytes_def b by simp
  moreover have "frame_ok t payload" using v t l \<open>1 + length payload = ?l\<close> by (simp add: frame_ok_def)
  moreover have "?b @ r_data r' = drop 4 (r_data r)"
    by (simp add: r' del: drop_drop)
  then have "r_data r = take 4 (r_data r) @ ?b @ r_data r'" by simp
  ultimately show ?thesis by (simp add: r')
qed

end
