(* ===== verification/Pairing_Server.thy ===== *)
theory Pairing_Server
  imports Pairing_Stream Complex_Main
begin

text \<open>
  The server of \<open>internal/pairing/network.go\<close>: the rate limiter, the pairing handler up to the
  acknowledgement, the control loop that exchanges statistics for device snapshots, and the
  operations of the room on a running server.

  A handler blocks only while it reads a frame, so it is modelled as the phases it waits in, and one
  step of a connection is what the handler does with the outcome of that read until the next one. The
  callbacks of \<open>ServerConfig\<close> act on a world of type \<open>'w\<close> that the caller of \<open>Listen\<close> supplies.
\<close>

section \<open>The rate limiter\<close>

text \<open>Tokens are \<open>float64\<close> in the source and exact here; times are nanoseconds.\<close>

record rateLimiter =
  rl_tokens :: rat
  rl_last :: int

definition allow :: "int \<Rightarrow> rateLimiter \<Rightarrow> bool \<times> rateLimiter" where
  "allow now r =
     (let t = rl_tokens r + of_int (now - rl_last r) / 10 ^ 9 * 5;
          t = (if t > 10 then 10 else t)
      in if t < 1 then (False, r\<lparr>rl_tokens := t, rl_last := now\<rparr>)
         else (True, r\<lparr>rl_tokens := t - 1, rl_last := now\<rparr>))"

fun allow_all :: "int list \<Rightarrow> rateLimiter \<Rightarrow> nat \<times> rateLimiter" where
  "allow_all [] r = (0, r)"
| "allow_all (now # ts) r =
     (let (ok, r1) = allow now r; (n, r2) = allow_all ts r1 in ((if ok then Suc n else n), r2))"

lemma allow_bounds:
  assumes "allow now r = (ok, r')" "0 \<le> rl_tokens r" "rl_last r \<le> now"
  shows "0 \<le> rl_tokens r'" "rl_last r' = now"
    "rl_tokens r' + (if ok then 1 else 0) \<le> rl_tokens r + of_int (now - rl_last r) / 10 ^ 9 * 5"
    "rl_tokens r' \<le> 10"
  using assms by (auto simp: allow_def Let_def split: if_splits)

lemma allow_all_bound:
  "0 \<le> rl_tokens r \<Longrightarrow> sorted (rl_last r # ts) \<Longrightarrow> allow_all ts r = (n, r') \<Longrightarrow>
     of_nat n \<le> rl_tokens r + of_int (last (rl_last r # ts) - rl_last r) / 10 ^ 9 * 5"
proof (induction ts arbitrary: r n)
  case Nil
  then show ?case by simp
next
  case (Cons now ts)
  obtain ok r1 where a: "allow now r = (ok, r1)" by fastforce
  obtain m where m: "allow_all ts r1 = (m, r')" and n: "n = (if ok then Suc m else m)"
    using Cons.prems(3) a by (auto simp: Let_def split: prod.splits)
  from Cons.prems have le: "rl_last r \<le> now" by simp
  note b = allow_bounds [OF a Cons.prems(1) le]
  from Cons.IH [OF b(1) _ m] Cons.prems(2) b(2)
  have "of_nat m \<le> rl_tokens r1 + of_int (last (now # ts) - now) / 10 ^ 9 * 5" by simp
  then have "of_nat n \<le> rl_tokens r1 + (if ok then 1 else 0) + of_int (last (now # ts) - now) / 10 ^ 9 * 5"
    using n by simp
  also have "\<dots> \<le> rl_tokens r + of_int (now - rl_last r) / 10 ^ 9 * 5 + of_int (last (now # ts) - now) / 10 ^ 9 * 5"
    using b(3) by simp
  also have "\<dots> = rl_tokens r + of_int (last (rl_last r # now # ts) - rl_last r) / 10 ^ 9 * 5"
    by (simp add: field_simps)
  finally show ?case .
qed

section \<open>Configuration and state\<close>

definition maxConcurrent :: nat where "maxConcurrent = 16"

record Assignment =
  as_IP :: addr
  as_Revision :: u64
  as_Created :: bool
  as_Token :: u64

text \<open>A callback the source compares with nil is an option.\<close>

record 'w ServerConfig =
  sv_HostPublicKey :: arr32
  sv_WireGuardPort :: u16
  sv_DiscoveryRelayPort :: u16
  sv_JoinEnabled :: "'w \<Rightarrow> bool"
  sv_BlockedUID :: "('w \<Rightarrow> string \<Rightarrow> bool) option"
  sv_KnownMember :: "('w \<Rightarrow> arr32 \<Rightarrow> bool) option"
  sv_MemberAuthKey :: "('w \<Rightarrow> arr32 \<Rightarrow> arr32 option) option"
  sv_Assign :: "arr32 \<Rightarrow> string \<Rightarrow> arr12 \<Rightarrow> bool \<Rightarrow> 'w \<Rightarrow> Assignment result \<times> 'w"
  sv_PairingFailed :: "(arr32 \<Rightarrow> Assignment \<Rightarrow> 'w \<Rightarrow> 'w) option"
  sv_PairingAcknowledged :: "(arr32 \<Rightarrow> Assignment \<Rightarrow> 'w \<Rightarrow> 'w) option"
  sv_ReportStats :: "(arr32 \<Rightarrow> Device \<Rightarrow> 'w \<Rightarrow> 'w) option"
  sv_HostDevice :: Device

text \<open>What a handler waits for: the request, the acknowledgement, or the next statistics report.\<close>

datatype phase =
    WaitRequest ServerChallenge arr12
  | WaitAck ClientRequest bytes Assignment
  | Controlling arr32 addr

record 'w server =
  s_roomKey :: arr12
  s_rate :: rateLimiter
  s_limit :: nat
  s_connections :: "(nat, phase) fmap"
  s_devices :: "(arr32, Device) fmap"
  s_memberUIDs :: "(arr32, string) fmap"
  s_deviceOwners :: "(arr32, nat) fmap"
  s_closed :: bool
  s_world :: 'w

text \<open>\<open>Listen\<close>, up to the outcome of \<open>net.Listen\<close> and whether it bound a loopback address.\<close>

definition Listen :: "'w ServerConfig \<Rightarrow> arr12 \<Rightarrow> goerror option \<Rightarrow> bool \<Rightarrow> int \<Rightarrow> 'w \<Rightarrow> 'w server result" where
  "Listen cfg roomKey listen_err loopback now w =
     (if roomKey = 0 \<or> sv_HostPublicKey cfg = 0 \<or> sv_WireGuardPort cfg = 0 \<or> sv_DiscoveryRelayPort cfg = 0
      then Inl errProtocol
      else
        (case listen_err of
           Some e \<Rightarrow> Inl e
         | None \<Rightarrow>
             if \<not> loopback then Inl errProtocol
             else Inr \<lparr>s_roomKey = roomKey, s_rate = \<lparr>rl_tokens = 10, rl_last = now\<rparr>, s_limit = 0,
                       s_connections = fmempty, s_devices = fmempty, s_memberUIDs = fmempty,
                       s_deviceOwners = fmempty, s_closed = False, s_world = w\<rparr>))"

definition SetRoomKey :: "arr12 \<Rightarrow> 'w server \<Rightarrow> 'w server" where
  "SetRoomKey roomKey s = s\<lparr>s_roomKey := roomKey\<rparr>"

type_synonym frame_out = "nat \<times> byte \<times> bytes"

definition RemoveMember :: "arr32 \<Rightarrow> 'w server \<Rightarrow> frame_out list \<times> 'w server" where
  "RemoveMember key s =
     (case fmlookup (s_deviceOwners s) key of
        None \<Rightarrow> []
      | Some connection \<Rightarrow> [(connection, FramePairResult, [StatusMemberDisabled])],
      s\<lparr>s_devices := fmdrop key (s_devices s), s_memberUIDs := fmdrop key (s_memberUIDs s),
        s_deviceOwners := fmdrop key (s_deviceOwners s)\<rparr>)"

section \<open>The pairing handler\<close>

text \<open>
  \<open>pair\<close> up to the first read: the challenge is sent and the connection waits for the request. The
  arguments are the random bytes, whether the write and the two \<open>SetDeadline\<close> calls succeed.
\<close>

definition pair_start :: "'w ServerConfig \<Rightarrow> arr12 \<Rightarrow> arr32 result \<Rightarrow> bool \<Rightarrow> bool \<Rightarrow> (phase \<times> bytes) option" where
  "pair_start cfg roomKey random wrote deadline =
     (case NewServerChallenge (sv_HostPublicKey cfg) random of
        Inl _ \<Rightarrow> None
      | Inr challenge \<Rightarrow>
          if \<not> wrote \<or> \<not> deadline then None
          else Some (WaitRequest challenge roomKey, marshalChallenge challenge))"

text \<open>
  The outcome of the request: the connection is dropped silently, refused with a status frame, or the
  address is granted, with the key that authenticated the request and the encoded result.
\<close>

datatype verdict = Drop | Refuse byte | Grant ClientRequest bytes Assignment bytes

definition authenticate ::
  "'w ServerConfig \<Rightarrow> ServerChallenge \<Rightarrow> arr12 \<Rightarrow> 'w \<Rightarrow> ClientRequest \<Rightarrow> bytes \<times> bool" where
  "authenticate cfg challenge roomKey w request =
     (let authKey = be_bytes roomKey in
      if \<not> verifyClientRequest challenge request authKey then
        (case sv_MemberAuthKey cfg of
           None \<Rightarrow> (authKey, False)
         | Some memberAuthKey \<Rightarrow>
             (case memberAuthKey w (cr_ClientPublicKey request) of
                None \<Rightarrow> (authKey, False)
              | Some memberKey \<Rightarrow>
                  if verifyClientRequest challenge request (be_bytes memberKey) then (be_bytes memberKey, True)
                  else (authKey, False)))
      else (authKey, False))"

definition assign_status :: "goerror \<Rightarrow> byte" where
  "assign_status e =
     (if errors_is e PairErrRoomFull then StatusRoomFull
      else if errors_is e PairErrMemberDisabled then StatusMemberDisabled
      else StatusInternal)"

definition failed :: "'w ServerConfig \<Rightarrow> arr32 \<Rightarrow> Assignment \<Rightarrow> 'w \<Rightarrow> 'w" where
  "failed cfg key assignment w =
     (case sv_PairingFailed cfg of None \<Rightarrow> w | Some f \<Rightarrow> f key assignment w)"

definition pair_request ::
  "'w ServerConfig \<Rightarrow> ServerChallenge \<Rightarrow> arr12 \<Rightarrow> (byte \<times> bytes) result \<Rightarrow> 'w \<Rightarrow> verdict \<times> 'w" where
  "pair_request cfg challenge roomKey input w =
     (case input of
        Inl _ \<Rightarrow> (Drop, w)
      | Inr (frameType, payload) \<Rightarrow>
          if frameType \<noteq> FrameClientRequest then (Drop, w)
          else
            (case ParseClientRequest payload of
               Inl _ \<Rightarrow> (Refuse StatusAuthFailed, w)
             | Inr request \<Rightarrow>
                 (let (authKey, existingAuth) = authenticate cfg challenge roomKey w request in
                  if \<not> verifyClientRequest challenge request authKey then (Refuse StatusAuthFailed, w)
                  else if cr_UID request \<noteq> ''''
                    \<and> (case sv_BlockedUID cfg of None \<Rightarrow> False | Some blocked \<Rightarrow> blocked w (cr_UID request))
                  then (Refuse StatusMemberDisabled, w)
                  else if \<not> sv_JoinEnabled cfg w
                    \<and> (case sv_KnownMember cfg of None \<Rightarrow> True | Some known \<Rightarrow> \<not> known w (cr_ClientPublicKey request))
                  then (Refuse StatusJoinPaused, w)
                  else
                    (case sv_Assign cfg (cr_ClientPublicKey request) (cr_Name request) roomKey existingAuth w of
                       (Inl err, w') \<Rightarrow> (Refuse (assign_status err), w')
                     | (Inr assignment, w') \<Rightarrow>
                         (case newPairResult challenge request (as_IP assignment) 24 (sv_WireGuardPort cfg)
                                 (sv_DiscoveryRelayPort cfg) (as_Revision assignment) authKey of
                            Inl _ \<Rightarrow> (Drop, failed cfg (cr_ClientPublicKey request) assignment w')
                          | Inr result \<Rightarrow>
                              (Grant request authKey assignment
                                 (case marshalResult result of Inl _ \<Rightarrow> [] | Inr resultBytes \<Rightarrow> resultBytes), w'))))))"

text \<open>
  After the grant: the result is written and the acknowledgement deadline set (\<open>sent\<close>), or the
  assignment has failed; then the acknowledgement is read and checked.
\<close>

definition pair_ack ::
  "'w ServerConfig \<Rightarrow> ClientRequest \<Rightarrow> bytes \<Rightarrow> Assignment \<Rightarrow> (byte \<times> bytes) result \<Rightarrow> 'w \<Rightarrow> bool \<times> 'w" where
  "pair_ack cfg request authKey assignment input w =
     (let fail = (False, failed cfg (cr_ClientPublicKey request) assignment w) in
      case input of
        Inl _ \<Rightarrow> fail
      | Inr (frameType, payload) \<Rightarrow>
          if frameType \<noteq> FramePairAck \<or> length payload \<noteq> 32 then fail
          else if \<not> verifyPairAck authKey (as_Revision assignment) (be_word payload) then fail
          else
            (True, (case sv_PairingAcknowledged cfg of
                      None \<Rightarrow> w | Some f \<Rightarrow> f (cr_ClientPublicKey request) assignment w)))"

section \<open>The control loop\<close>

text \<open>\<open>int64\<close> milliseconds; the difference wraps.\<close>

definition latency_ms :: "u64 \<Rightarrow> u64 \<Rightarrow> u64" where
  "latency_ms now timestamp =
     (let latency = now - timestamp in if sint timestamp \<le> 0 \<or> sint latency < 0 then 0 else latency)"

definition device_ip :: "Device \<Rightarrow> addr" where
  "device_ip d = (case ParseAddr (dv_VirtualIP d) of None \<Rightarrow> AddrZero | Some ip \<Rightarrow> ip)"

definition snapshot_devices :: "'w ServerConfig \<Rightarrow> (arr32, Device) fmap \<Rightarrow> Device list" where
  "snapshot_devices cfg devices =
     sort_key device_ip
       ((if dv_VirtualIP (sv_HostDevice cfg) \<noteq> '''' then [sv_HostDevice cfg] else [])
        @ map (\<lambda>k. the (fmlookup devices k)) (sorted_list_of_fset (fmdom devices)))"

text \<open>
  One turn of \<open>control\<close>: the frame to write, whether the loop goes on when the write succeeds, and the
  state.
\<close>

definition control_step ::
  "'w ServerConfig \<Rightarrow> u64 \<Rightarrow> nat \<Rightarrow> arr32 \<Rightarrow> addr \<Rightarrow> (byte \<times> bytes) result \<Rightarrow> 'w server
     \<Rightarrow> frame_out list \<times> bool \<times> 'w server" where
  "control_step cfg now connection key ip input s =
     (case input of
        Inl _ \<Rightarrow> ([], False, s)
      | Inr (frameType, payload) \<Rightarrow>
          if frameType \<noteq> FrameStatsReport then ([], False, s)
          else
            (case parseStatsReport payload of
               Inl _ \<Rightarrow> ([], False, s)
             | Inr report \<Rightarrow>
                 if (case sv_KnownMember cfg of None \<Rightarrow> False | Some known \<Rightarrow> \<not> known (s_world s) key)
                 then ([(connection, FramePairResult, [StatusMemberDisabled])], False, s)
                 else
                   (let expectedUID = (case fmlookup (s_memberUIDs s) key of None \<Rightarrow> '''' | Some uid \<Rightarrow> uid);
                        uid = (if expectedUID \<noteq> '''' then expectedUID else st_UID report);
                        device = \<lparr>dv_LatencyMS = latency_ms now (st_TimestampMS report), dv_UID = uid,
                                  dv_VirtualIP = addr_string ip, dv_RxBytes = st_RxBytes report,
                                  dv_TxBytes = st_TxBytes report\<rparr>;
                        devices = fmupd key device (s_devices s);
                        payload' = marshalDevices (snapshot_devices cfg devices)
                    in ([(connection, FrameDeviceSnapshot, payload')], True,
                        s\<lparr>s_devices := devices, s_deviceOwners := fmupd key connection (s_deviceOwners s),
                          s_world := (case sv_ReportStats cfg of
                                        None \<Rightarrow> s_world s | Some f \<Rightarrow> f key device (s_world s))\<rparr>))))"

text \<open>The deferred clean-up of \<open>control\<close>: only the owner of the device entry removes it.\<close>

definition control_exit :: "nat \<Rightarrow> arr32 \<Rightarrow> 'w server \<Rightarrow> 'w server" where
  "control_exit connection key s =
     (if fmlookup (s_deviceOwners s) key = Some connection
      then s\<lparr>s_devices := fmdrop key (s_devices s), s_deviceOwners := fmdrop key (s_deviceOwners s)\<rparr>
      else s)"

section \<open>The steps of the server\<close>

text \<open>
  \<open>serve\<close> and the start of \<open>handle\<close>: a connection is refused when the limiter or the slots say so,
  otherwise it is registered, takes a slot and is sent the challenge; when that fails it is gone again.
\<close>

definition accept_step ::
  "'w ServerConfig \<Rightarrow> nat \<Rightarrow> int \<Rightarrow> arr32 result \<Rightarrow> bool \<Rightarrow> bool \<Rightarrow> 'w server \<Rightarrow> frame_out list \<times> 'w server" where
  "accept_step cfg connection now random wrote deadline s =
     (let (ok, r) = allow now (s_rate s); s1 = s\<lparr>s_rate := r\<rparr> in
      if \<not> ok \<or> maxConcurrent \<le> s_limit s then ([], s1)
      else
        (case pair_start cfg (s_roomKey s) random wrote deadline of
           None \<Rightarrow> ([], s1)
         | Some (phase, challenge) \<Rightarrow>
             ([(connection, FrameServerChallenge, challenge)],
              s1\<lparr>s_limit := s_limit s + 1, s_connections := fmupd connection phase (s_connections s)\<rparr>)))"

text \<open>The end of a handler that did not reach the control loop, and of one that did.\<close>

definition drop_pairing :: "nat \<Rightarrow> 'w server \<Rightarrow> 'w server" where
  "drop_pairing connection s =
     s\<lparr>s_limit := s_limit s - 1, s_connections := fmdrop connection (s_connections s)\<rparr>"

definition drop_control :: "nat \<Rightarrow> arr32 \<Rightarrow> 'w server \<Rightarrow> 'w server" where
  "drop_control connection key s =
     (control_exit connection key s)\<lparr>s_connections := fmdrop connection (s_connections s)\<rparr>"

text \<open>
  What the handler of a connection does with the outcome of its read; \<open>sent\<close> tells whether the frame
  it writes next (and the deadline after it) succeeds.
\<close>

definition input_step ::
  "'w ServerConfig \<Rightarrow> nat \<Rightarrow> u64 \<Rightarrow> (byte \<times> bytes) result \<Rightarrow> bool \<Rightarrow> 'w server \<Rightarrow> frame_out list \<times> 'w server" where
  "input_step cfg connection now input sent s =
     (case fmlookup (s_connections s) connection of
        None \<Rightarrow> ([], s)
      | Some (WaitRequest challenge roomKey) \<Rightarrow>
          (case pair_request cfg challenge roomKey input (s_world s) of
             (Drop, w) \<Rightarrow> ([], drop_pairing connection (s\<lparr>s_world := w\<rparr>))
           | (Refuse status, w) \<Rightarrow>
               ([(connection, FramePairResult, [status])], drop_pairing connection (s\<lparr>s_world := w\<rparr>))
           | (Grant request authKey assignment resultBytes, w) \<Rightarrow>
               ([(connection, FramePairResult, resultBytes)],
                if sent then s\<lparr>s_world := w,
                  s_connections := fmupd connection (WaitAck request authKey assignment) (s_connections s)\<rparr>
                else drop_pairing connection
                  (s\<lparr>s_world := failed cfg (cr_ClientPublicKey request) assignment w\<rparr>)))
      | Some (WaitAck request authKey assignment) \<Rightarrow>
          (let (ok, w) = pair_ack cfg request authKey assignment input (s_world s) in
           if ok then
             ([], s\<lparr>s_world := w, s_limit := s_limit s - 1,
                    s_memberUIDs := fmupd (cr_ClientPublicKey request) (cr_UID request) (s_memberUIDs s),
                    s_connections := fmupd connection
                      (Controlling (cr_ClientPublicKey request) (as_IP assignment)) (s_connections s)\<rparr>)
           else ([], drop_pairing connection (s\<lparr>s_world := w\<rparr>)))
      | Some (Controlling key ip) \<Rightarrow>
          (let (out, go, s1) = control_step cfg now connection key ip input s in
           (out, if go \<and> sent then s1 else drop_control connection key s1)))"

definition Close :: "'w server \<Rightarrow> 'w server" where
  "Close s = s\<lparr>s_closed := True\<rparr>"

text \<open>
  The events of a running server. Between any two of them the room may change the world. After
  \<open>Close\<close> no connection is accepted and every read fails.
\<close>

inductive server_step :: "'w ServerConfig \<Rightarrow> 'w server \<Rightarrow> 'w server \<Rightarrow> bool" for cfg where
  Accept: "\<not> s_closed s \<Longrightarrow> connection |\<notin>| fmdom (s_connections s) \<Longrightarrow>
      server_step cfg s (snd (accept_step cfg connection now random wrote deadline s))"
| Input: "(s_closed s \<Longrightarrow> \<exists>e. input = Inl e) \<Longrightarrow>
      server_step cfg s (snd (input_step cfg connection ms input sent s))"
| SetKey: "server_step cfg s (SetRoomKey key s)"
| RemoveM: "server_step cfg s (snd (RemoveMember key s))"
| CloseS: "server_step cfg s (Close s)"
| World: "server_step cfg s (s\<lparr>s_world := w\<rparr>)"

end
