(* ===== verification/Pairing_Session.thy ===== *)
theory Pairing_Session
  imports Pairing_Server
begin

text \<open>
  The client of \<open>internal/pairing/network.go\<close>: \<open>pairWithSession\<close> and \<open>Session.Sync\<close>; what the
  server grants, that client and server agree on it, and the invariant of the server's state.
\<close>

section \<open>The client\<close>

definition statusError :: "byte \<Rightarrow> goerror" where
  "statusError status =
     (if status = StatusAuthFailed then ErrTag PairErrAuthFailed
      else if status = StatusJoinPaused then ErrTag PairErrJoinPaused
      else if status = StatusRoomFull then ErrTag PairErrRoomFull
      else if status = StatusMemberDisabled then ErrTag PairErrMemberDisabled
      else errProtocol)"

definition protocolOrIO :: "goerror option \<Rightarrow> goerror" where
  "protocolOrIO err =
     (case err of None \<Rightarrow> errProtocol | Some e \<Rightarrow> if errors_is e IoEOF then errProtocol else e)"

text \<open>
  The world of \<open>pairWithSession\<close>: the outcome of dialing, the frames it reads (the second one depends
  on the request it sent), the random bytes, the outcomes of its writes and of setting the deadline,
  and the \<open>configure\<close> callback.
\<close>

record client_env =
  ce_dial :: "goerror option"
  ce_challenge :: "(byte \<times> bytes) result"
  ce_random :: "arr32 result"
  ce_sent :: "goerror option"
  ce_reply :: "bytes \<Rightarrow> (byte \<times> bytes) result"
  ce_deadline :: "goerror option"
  ce_configure :: "(PairResult \<Rightarrow> goerror option) option"
  ce_ack_sent :: "goerror option"

text \<open>The frames the client writes, and its result; with a result it holds the open session.\<close>

definition pairWithSession ::
  "client_env \<Rightarrow> bytes \<Rightarrow> arr32 \<Rightarrow> string \<Rightarrow> string \<Rightarrow> (byte \<times> bytes) list \<times> PairResult result" where
  "pairWithSession env authKey clientPublicKey uid name =
     (case ce_dial env of
        Some e \<Rightarrow> ([], Inl e)
      | None \<Rightarrow>
     (case ce_challenge env of
        Inl e \<Rightarrow> ([], Inl (protocolOrIO (Some e)))
      | Inr (frameType, payload) \<Rightarrow>
      if frameType \<noteq> FrameServerChallenge then ([], Inl (protocolOrIO None))
      else
     (case ParseServerChallenge payload of
        Inl e \<Rightarrow> ([], Inl e)
      | Inr challenge \<Rightarrow>
     (case newClientRequest challenge clientPublicKey uid name authKey (ce_random env) of
        Inl e \<Rightarrow> ([], Inl e)
      | Inr request \<Rightarrow>
     (let requestBytes = (case marshalRequest request of Inl _ \<Rightarrow> [] | Inr b \<Rightarrow> b);
          out = [(FrameClientRequest, requestBytes)] in
     (case ce_sent env of
        Some e \<Rightarrow> (out, Inl e)
      | None \<Rightarrow>
     (case ce_reply env requestBytes of
        Inl e \<Rightarrow> (out, Inl (protocolOrIO (Some e)))
      | Inr (frameType2, payload2) \<Rightarrow>
      if frameType2 \<noteq> FramePairResult then (out, Inl (protocolOrIO None))
      else if length payload2 = 1 \<and> ValidFailureStatus (payload2 ! 0) then (out, Inl (statusError (payload2 ! 0)))
      else
     (case ParsePairResult payload2 of
        Inl _ \<Rightarrow> (out, Inl (ErrTag PairErrAuthFailed))
      | Inr result \<Rightarrow>
      if \<not> verifyPairResult challenge request result authKey then (out, Inl (ErrTag PairErrAuthFailed))
      else
     (case (case ce_configure env of
              None \<Rightarrow> None
            | Some configure \<Rightarrow> (case ce_deadline env of Some e \<Rightarrow> Some e | None \<Rightarrow> configure result)) of
        Some e \<Rightarrow> (out, Inl e)
      | None \<Rightarrow>
     (let out = out @ [(FramePairAck, be_bytes (pairAck authKey (pr_LeaseRevision result)))] in
     (case ce_ack_sent env of
        Some e \<Rightarrow> (out, Inl e)
      | None \<Rightarrow> (out, Inr result))))))))))))"

text \<open>
  \<open>Session.Sync\<close>: the outcome of \<open>ctx.Err\<close>, the time it started, the write, the reply and the
  elapsed milliseconds.
\<close>

definition Sync ::
  "goerror option \<Rightarrow> u64 \<Rightarrow> goerror option \<Rightarrow> (bytes \<Rightarrow> (byte \<times> bytes) result) \<Rightarrow> u64 \<Rightarrow> StatsReport
     \<Rightarrow> Device list result" where
  "Sync ctx_err started sent reply elapsed report =
     (case ctx_err of
        Some e \<Rightarrow> Inl e
      | None \<Rightarrow>
     (case marshalStatsReport (report\<lparr>st_TimestampMS := started\<rparr>) of
        Inl e \<Rightarrow> Inl e
      | Inr payload \<Rightarrow>
     (case sent of
        Some e \<Rightarrow> Inl e
      | None \<Rightarrow>
     (case reply payload of
        Inl e \<Rightarrow> Inl (protocolOrIO (Some e))
      | Inr (frameType, payload2) \<Rightarrow>
      if frameType = FramePairResult \<and> length payload2 = 1 then Inl (statusError (payload2 ! 0))
      else if frameType \<noteq> FrameDeviceSnapshot then Inl errProtocol
      else bind_result (parseDevices payload2) (\<lambda>devices.
        Inr (map (\<lambda>d. if dv_VirtualIP d = ''10.0.23.1'' then d\<lparr>dv_LatencyMS := elapsed\<rparr> else d) devices))))))"

section \<open>Refusals reach the client\<close>

text \<open>What the client makes of a refusal the server writes.\<close>

lemma statusError_assign:
  "statusError (assign_status e) =
     (if errors_is e PairErrRoomFull then ErrTag PairErrRoomFull
      else if errors_is e PairErrMemberDisabled then ErrTag PairErrMemberDisabled
      else errProtocol)"
  by (simp add: statusError_def assign_status_def statuses)

lemma refuse_valid: "pair_request cfg challenge roomKey input w = (Refuse status, w') \<Longrightarrow> ValidFailureStatus status"
  by (auto simp: pair_request_def assign_status_def ValidFailureStatus_def statuses Let_def
      split: sum.splits prod.splits if_splits)

section \<open>What the server grants\<close>

lemma authenticate_key:
  assumes "authenticate cfg challenge roomKey w request = (authKey, existing)"
  shows "existing \<longrightarrow> (\<exists>f mk. sv_MemberAuthKey cfg = Some f \<and> f w (cr_ClientPublicKey request) = Some mk
          \<and> authKey = be_bytes mk)"
    and "\<not> existing \<longrightarrow> authKey = be_bytes roomKey"
  using assms by (auto simp: authenticate_def Let_def split: if_splits option.splits)

text \<open>Everything the handler checked when it grants an address.\<close>

lemma pair_request_Grant:
  assumes "pair_request cfg challenge roomKey input w = (Grant request authKey assignment resultBytes, w')"
  obtains payload existing result where "input = Inr (FrameClientRequest, payload)"
    "ParseClientRequest payload = Inr request"
    "authenticate cfg challenge roomKey w request = (authKey, existing)"
    "verifyClientRequest challenge request authKey"
    "\<And>blocked. cr_UID request \<noteq> '''' \<Longrightarrow> sv_BlockedUID cfg = Some blocked \<Longrightarrow> \<not> blocked w (cr_UID request)"
    "sv_JoinEnabled cfg w \<or> (\<exists>known. sv_KnownMember cfg = Some known \<and> known w (cr_ClientPublicKey request))"
    "sv_Assign cfg (cr_ClientPublicKey request) (cr_Name request) roomKey existing w = (Inr assignment, w')"
    "newPairResult challenge request (as_IP assignment) 24 (sv_WireGuardPort cfg)
       (sv_DiscoveryRelayPort cfg) (as_Revision assignment) authKey = Inr result"
    "marshalResult result = Inr resultBytes"
proof -
  from assms obtain payload where input: "input = Inr (FrameClientRequest, payload)"
    by (auto simp: pair_request_def split: sum.splits prod.splits if_splits)
  from assms obtain request' where p: "ParseClientRequest payload = Inr request'"
    by (auto simp: pair_request_def input split: sum.splits)
  obtain k existing where auth: "authenticate cfg challenge roomKey w request' = (k, existing)" by fastforce
  note a = assms [unfolded pair_request_def input sum.case prod.case p auth Let_def]
  from a have v: "verifyClientRequest challenge request' k"
    and b: "\<And>blocked. cr_UID request' \<noteq> '''' \<Longrightarrow> sv_BlockedUID cfg = Some blocked \<Longrightarrow> \<not> blocked w (cr_UID request')"
    and j: "sv_JoinEnabled cfg w \<or> (\<exists>known. sv_KnownMember cfg = Some known \<and> known w (cr_ClientPublicKey request'))"
    by (auto split: if_splits option.splits)
  have "\<exists>result. k = authKey \<and> request' = request
      \<and> sv_Assign cfg (cr_ClientPublicKey request') (cr_Name request') roomKey existing w = (Inr assignment, w')
      \<and> newPairResult challenge request' (as_IP assignment) 24 (sv_WireGuardPort cfg)
         (sv_DiscoveryRelayPort cfg) (as_Revision assignment) k = Inr result
      \<and> resultBytes = (case marshalResult result of Inl _ \<Rightarrow> [] | Inr rb \<Rightarrow> rb)"
    using a by (auto split: if_splits sum.splits prod.splits)
  then obtain result where r: "k = authKey" "request' = request"
    "sv_Assign cfg (cr_ClientPublicKey request') (cr_Name request') roomKey existing w = (Inr assignment, w')"
    "newPairResult challenge request' (as_IP assignment) 24 (sv_WireGuardPort cfg)
       (sv_DiscoveryRelayPort cfg) (as_Revision assignment) k = Inr result"
    "resultBytes = (case marshalResult result of Inl _ \<Rightarrow> [] | Inr rb \<Rightarrow> rb)" by blast
  have m: "marshalResult result = Inr resultBytes"
    using marshalResult_bytes [OF newPairResult_ok [OF r(4)]] r(5) by simp
  show thesis
    by (rule that [of payload existing result]) (use input p auth v b j r m in auto)
qed

text \<open>The acknowledgement is accepted exactly when it is the frame of the expected MAC.\<close>

lemma pair_ack_ok:
  "fst (pair_ack cfg request authKey assignment input w) \<longleftrightarrow>
     validAuthKey authKey \<and> input = Inr (FramePairAck, be_bytes (pairAck authKey (as_Revision assignment)))"
proof
  assume ok: "fst (pair_ack cfg request authKey assignment input w)"
  then obtain payload where p: "input = Inr (FramePairAck, payload)" "length payload = 32"
    "verifyPairAck authKey (as_Revision assignment) (be_word payload)"
    by (auto simp: pair_ack_def Let_def split: sum.splits prod.splits if_splits)
  from p(3) have v: "validAuthKey authKey" "pairAck authKey (as_Revision assignment) = be_word payload"
    by (auto simp: verifyPairAck_def split: if_splits)
  have "be_bytes (be_word payload :: arr32) = payload" by (rule be_bytes_be_word_widths(5) [OF p(2)])
  with p v show "validAuthKey authKey \<and> input = Inr (FramePairAck, be_bytes (pairAck authKey (as_Revision assignment)))"
    by simp
qed (auto simp: pair_ack_def Let_def verifyPairAck_def)

text \<open>Either the assignment is acknowledged or it is reported as failed.\<close>

lemma pair_ack_world:
  "snd (pair_ack cfg request authKey assignment input w) =
     (if fst (pair_ack cfg request authKey assignment input w)
      then (case sv_PairingAcknowledged cfg of None \<Rightarrow> w | Some f \<Rightarrow> f (cr_ClientPublicKey request) assignment w)
      else failed cfg (cr_ClientPublicKey request) assignment w)"
  by (simp add: pair_ack_def Let_def split: sum.splits prod.splits option.splits)

section \<open>The handshake\<close>

text \<open>
  A client and a server with the same key agree: when the server's answer is a grant the client accepts
  it, its result carries the assignment and the server's configuration, and the acknowledgement it
  sends is the one the server waits for.
\<close>

lemma verify_in_authenticate:
  assumes "verifyClientRequest challenge request (be_bytes roomKey)"
  shows "authenticate cfg challenge roomKey w request = (be_bytes roomKey, False)"
  using assms by (simp add: authenticate_def Let_def)

lemma newPairResult_fields:
  assumes "newPairResult c r ip p wg relay rev' k = Inr v"
  shows "pr_AssignedIP v = ip" "pr_LeaseRevision v = rev'" "pr_WireGuardPort v = wg" "pr_PrefixLength v = p"
    "pr_DiscoveryRelayPort v = relay" "pr_HostPublicKey v = sc_HostPublicKey c" "validAuthKey k"
  using assms by (auto simp: newPairResult_def Let_def split: if_splits)

lemma length_result_bytes: "result_ok v \<Longrightarrow> length (result_bytes v) = 82"
  by (simp add: result_bytes_def result_ok_def)

lemma client_accepts:
  assumes env: "ce_dial env = None" "ce_challenge env = Inr (FrameServerChallenge, marshalChallenge challenge)"
      "ce_sent env = None" "ce_configure env = None" "ce_ack_sent env = None"
    and challenge: "challenge_ok challenge"
    and request: "newClientRequest challenge key uid name authKey (ce_random env) = Inr request"
    and reply: "ce_reply env (request_bytes request) = Inr (FramePairResult, resultBytes)"
    and result: "newPairResult challenge request ip p wg relay rev' authKey = Inr result"
    and bytes: "marshalResult result = Inr resultBytes"
  shows "pairWithSession env authKey key uid name =
    ([(FrameClientRequest, request_bytes request), (FramePairAck, be_bytes (pairAck authKey rev'))], Inr result)"
proof -
  have rb: "resultBytes = result_bytes result" "length resultBytes = 82"
    using bytes marshalResult_bytes [OF newPairResult_ok [OF result]]
      length_result_bytes [OF newPairResult_ok [OF result]] by simp_all
  have P: "ParsePairResult resultBytes = Inr result"
    using ParsePairResult_bytes [OF newPairResult_ok [OF result]] rb by simp
  have M: "marshalRequest request = Inr (request_bytes request)"
    by (rule marshalRequest_bytes [OF newClientRequest_ok [OF request]])
  have V: "verifyPairResult challenge request result authKey" by (rule newPairResult_verifies [OF result])
  show ?thesis
    using env reply ParseServerChallenge_marshal [OF challenge] request P M V rb(2) newPairResult_fields(2) [OF result]
    unfolding pairWithSession_def by simp
qed

lemma server_grants:
  assumes request: "newClientRequest challenge key uid name (be_bytes roomKey) random = Inr request"
    and nb: "uid = '''' \<or> \<not> (case sv_BlockedUID cfg of None \<Rightarrow> False | Some blocked \<Rightarrow> blocked w uid)"
    and join: "sv_JoinEnabled cfg w"
    and assign: "sv_Assign cfg key name roomKey False w = (Inr assignment, w')"
    and ip: "Is4 (as_IP assignment)" and ports: "sv_WireGuardPort cfg \<noteq> 0" "sv_DiscoveryRelayPort cfg \<noteq> 0"
  shows "\<exists>result. newPairResult challenge request (as_IP assignment) 24 (sv_WireGuardPort cfg)
           (sv_DiscoveryRelayPort cfg) (as_Revision assignment) (be_bytes roomKey) = Inr result
         \<and> pair_request cfg challenge roomKey (Inr (FrameClientRequest, request_bytes request)) w =
           (Grant request (be_bytes roomKey) assignment (result_bytes result), w')"
proof -
  have f: "cr_ClientPublicKey request = key" "cr_Name request = name" "cr_UID request = uid" "validAuthKey (be_bytes roomKey)"
    using request by (auto simp: newClientRequest_def Let_def split: if_splits sum.splits)
  obtain result where r: "newPairResult challenge request (as_IP assignment) 24 (sv_WireGuardPort cfg)
      (sv_DiscoveryRelayPort cfg) (as_Revision assignment) (be_bytes roomKey) = Inr result"
    using ip ports f(4) by (simp add: newPairResult_def Let_def)
  have "pair_request cfg challenge roomKey (Inr (FrameClientRequest, request_bytes request)) w =
      (Grant request (be_bytes roomKey) assignment (result_bytes result), w')"
    using ParseClientRequest_bytes [OF newClientRequest_ok [OF request]] newClientRequest_verifies [OF request]
      verify_in_authenticate [OF newClientRequest_verifies [OF request], of cfg w] f nb [folded f(3)] join assign r
      marshalResult_bytes [OF newPairResult_ok [OF r]]
    unfolding pair_request_def by simp
  with r show ?thesis by blast
qed

text \<open>What the client gets back for a request that reaches the server; a dropped connection ends the stream.\<close>

definition server_reply :: "'w ServerConfig \<Rightarrow> ServerChallenge \<Rightarrow> arr12 \<Rightarrow> 'w \<Rightarrow> bytes \<Rightarrow> (byte \<times> bytes) result" where
  "server_reply cfg challenge roomKey w b =
     (case fst (pair_request cfg challenge roomKey (Inr (FrameClientRequest, b)) w) of
        Drop \<Rightarrow> Inl (ErrTag IoEOF)
      | Refuse status \<Rightarrow> Inr (FramePairResult, [status])
      | Grant _ _ _ resultBytes \<Rightarrow> Inr (FramePairResult, resultBytes))"

text \<open>A client whose connection works, talking to a server that has sent this challenge.\<close>

definition connected :: "'w ServerConfig \<Rightarrow> ServerChallenge \<Rightarrow> arr12 \<Rightarrow> 'w \<Rightarrow> arr32 \<Rightarrow> client_env" where
  "connected cfg challenge roomKey w nonce =
     \<lparr>ce_dial = None, ce_challenge = Inr (FrameServerChallenge, marshalChallenge challenge), ce_random = Inr nonce,
      ce_sent = None, ce_reply = server_reply cfg challenge roomKey w, ce_deadline = None, ce_configure = None,
      ce_ack_sent = None\<rparr>"

lemma refusal_reaches_client:
  assumes challenge: "challenge_ok challenge"
    and request: "newClientRequest challenge key uid name authKey (Inr nonce) = Inr request"
    and refused: "fst (pair_request cfg challenge roomKey (Inr (FrameClientRequest, request_bytes request)) w) = Refuse status"
  shows "pairWithSession (connected cfg challenge roomKey w nonce) authKey key uid name =
    ([(FrameClientRequest, request_bytes request)], Inl (statusError status))"
proof -
  have "ValidFailureStatus status" using refuse_valid refused by (metis prod.collapse)
  then show ?thesis
    using ParseServerChallenge_marshal [OF challenge] request refused
      marshalRequest_bytes [OF newClientRequest_ok [OF request]]
    unfolding pairWithSession_def connected_def server_reply_def by simp
qed

lemma handshake_agrees:
  assumes challenge: "challenge_ok challenge"
    and request: "newClientRequest challenge key uid name (be_bytes roomKey) (Inr nonce) = Inr request"
    and nb: "uid = '''' \<or> \<not> (case sv_BlockedUID cfg of None \<Rightarrow> False | Some blocked \<Rightarrow> blocked w uid)"
    and join: "sv_JoinEnabled cfg w"
    and assign: "sv_Assign cfg key name roomKey False w = (Inr assignment, w')"
    and ip: "Is4 (as_IP assignment)" and ports: "sv_WireGuardPort cfg \<noteq> 0" "sv_DiscoveryRelayPort cfg \<noteq> 0"
  shows "\<exists>result ack resultBytes.
      pairWithSession (connected cfg challenge roomKey w nonce) (be_bytes roomKey) key uid name =
        ([(FrameClientRequest, request_bytes request), (FramePairAck, ack)], Inr result)
      \<and> pair_request cfg challenge roomKey (Inr (FrameClientRequest, request_bytes request)) w =
        (Grant request (be_bytes roomKey) assignment resultBytes, w')
      \<and> fst (pair_ack cfg request (be_bytes roomKey) assignment (Inr (FramePairAck, ack)) w2)
      \<and> pr_AssignedIP result = as_IP assignment \<and> pr_LeaseRevision result = as_Revision assignment
      \<and> pr_PrefixLength result = 24 \<and> pr_HostPublicKey result = sc_HostPublicKey challenge
      \<and> pr_WireGuardPort result = sv_WireGuardPort cfg \<and> pr_DiscoveryRelayPort result = sv_DiscoveryRelayPort cfg"
proof -
  from server_grants [OF request nb join assign ip ports] obtain result where
    r: "newPairResult challenge request (as_IP assignment) 24 (sv_WireGuardPort cfg)
        (sv_DiscoveryRelayPort cfg) (as_Revision assignment) (be_bytes roomKey) = Inr result"
    and g: "pair_request cfg challenge roomKey (Inr (FrameClientRequest, request_bytes request)) w =
        (Grant request (be_bytes roomKey) assignment (result_bytes result), w')" by blast
  have c: "pairWithSession (connected cfg challenge roomKey w nonce) (be_bytes roomKey) key uid name =
      ([(FrameClientRequest, request_bytes request), (FramePairAck, be_bytes (pairAck (be_bytes roomKey) (as_Revision assignment)))],
       Inr result)"
    by (rule client_accepts [OF _ _ _ _ _ challenge _ _ r marshalResult_bytes [OF newPairResult_ok [OF r]]])
      (simp_all add: connected_def server_reply_def request g)
  have "fst (pair_ack cfg request (be_bytes roomKey) assignment
      (Inr (FramePairAck, be_bytes (pairAck (be_bytes roomKey) (as_Revision assignment)))) w2)"
    unfolding pair_ack_ok using newPairResult_fields(7) [OF r] by simp
  with c g newPairResult_fields [OF r] show ?thesis by blast
qed

section \<open>The server's invariant\<close>

definition pairing_conns :: "(nat, phase) fmap \<Rightarrow> nat set" where
  "pairing_conns m = {c. \<exists>p. fmlookup m c = Some p \<and> (\<forall>k ip. p \<noteq> Controlling k ip)}"

text \<open>
  The slots count the connections that are still pairing, at most 16 of them; every entry of the device
  table is owned by a connection in the control loop of that member.
\<close>

definition server_inv :: "'w server \<Rightarrow> bool" where
  "server_inv s \<longleftrightarrow> s_limit s = card (pairing_conns (s_connections s)) \<and> s_limit s \<le> maxConcurrent
     \<and> fmdom (s_devices s) = fmdom (s_deviceOwners s)
     \<and> (\<forall>k c. fmlookup (s_deviceOwners s) k = Some c \<longrightarrow>
          (\<exists>ip. fmlookup (s_connections s) c = Some (Controlling k ip)))"

lemma finite_pairing_conns [simp]: "finite (pairing_conns m)"
  by (rule finite_subset [of _ "fset (fmdom m)"]) (auto simp: pairing_conns_def fmlookup_dom_iff)

lemma pairing_conns_simps [simp]:
  "pairing_conns fmempty = {}"
  "pairing_conns (fmupd c p m) =
     (if \<exists>k ip. p = Controlling k ip then pairing_conns m - {c} else insert c (pairing_conns m))"
  "pairing_conns (fmdrop c m) = pairing_conns m - {c}"
  by (auto simp: pairing_conns_def split: if_splits)

lemma in_pairing_conns: "fmlookup m c = Some p \<Longrightarrow> c \<in> pairing_conns m \<longleftrightarrow> (\<forall>k ip. p \<noteq> Controlling k ip)"
  by (simp add: pairing_conns_def)

lemma server_inv_world [simp]:
  "server_inv (s\<lparr>s_world := w\<rparr>) = server_inv s" "server_inv (s\<lparr>s_rate := r\<rparr>) = server_inv s"
  "server_inv (s\<lparr>s_roomKey := key\<rparr>) = server_inv s" "server_inv (s\<lparr>s_closed := b\<rparr>) = server_inv s"
  "server_inv (s\<lparr>s_memberUIDs := m\<rparr>) = server_inv s"
  by (simp_all add: server_inv_def)

lemma owner_phase:
  "server_inv s \<Longrightarrow> fmlookup (s_deviceOwners s) k = Some c \<Longrightarrow> fmlookup (s_connections s) c = Some p
     \<Longrightarrow> \<exists>ip. p = Controlling k ip"
  unfolding server_inv_def by (metis option.inject)

lemma drop_pairing_inv:
  assumes inv: "server_inv s" and c: "fmlookup (s_connections s) c = Some p" "\<forall>k ip. p \<noteq> Controlling k ip"
  shows "server_inv (drop_pairing c s)"
proof -
  have "c \<in> pairing_conns (s_connections s)" using c by (simp add: in_pairing_conns)
  moreover have "fmlookup (s_deviceOwners s) k \<noteq> Some c" for k using owner_phase [OF inv _ c(1)] c(2) by blast
  ultimately show ?thesis
    using inv unfolding server_inv_def drop_pairing_def by (auto simp: card_Diff_singleton)
qed

lemma control_exit_inv: "server_inv s \<Longrightarrow> server_inv (control_exit c k s)"
  unfolding server_inv_def control_exit_def by auto

lemma drop_control_inv:
  assumes inv: "server_inv s" and c: "fmlookup (s_connections s) c = Some (Controlling k ip)"
  shows "server_inv (drop_control c k s)"
proof -
  have "c \<notin> pairing_conns (s_connections s)" using c by (simp add: in_pairing_conns)
  moreover have "fmlookup (s_deviceOwners s) j \<noteq> Some c" if "j \<noteq> k" for j
    using owner_phase [OF inv _ c] that by blast
  moreover have "fmlookup (s_deviceOwners s) j \<noteq> Some c" if "fmlookup (s_deviceOwners s) k \<noteq> Some c" for j
    using calculation(2) [of j] that by (cases "j = k") auto
  ultimately show ?thesis
    using inv c unfolding server_inv_def drop_control_def control_exit_def
    by (cases "fmlookup (s_deviceOwners s) k = Some c") auto
qed

lemma control_step_conns:
  "control_step cfg now c k ip input s = (out, go, s1) \<Longrightarrow> s_connections s1 = s_connections s"
  by (auto simp: control_step_def Let_def split: sum.splits prod.splits if_splits)

lemma control_step_inv:
  assumes inv: "server_inv s" and c: "fmlookup (s_connections s) c = Some (Controlling k ip)"
    and step: "control_step cfg now c k ip input s = (out, go, s1)"
  shows "server_inv s1"
proof -
  have "s1 = s \<or> (\<exists>d w. s1 = s\<lparr>s_devices := fmupd k d (s_devices s),
      s_deviceOwners := fmupd k c (s_deviceOwners s), s_world := w\<rparr>)"
    using step by (auto simp: control_step_def Let_def split: sum.splits prod.splits if_splits)
  with inv c show ?thesis by (auto simp: server_inv_def split: if_splits)
qed

lemma accept_step_inv:
  assumes inv: "server_inv s" and c: "c |\<notin>| fmdom (s_connections s)"
  shows "server_inv (snd (accept_step cfg c now random wrote deadline s))"
proof -
  obtain ok r where a: "allow now (s_rate s) = (ok, r)" by fastforce
  have n: "c \<notin> pairing_conns (s_connections s)" "fmlookup (s_connections s) c = None"
    using c by (auto simp: pairing_conns_def fmlookup_dom_iff)
  show ?thesis
  proof (cases "\<not> ok \<or> maxConcurrent \<le> s_limit s \<or> pair_start cfg (s_roomKey s) random wrote deadline = None")
    case True
    then show ?thesis using inv by (auto simp: accept_step_def a Let_def)
  next
    case False
    then obtain p ch where p: "pair_start cfg (s_roomKey s) random wrote deadline = Some (p, ch)"
      and ok: "ok" "s_limit s < maxConcurrent" by auto
    have no: "fmlookup (s_deviceOwners s) k \<noteq> Some c" for k using inv n(2) unfolding server_inv_def by fastforce
    have np: "\<forall>k ip. p \<noteq> Controlling k ip"
      using p by (auto simp: pair_start_def split: sum.splits if_splits)
    have "server_inv (s\<lparr>s_rate := r, s_limit := s_limit s + 1, s_connections := fmupd c p (s_connections s)\<rparr>)"
      using inv n no np ok(2) unfolding server_inv_def by auto
    then show ?thesis using ok p by (simp add: accept_step_def a)
  qed
qed

lemma input_step_inv:
  assumes inv: "server_inv s"
  shows "server_inv (snd (input_step cfg c now input sent s))"
proof (cases "fmlookup (s_connections s) c")
  case None
  then show ?thesis using inv by (simp add: input_step_def)
next
  case (Some p)
  show ?thesis
  proof (cases p)
    case (WaitRequest challenge roomKey)
    obtain v w where v: "pair_request cfg challenge roomKey input (s_world s) = (v, w)" by fastforce
    have d: "server_inv (drop_pairing c (s\<lparr>s_world := w'\<rparr>))" for w'
      by (rule drop_pairing_inv [of _ _ p]) (use inv Some WaitRequest in auto)
    have m: "c \<in> pairing_conns (s_connections s)" using Some WaitRequest by (simp add: in_pairing_conns)
    have no: "fmlookup (s_deviceOwners s) k \<noteq> Some c" for k using owner_phase [OF inv _ Some] WaitRequest by auto
    have u: "server_inv (s\<lparr>s_world := w, s_connections := fmupd c (WaitAck r k a) (s_connections s)\<rparr>)" for r k a
      using inv m no Some WaitRequest unfolding server_inv_def by (auto simp: insert_absorb)
    show ?thesis using Some WaitRequest v d u by (cases v) (simp_all add: input_step_def)
  next
    case (WaitAck request authKey assignment)
    obtain ok w where v: "pair_ack cfg request authKey assignment input (s_world s) = (ok, w)" by fastforce
    have d: "server_inv (drop_pairing c (s\<lparr>s_world := w\<rparr>))"
      by (rule drop_pairing_inv [of _ _ p]) (use inv Some WaitAck in auto)
    have m: "c \<in> pairing_conns (s_connections s)" using Some WaitAck by (simp add: in_pairing_conns)
    have no: "fmlookup (s_deviceOwners s) k \<noteq> Some c" for k using owner_phase [OF inv _ Some] WaitAck by auto
    have u: "server_inv (s\<lparr>s_world := w, s_limit := s_limit s - 1, s_memberUIDs := ms,
        s_connections := fmupd c (Controlling k ip) (s_connections s)\<rparr>)" for ms k ip
      using inv m no Some WaitAck unfolding server_inv_def by (auto simp: card_Diff_singleton)
    show ?thesis using Some WaitAck v d u by (cases ok) (simp_all add: input_step_def)
  next
    case (Controlling key ip)
    obtain out go s1 where v: "control_step cfg now c key ip input s = (out, go, s1)" by (metis prod_cases3)
    note i = control_step_inv [OF inv Some [unfolded Controlling] v]
    have "server_inv (drop_control c key s1)"
      by (rule drop_control_inv [OF i]) (use control_step_conns [OF v] Some Controlling in simp)
    with i show ?thesis using Some Controlling v by (simp add: input_step_def)
  qed
qed

lemma server_step_inv: "server_step cfg s t \<Longrightarrow> server_inv s \<Longrightarrow> server_inv t"
proof (induction rule: server_step.induct)
  case (RemoveM s key)
  then show ?case by (auto simp: RemoveMember_def server_inv_def)
qed (auto simp: accept_step_inv input_step_inv SetRoomKey_def Close_def)

lemma Listen_inv: "Listen cfg roomKey err loopback now w = Inr s \<Longrightarrow> server_inv s"
  by (auto simp: Listen_def server_inv_def split: if_splits option.splits)

lemma reachable_server_inv:
  "(server_step cfg)\<^sup>*\<^sup>* s t \<Longrightarrow> server_inv s \<Longrightarrow> server_inv t"
  by (induction rule: rtranclp_induct) (auto intro: server_step_inv)

end
