(* ===== verification/Invite.thy ===== *)
theory Invite
  imports Go_Encoding Go_Crypto
begin

text \<open>
  \<open>internal/invite/invite.go\<close>: the OPL2 invite code. The payload is 27 bytes: flags, host UID,
  pairing port, room key and the CRC-32 of the first 23 bytes, in unpadded URL-safe base64 after
  the prefix \<open>OPL2.\<close>.
\<close>

unbundle bit_operations_syntax

definition Prefix :: string where
  "Prefix = ''OPL2.''"

definition payloadSize :: nat where
  "payloadSize = 27"

definition fixedFlag :: byte where
  "fixedFlag = 1"

record invite =
  FixedRoomKey :: bool
  HostUID :: string
  PairPort :: u16
  RoomKey :: arr12

text \<open>The first 23 bytes of the payload.\<close>

definition invite_head :: "bool \<Rightarrow> bytes \<Rightarrow> u16 \<Rightarrow> arr12 \<Rightarrow> bytes" where
  "invite_head fixed uid port key = [if fixed then fixedFlag else 0] @ uid @ be_bytes port @ be_bytes key"

definition Encode :: "invite \<Rightarrow> string result" where
  "Encode v =
     (case hex_decode (HostUID v) of
        None \<Rightarrow> Inl (ErrTag InviteErrFormat)
      | Some uid \<Rightarrow>
          if length uid \<noteq> 8 \<or> HostUID v \<noteq> to_lower (HostUID v) \<or> PairPort v = 0
             \<or> isZero (be_bytes (RoomKey v))
          then Inl (ErrTag InviteErrFormat)
          else
            (let head = invite_head (FixedRoomKey v) uid (PairPort v) (RoomKey v)
             in Inr (Prefix @ rawurl_encode (head @ be_bytes (ChecksumIEEE head)))))"

definition Decode :: "string \<Rightarrow> invite result" where
  "Decode code =
     (if take (length Prefix) code \<noteq> Prefix then Inl (ErrTag InviteErrVersion)
      else
        (case rawurl_decode (drop (length Prefix) code) of
           None \<Rightarrow> Inl (ErrTag InviteErrFormat)
         | Some payload \<Rightarrow>
             if length payload \<noteq> payloadSize \<or> payload ! 0 AND NOT fixedFlag \<noteq> 0
             then Inl (ErrTag InviteErrFormat)
             else if ChecksumIEEE (take 23 payload) \<noteq> be_word (drop 23 payload)
             then Inl (ErrTag InviteErrFormat)
             else
               (let roomKey = be_word (subslice 11 23 payload);
                    port = be_word (subslice 9 11 payload)
                in if port = 0 \<or> isZero (be_bytes (roomKey :: arr12)) then Inl (ErrTag InviteErrFormat)
                   else Inr \<lparr>FixedRoomKey = (payload ! 0 AND fixedFlag \<noteq> 0),
                             HostUID = hex_encode (subslice 1 9 payload),
                             PairPort = port, RoomKey = roomKey\<rparr>)))"

text \<open>The invites \<open>Encode\<close> accepts.\<close>

definition invite_ok :: "invite \<Rightarrow> bool" where
  "invite_ok v \<longleftrightarrow> (case hex_decode (HostUID v) of None \<Rightarrow> False | Some uid \<Rightarrow> length uid = 8)
     \<and> to_lower (HostUID v) = HostUID v \<and> PairPort v \<noteq> 0 \<and> RoomKey v \<noteq> 0"

section \<open>Layout of the payload\<close>

lemma flag_byte: "(b :: byte) AND NOT fixedFlag = 0 \<longleftrightarrow> b = 0 \<or> b = fixedFlag"
proof
  assume "b AND NOT fixedFlag = 0"
  then have "b = b AND fixedFlag"
    by (metis bit.conj_disj_distrib bit.disj_cancel_right bit.conj_one_right bit.disj_zero_right)
  also have "\<dots> = 0 \<or> \<dots> = fixedFlag"
    by (simp add: fixedFlag_def and_one_eq mod_2_eq_odd)
  finally show "b = 0 \<or> b = fixedFlag" by metis
next
  assume "b = 0 \<or> b = fixedFlag"
  then show "b AND NOT fixedFlag = 0" by (auto simp: fixedFlag_def)
qed

lemma flag_byte_eq: "(b :: byte) AND NOT fixedFlag = 0 \<Longrightarrow> (if b AND fixedFlag \<noteq> 0 then fixedFlag else 0) = b"
  unfolding flag_byte by (auto simp: fixedFlag_def)

lemma length_invite_head [simp]: "length uid = 8 \<Longrightarrow> length (invite_head f uid p k) = 23"
  by (simp add: invite_head_def)

lemma invite_head_slices:
  assumes "length uid = 8"
  shows "invite_head f uid p k ! 0 = (if f then fixedFlag else 0)"
    "subslice 1 9 (invite_head f uid p k @ t) = uid"
    "subslice 9 11 (invite_head f uid p k @ t) = be_bytes p"
    "subslice 11 23 (invite_head f uid p k @ t) = be_bytes k"
  using assms by (simp_all add: invite_head_def subslice_def)

lemma payload_split:
  assumes "length p = payloadSize"
  shows "p = p ! 0 # subslice 1 9 p @ subslice 9 11 p @ subslice 11 23 p @ drop 23 p"
proof -
  have "subslice 0 1 p = [p ! 0]"
    using assms by (simp add: subslice_def take_Suc_conv_app_nth payloadSize_def)
  then have "p ! 0 # subslice 1 9 p = subslice 0 9 p" using subslice_join [of 0 1 9 p] by simp
  then have "p ! 0 # subslice 1 9 p @ subslice 9 11 p @ subslice 11 23 p
      = (subslice 0 9 p @ subslice 9 11 p) @ subslice 11 23 p" by simp
  also have "\<dots> = subslice 0 23 p" by (simp only: subslice_join)
  also have "\<dots> = take 23 p" by (simp add: subslice_def)
  finally have "(p ! 0 # subslice 1 9 p @ subslice 9 11 p @ subslice 11 23 p) @ drop 23 p = p"
    by (simp only: append_take_drop_id)
  then show ?thesis by (simp only: append_Cons append_assoc)
qed

section \<open>Encode and Decode\<close>

lemma Encode_ok: "invite_ok v \<longleftrightarrow> (\<exists>code. Encode v = Inr code)"
  by (auto simp: invite_ok_def Encode_def Let_def split: option.splits if_splits)

lemma Encode_form:
  assumes "Encode v = Inr code"
  obtains uid where "hex_decode (HostUID v) = Some uid" "length uid = 8"
    "to_lower (HostUID v) = HostUID v" "PairPort v \<noteq> 0" "RoomKey v \<noteq> 0"
    "code = Prefix @ rawurl_encode (invite_head (FixedRoomKey v) uid (PairPort v) (RoomKey v)
       @ be_bytes (ChecksumIEEE (invite_head (FixedRoomKey v) uid (PairPort v) (RoomKey v))))"
  using assms by (auto simp: Encode_def Let_def split: option.splits if_splits)

lemma Decode_payload:
  "Decode (Prefix @ rawurl_encode payload) =
     (if length payload \<noteq> payloadSize \<or> payload ! 0 AND NOT fixedFlag \<noteq> 0
         \<or> ChecksumIEEE (take 23 payload) \<noteq> be_word (drop 23 payload)
         \<or> (be_word (subslice 9 11 payload) :: u16) = 0 \<or> (be_word (subslice 11 23 payload) :: arr12) = 0
      then Inl (ErrTag InviteErrFormat)
      else Inr \<lparr>FixedRoomKey = (payload ! 0 AND fixedFlag \<noteq> 0),
                HostUID = hex_encode (subslice 1 9 payload),
                PairPort = be_word (subslice 9 11 payload), RoomKey = be_word (subslice 11 23 payload)\<rparr>)"
  by (simp add: Decode_def Let_def)

lemma Decode_Encode:
  assumes "Encode v = Inr code"
  shows "Decode code = Inr v"
proof -
  from assms obtain uid where uid: "hex_decode (HostUID v) = Some uid" "length uid = 8"
    "to_lower (HostUID v) = HostUID v" and ne: "PairPort v \<noteq> 0" "RoomKey v \<noteq> 0"
    and code: "code = Prefix @ rawurl_encode (invite_head (FixedRoomKey v) uid (PairPort v) (RoomKey v)
       @ be_bytes (ChecksumIEEE (invite_head (FixedRoomKey v) uid (PairPort v) (RoomKey v))))"
    by (rule Encode_form)
  let ?h = "invite_head (FixedRoomKey v) uid (PairPort v) (RoomKey v)"
  let ?p = "?h @ be_bytes (ChecksumIEEE ?h)"
  have "hex_encode uid = HostUID v" using hex_encode_decode [OF uid(1)] uid(3) by simp
  moreover have "?p ! 0 = (if FixedRoomKey v then fixedFlag else 0)"
    using invite_head_slices(1) [OF uid(2)] uid(2) by (simp add: nth_append)
  moreover have "length ?p = payloadSize" using uid(2) by (simp add: payloadSize_def)
  moreover have "take 23 ?p = ?h" "drop 23 ?p = be_bytes (ChecksumIEEE ?h)" using uid(2) by simp_all
  moreover have "(if FixedRoomKey v then fixedFlag else 0) AND NOT fixedFlag = 0"
    "((if FixedRoomKey v then fixedFlag else 0) AND fixedFlag \<noteq> 0) = FixedRoomKey v"
    by (simp_all add: fixedFlag_def)
  ultimately show ?thesis
    using ne unfolding code Decode_payload invite_head_slices [OF uid(2)] by simp
qed

text \<open>The converse: a code that decodes is, up to line breaks, the code of what it decodes to.\<close>

lemma Decode_form:
  assumes "Decode code = Inr v"
  obtains payload where "code = Prefix @ drop (length Prefix) code"
    "rawurl_decode (drop (length Prefix) code) = Some payload"
    "length payload = payloadSize" "payload ! 0 AND NOT fixedFlag = 0"
    "ChecksumIEEE (take 23 payload) = be_word (drop 23 payload)"
    "PairPort v = be_word (subslice 9 11 payload)" "PairPort v \<noteq> 0"
    "RoomKey v = be_word (subslice 11 23 payload)" "RoomKey v \<noteq> 0"
    "HostUID v = hex_encode (subslice 1 9 payload)"
    "FixedRoomKey v = (payload ! 0 AND fixedFlag \<noteq> 0)"
proof -
  have pre: "code = Prefix @ drop (length Prefix) code"
  proof -
    have "take (length Prefix) code = Prefix"
      using assms by (simp add: Decode_def split: if_splits)
    then show ?thesis by (metis append_take_drop_id)
  qed
  from assms obtain payload where
    "rawurl_decode (drop (length Prefix) code) = Some payload"
    "length payload = payloadSize" "payload ! 0 AND NOT fixedFlag = 0"
    "ChecksumIEEE (take 23 payload) = be_word (drop 23 payload)"
    "PairPort v = be_word (subslice 9 11 payload)" "PairPort v \<noteq> 0"
    "RoomKey v = be_word (subslice 11 23 payload)" "RoomKey v \<noteq> 0"
    "HostUID v = hex_encode (subslice 1 9 payload)"
    "FixedRoomKey v = (payload ! 0 AND fixedFlag \<noteq> 0)"
    by (auto simp: Decode_def Let_def split: if_splits option.splits)
  with pre that show ?thesis by blast
qed

lemma Decode_ok: "Decode code = Inr v \<Longrightarrow> invite_ok v"
  by (erule Decode_form) (auto simp: invite_ok_def payloadSize_def)

lemma Encode_Decode:
  assumes "Decode code = Inr v"
  shows "Encode v = Inr (skip_newlines code)"
proof -
  from assms obtain p where pre: "code = Prefix @ drop (length Prefix) code"
    and dec: "rawurl_decode (drop (length Prefix) code) = Some p"
    and p: "length p = payloadSize" "p ! 0 AND NOT fixedFlag = 0"
      "ChecksumIEEE (take 23 p) = be_word (drop 23 p)"
    and v: "PairPort v = be_word (subslice 9 11 p)" "PairPort v \<noteq> 0"
      "RoomKey v = be_word (subslice 11 23 p)" "RoomKey v \<noteq> 0"
      "HostUID v = hex_encode (subslice 1 9 p)" "FixedRoomKey v = (p ! 0 AND fixedFlag \<noteq> 0)"
    by (rule Decode_form)
  have len: "length (subslice 9 11 p) = 2" "length (subslice 11 23 p) = 12" "length (drop 23 p) = 4"
    "length (subslice 1 9 p) = 8"
    using p(1) by (simp_all add: payloadSize_def)
  have head: "invite_head (FixedRoomKey v) (subslice 1 9 p) (PairPort v) (RoomKey v) = take 23 p"
  proof -
    have "invite_head (FixedRoomKey v) (subslice 1 9 p) (PairPort v) (RoomKey v) @ drop 23 p = p"
      unfolding invite_head_def v be_bytes_be_word_widths(1) [OF len(1)]
        be_bytes_be_word_widths(4) [OF len(2)] flag_byte_eq [OF p(2)]
      using payload_split [OF p(1)] by simp
    then show ?thesis
      using len(4) by (metis append_eq_conv_conj length_invite_head)
  qed
  have "be_bytes (ChecksumIEEE (take 23 p)) = drop 23 p"
    unfolding p(3) using len(3) by (rule be_bytes_be_word_widths(2))
  then have "Encode v = Inr (Prefix @ rawurl_encode (take 23 p @ drop 23 p))"
    using v len head by (simp add: Encode_def Let_def)
  also have "rawurl_encode (take 23 p @ drop 23 p) = skip_newlines (drop (length Prefix) code)"
    using b64_canonical [OF alphabet_url dec] p(1) by (simp add: payloadSize_def)
  also have "Prefix @ \<dots> = skip_newlines code"
    by (subst (2) pre) (simp add: skip_newlines_def Prefix_def)
  finally show ?thesis .
qed

text \<open>Every invite code has 41 characters.\<close>

lemma length_Encode: "Encode v = Inr code \<Longrightarrow> length code = 41"
  by (erule Encode_form) (simp add: Prefix_def length_b64_encode_raw)

interpretation invite_codec: codec Encode Decode invite_ok
  by unfold_locales (auto simp: Encode_ok dest: Decode_Encode)

end
