(* ===== verification/Room_Service.thy ===== *)
theory Room_Service
  imports Room_State Secret_Store Pairing_Session Invite
begin

text \<open>
  \<open>internal/room/room.go\<close>: the room of a host. Its service holds the members' leases, keys and
  states, persists a fixed room, and gives the pairing server its callbacks. Every operation runs
  under the service's mutex, so each is one step on the state; the file system, the network callbacks
  and the commands to the pairing server are part of that state.
\<close>

section \<open>State\<close>

record NetworkConfig =
  nc_PrivateKey :: arr32
  nc_PublicKey :: arr32
  nc_LocalIP :: addr
  nc_ListenPort :: u16
  nc_RelayPort :: u16

text \<open>A zero \<open>time.Time\<close> is \<open>None\<close>; otherwise nanoseconds since the epoch.\<close>

record MemberStats =
  mt_LastHandshake :: "int option"
  mt_RxBytes :: u64
  mt_TxBytes :: u64
  mt_LatencyMS :: u64

record pendingPair =
  pp_token :: u64
  pp_previous :: lease
  pp_existed :: bool
  pp_previousPSK :: arr32
  pp_hadPSK :: bool
  pp_state :: string

text \<open>The callbacks of \<open>Options\<close>; each may be nil. They act on a network of type \<open>'n\<close>.\<close>

record 'n callbacks =
  cb_startNetwork :: "(NetworkConfig \<Rightarrow> 'n \<Rightarrow> goerror option \<times> 'n) option"
  cb_stopNetwork :: "('n \<Rightarrow> goerror option \<times> 'n) option"
  cb_applyPeer :: "(lease \<Rightarrow> arr32 \<Rightarrow> 'n \<Rightarrow> goerror option \<times> 'n) option"
  cb_removePeer :: "(arr32 \<Rightarrow> 'n \<Rightarrow> goerror option \<times> 'n) option"

text \<open>What the service tells a running pairing server.\<close>

datatype server_cmd = CmdSetRoomKey arr12 | CmdRemoveMember arr32 | CmdClose

text \<open>
  \<open>Service\<close>. A timer is kept with the revision its closure captured and whether it has fired; a fired
  timer's closure waits for the mutex in \<open>r_fired\<close>, where \<open>Stop\<close> no longer reaches it.
\<close>

record 'n room =
  r_dataDir :: string
  r_defaultHostUID :: string
  r_wgPort :: u16
  r_relayPort :: u16
  r_running :: bool
  r_fixedRoom :: bool
  r_fixedHost :: bool
  r_joinEnabled :: bool
  r_hostUID :: string
  r_pairPort :: u16
  r_roomID :: string
  r_roomKey :: arr12
  r_hostPrivate :: arr32
  r_hostPublic :: arr32
  r_allocator :: "allocator option"
  r_memberStates :: "(arr32, string) fmap"
  r_memberPSKs :: "(arr32, arr32) fmap"
  r_blockedUIDs :: "(string, bool) fmap"
  r_runtimeStats :: "(arr32, MemberStats) fmap"
  r_reportedStats :: "(arr32, MemberStats) fmap"
  r_memberUIDs :: "(arr32, string) fmap"
  r_pending :: "(arr32, pendingPair) fmap"
  r_pairAttempt :: u64
  r_timers :: "(arr32, u64 \<times> bool) fmap"
  r_fired :: "(arr32 \<times> u64) list"
  r_server :: bool
  r_cmds :: "server_cmd list"
  r_disk :: disk
  r_net :: 'n

definition DefaultPairPort :: u16 where "DefaultPairPort = 25673"
definition DefaultWireGuardPort :: u16 where "DefaultWireGuardPort = 25674"
definition DefaultRelayPort :: u16 where "DefaultRelayPort = 25675"

definition errRunning :: goerror where "errRunning = ErrTag RoomErrRunning"
definition errStopped :: goerror where "errStopped = ErrTag RoomErrStopped"
definition errMember :: goerror where "errMember = ErrTag RoomErrMember"
definition errInput :: goerror where "errInput = ErrTag RoomErrInput"

text \<open>\<open>New\<close>, with a data directory given.\<close>

definition room_New :: "string \<Rightarrow> string \<Rightarrow> u16 \<Rightarrow> u16 \<Rightarrow> disk \<Rightarrow> 'n \<Rightarrow> 'n room" where
  "room_New dataDir hostUID wgPort relayPort disk net =
     \<lparr>r_dataDir = dataDir, r_defaultHostUID = hostUID,
      r_wgPort = (if wgPort = 0 then DefaultWireGuardPort else wgPort),
      r_relayPort = (if relayPort = 0 then DefaultRelayPort else relayPort),
      r_running = False, r_fixedRoom = False, r_fixedHost = False, r_joinEnabled = False, r_hostUID = [],
      r_pairPort = 0, r_roomID = [], r_roomKey = 0, r_hostPrivate = 0, r_hostPublic = 0, r_allocator = None,
      r_memberStates = fmempty, r_memberPSKs = fmempty, r_blockedUIDs = fmempty, r_runtimeStats = fmempty,
      r_reportedStats = fmempty, r_memberUIDs = fmempty, r_pending = fmempty, r_pairAttempt = 0,
      r_timers = fmempty, r_fired = [], r_server = False, r_cmds = [], r_disk = disk, r_net = net\<rparr>"

section \<open>Helpers\<close>

definition lookup_or :: "'v \<Rightarrow> ('k, 'v) fmap \<Rightarrow> 'k \<Rightarrow> 'v" where
  "lookup_or dflt m k = (case fmlookup m k of None \<Rightarrow> dflt | Some v \<Rightarrow> v)"

definition findLease :: "lease list \<Rightarrow> arr32 \<Rightarrow> lease option" where
  "findLease items key = find (\<lambda>item. lease_key item = key) items"

text \<open>The allocator of a running service is never nil (the invariant below).\<close>

definition the_alloc :: "'n room \<Rightarrow> allocator" where
  "the_alloc s = (case r_allocator s of None \<Rightarrow> allocator_empty | Some a \<Rightarrow> a)"

definition room_lease :: "'n room \<Rightarrow> arr32 \<Rightarrow> lease option" where
  "room_lease s key = findLease (Snapshot (the_alloc s)) key"

definition decodePublicKey :: "string \<Rightarrow> arr32 result" where
  "decodePublicKey v =
     (case std_decode v of
        None \<Rightarrow> Inl errInput
      | Some decoded \<Rightarrow> if length decoded \<noteq> 32 then Inl errInput else Inr (be_word decoded))"

definition sortedStrings :: "(string, bool) fmap \<Rightarrow> string list" where
  "sortedStrings m = filter (\<lambda>v. fmlookup m v = Some True) (sorted_list_of_fset (fmdom m))"

definition stringSet :: "string list \<Rightarrow> (string, bool) fmap" where
  "stringSet items = foldl (\<lambda>m item. fmupd item True m) fmempty items"

definition stateFromLeases :: "lease list \<Rightarrow> member_rec list" where
  "stateFromLeases items = map (\<lambda>item.
     \<lparr>ms_PublicKey = std_encode (be_bytes (lease_key item)), ms_IP = addr_string (lease_IP item),
      ms_Name = lease_Name item, ms_Enabled = lease_Enabled item, ms_LeaseRevision = lease_Revision item\<rparr>) items"

fun leasesFromState :: "member_rec list \<Rightarrow> lease list result" where
  "leasesFromState [] = Inr []"
| "leasesFromState (item # items) =
     (case (decodePublicKey (ms_PublicKey item), ParseAddr (ms_IP item)) of
        (Inr key, Some ip) \<Rightarrow>
          bind_result (leasesFromState items) (\<lambda>rest.
            Inr (\<lparr>lease_key = key, lease_IP = ip, lease_Name = ms_Name item, lease_Enabled = ms_Enabled item,
                  lease_Revision = ms_LeaseRevision item\<rparr> # rest))
      | _ \<Rightarrow> Inl errInput)"

definition statePath :: "'n room \<Rightarrow> string" where
  "statePath s = r_dataDir s @ ''/room.json''"

definition roomSecretPath :: "'n room \<Rightarrow> string" where
  "roomSecretPath s = r_dataDir s @ ''/room.secret''"

definition hostSecretPath :: "'n room \<Rightarrow> string" where
  "hostSecretPath s = r_dataDir s @ ''/host.secret''"

text \<open>\<open>clearLocked\<close>.\<close>

definition clearLocked :: "'n room \<Rightarrow> 'n room" where
  "clearLocked s = s\<lparr>r_running := False, r_fixedRoom := False, r_fixedHost := False, r_joinEnabled := False,
     r_hostUID := [], r_roomID := [], r_pairPort := 0, r_roomKey := 0, r_hostPrivate := 0, r_hostPublic := 0,
     r_allocator := None, r_server := False, r_memberStates := fmempty, r_memberPSKs := fmempty,
     r_blockedUIDs := fmempty, r_runtimeStats := fmempty, r_reportedStats := fmempty, r_memberUIDs := fmempty,
     r_pending := fmempty\<rparr>"

definition networkConfigLocked :: "'n room \<Rightarrow> NetworkConfig" where
  "networkConfigLocked s = \<lparr>nc_PrivateKey = r_hostPrivate s, nc_PublicKey = r_hostPublic s, nc_LocalIP = host_ip,
     nc_ListenPort = r_wgPort s, nc_RelayPort = r_relayPort s\<rparr>"

text \<open>Calls of the callbacks; a nil callback does nothing.\<close>

definition call_net :: "('n \<Rightarrow> goerror option \<times> 'n) option \<Rightarrow> 'n room \<Rightarrow> goerror option \<times> 'n room" where
  "call_net f s =
     (case f of None \<Rightarrow> (None, s) | Some f \<Rightarrow> (let (err, net) = f (r_net s) in (err, s\<lparr>r_net := net\<rparr>)))"

definition applyPeer :: "'n callbacks \<Rightarrow> lease \<Rightarrow> arr32 \<Rightarrow> 'n room \<Rightarrow> goerror option \<times> 'n room" where
  "applyPeer cb item psk s = call_net (map_option (\<lambda>f. f item psk) (cb_applyPeer cb)) s"

definition removePeer :: "'n callbacks \<Rightarrow> arr32 \<Rightarrow> 'n room \<Rightarrow> goerror option \<times> 'n room" where
  "removePeer cb key s = call_net (map_option (\<lambda>f. f key) (cb_removePeer cb)) s"

definition on_disk :: "(disk \<Rightarrow> 'a \<times> disk) \<Rightarrow> 'n room \<Rightarrow> 'a \<times> 'n room" where
  "on_disk f s = (let (x, d) = f (r_disk s) in (x, s\<lparr>r_disk := d\<rparr>))"

section \<open>Persistence\<close>

text \<open>\<open>json.Marshal\<close> of the room secret: the map's keys are sorted.\<close>

definition enc_psks :: "(arr32, arr32) fmap \<Rightarrow> (string \<times> json) list" where
  "enc_psks m = sort_key fst (map (\<lambda>k. (std_encode (be_bytes k), JStr (std_encode (be_bytes (the (fmlookup m k))))))
     (sorted_list_of_fset (fmdom m)))"

definition roomSecret :: "arr12 \<Rightarrow> (arr32, arr32) fmap \<Rightarrow> bytes" where
  "roomSecret key psks = bytes_of (json_print False 0
     (JObj [(''version'', enc_int 1), (''roomKey'', JStr (std_encode (be_bytes key))), (''memberPsks'', JObj (enc_psks psks))]))"

text \<open>The loop over \<open>record.MemberPSKs\<close>, and \<open>parseRoomSecret\<close>.\<close>

fun parse_psks :: "(string \<times> string) list \<Rightarrow> (arr32, arr32) fmap \<Rightarrow> (arr32, arr32) fmap result" where
  "parse_psks [] m = Inr m"
| "parse_psks ((k, p) # rest) m =
     (case (decodePublicKey k, std_decode p) of
        (Inr key, Some psk) \<Rightarrow> if length psk \<noteq> 32 then Inl errInput else parse_psks rest (fmupd key (be_word psk) m)
      | _ \<Rightarrow> Inl errInput)"

text \<open>A JSON object decoded into a \<open>map[string]string\<close>: the last of equal keys counts, null is "".\<close>

fun dec_string_map :: "(string \<times> json) list \<Rightarrow> (string \<times> string) list option" where
  "dec_string_map [] = Some []"
| "dec_string_map ((k, v) # ms) =
     Option.bind (if v = JNull then Some [] else dec_str v) (\<lambda>s.
       map_option (\<lambda>rest. if k \<in> set (map fst rest) then rest else (k, s) # rest) (dec_string_map ms))"

definition parseRoomSecret :: "bytes \<Rightarrow> (arr12 \<times> (arr32, arr32) fmap) result" where
  "parseRoomSecret data =
     (case json_parse (string_of data) of
        Some (JObj ms) \<Rightarrow>
          (case (dec_field ''version'' dec_int 0 ms, dec_field ''roomKey'' dec_str [] ms,
                 dec_field ''memberPsks'' (\<lambda>v. case v of JObj ps \<Rightarrow> dec_string_map ps | _ \<Rightarrow> None) [] ms) of
             (Some version, Some key, Some psks) \<Rightarrow>
               if version \<noteq> 1 then Inl errInput
               else
                 (case std_decode key of
                    None \<Rightarrow> Inl errInput
                  | Some decoded \<Rightarrow>
                      if length decoded \<noteq> 12 then Inl errInput
                      else bind_result (parse_psks psks fmempty) (\<lambda>m. Inr (be_word decoded, m)))
           | _ \<Rightarrow> Inl errInput)
      | _ \<Rightarrow> Inl errInput)"

definition persistRoomSecretLocked :: "'n room \<Rightarrow> goerror option \<times> 'n room" where
  "persistRoomSecretLocked s = on_disk (secret_Save (roomSecretPath s) (roomSecret (r_roomKey s) (r_memberPSKs s))) s"

definition room_record :: "'n room \<Rightarrow> room_rec" where
  "room_record s = \<lparr>rs_SchemaVersion = SchemaVersion, rs_RoomID = r_roomID s, rs_HostUID = r_hostUID s,
     rs_PairPort = r_pairPort s, rs_WireGuardPort = r_wgPort s, rs_RelayPort = r_relayPort s,
     rs_JoinEnabled = r_joinEnabled s, rs_Members = stateFromLeases (Snapshot (the_alloc s)),
     rs_BlockedMembers = [], rs_BlockedUIDs = sortedStrings (r_blockedUIDs s)\<rparr>"

definition persistLocked :: "'n room \<Rightarrow> goerror option \<times> 'n room" where
  "persistLocked s =
     (let (previous, s) = on_disk (secret_Load (roomSecretPath s)) s;
          (err, s) = persistRoomSecretLocked s
      in if err \<noteq> None then (err, s)
         else
           (let (err, s) = on_disk (Save (statePath s) (room_record s)) s
            in if err = None then (None, s)
               else
                 (let (rollbackErr, s) =
                    (case previous of
                       Inr previousSecret \<Rightarrow> on_disk (secret_Save (roomSecretPath s) previousSecret) s
                     | Inl previousErr \<Rightarrow>
                         if errors_is previousErr OsErrNotExist then
                           (let (e, s) = on_disk (os_Remove (roomSecretPath s)) s
                            in (case e of Some x \<Rightarrow> if errors_is x OsErrNotExist then None else Some x | None \<Rightarrow> None, s))
                         else (None, s))
                  in (errors_join [err, rollbackErr], s))))"

text \<open>\<open>if s.fixedRoom { persistLocked }\<close>.\<close>

definition persist_fixed :: "'n room \<Rightarrow> goerror option \<times> 'n room" where
  "persist_fixed s = (if r_fixedRoom s then persistLocked s else (None, s))"

section \<open>Snapshot\<close>

record room_member =
  rm_UID :: string
  rm_PublicKey :: string
  rm_IP :: string
  rm_Name :: string
  rm_Enabled :: bool
  rm_State :: string
  rm_LeaseRevision :: u64
  rm_LastHandshake :: int
  rm_RxBytes :: u64
  rm_TxBytes :: u64
  rm_LatencyMS :: u64

record room_snapshot =
  sn_Running :: bool
  sn_FixedRoomKey :: bool
  sn_FixedHostKey :: bool
  sn_JoinEnabled :: bool
  sn_HostUID :: string
  sn_PairPort :: u16
  sn_WireGuardPort :: u16
  sn_RelayPort :: u16
  sn_HostIP :: string
  sn_Members :: "room_member list"
  sn_BlockedUIDs :: "string list"

definition zeroStats :: MemberStats where
  "zeroStats = \<lparr>mt_LastHandshake = None, mt_RxBytes = 0, mt_TxBytes = 0, mt_LatencyMS = 0\<rparr>"

definition member_entry :: "'n room \<Rightarrow> lease \<Rightarrow> room_member" where
  "member_entry s item =
     (let stat = lookup_or zeroStats (r_runtimeStats s) (lease_key item);
          traffic = lookup_or stat (r_reportedStats s) (lease_key item)
      in \<lparr>rm_UID = lookup_or [] (r_memberUIDs s) (lease_key item),
          rm_PublicKey = std_encode (be_bytes (lease_key item)), rm_IP = addr_string (lease_IP item),
          rm_Name = lease_Name item, rm_Enabled = lease_Enabled item,
          rm_State = lookup_or [] (r_memberStates s) (lease_key item), rm_LeaseRevision = lease_Revision item,
          rm_LastHandshake = (case mt_LastHandshake stat of None \<Rightarrow> 0 | Some t \<Rightarrow> t div 10 ^ 9),
          rm_RxBytes = mt_RxBytes traffic, rm_TxBytes = mt_TxBytes traffic, rm_LatencyMS = mt_LatencyMS traffic\<rparr>)"

definition snapshotLocked :: "'n room \<Rightarrow> room_snapshot" where
  "snapshotLocked s =
     (let show = r_running s \<or> r_fixedRoom s in
      \<lparr>sn_Running = r_running s, sn_FixedRoomKey = r_fixedRoom s, sn_FixedHostKey = r_fixedHost s,
       sn_JoinEnabled = r_joinEnabled s, sn_HostUID = (if show then r_hostUID s else []),
       sn_PairPort = (if show then r_pairPort s else 0), sn_WireGuardPort = (if show then r_wgPort s else 0),
       sn_RelayPort = (if show then r_relayPort s else 0), sn_HostIP = (if show then ''10.0.23.1'' else []),
       sn_Members = (case r_allocator s of None \<Rightarrow> [] | Some a \<Rightarrow> map (member_entry s) (Snapshot a)),
       sn_BlockedUIDs = sortedStrings (r_blockedUIDs s)\<rparr>)"

end
