(* ===== verification/Room_Ops.thy ===== *)
theory Room_Ops
  imports Room_Service
begin

text \<open>
  The operations of \<open>internal/room/room.go\<close>: the callbacks of the pairing server, the commands of the
  host, and the life cycle of a room.
\<close>

section \<open>The callbacks of the pairing server\<close>

definition set_alloc :: "'n room \<Rightarrow> allocator \<Rightarrow> 'n room" where
  "set_alloc s a = s\<lparr>r_allocator := Some a\<rparr>"

definition rollbackPairLocked :: "'n callbacks \<Rightarrow> arr32 \<Rightarrow> pendingPair \<Rightarrow> 'n room \<Rightarrow> 'n room" where
  "rollbackPairLocked cb key pending s =
     (let a = the_alloc s;
          a = (if pp_existed pending then snd (Restore (pp_previous pending) a) else snd (Remove key a));
          s = set_alloc (s\<lparr>r_pending := fmdrop key (r_pending s)\<rparr>) a;
          s = s\<lparr>r_memberPSKs :=
                  (if pp_hadPSK pending then fmupd key (pp_previousPSK pending) (r_memberPSKs s)
                   else fmdrop key (r_memberPSKs s)),
                r_memberStates :=
                  (if pp_state pending = [] then fmdrop key (r_memberStates s)
                   else fmupd key (pp_state pending) (r_memberStates s))\<rparr>
      in if cb_applyPeer cb \<noteq> None \<and> pp_existed pending \<and> pp_hadPSK pending
         then snd (applyPeer cb (pp_previous pending) (pp_previousPSK pending) s)
         else snd (removePeer cb key s))"

definition zeroLease :: lease where
  "zeroLease = \<lparr>lease_key = 0, lease_IP = AddrZero, lease_Name = [], lease_Enabled = False, lease_Revision = 0\<rparr>"

definition errJoinPaused :: goerror where "errJoinPaused = ErrTag PairErrJoinPaused"
definition errMemberDisabled :: goerror where "errMemberDisabled = ErrTag PairErrMemberDisabled"

definition assign ::
  "'n callbacks \<Rightarrow> arr32 \<Rightarrow> string \<Rightarrow> arr12 \<Rightarrow> bool \<Rightarrow> 'n room \<Rightarrow> Assignment result \<times> 'n room" where
  "assign cb key name roomKey existingAuth s =
     (if \<not> r_running s then (Inl errJoinPaused, s)
      else
        (let found = room_lease s key; existed = (found \<noteq> None);
             previous = (case found of None \<Rightarrow> zeroLease | Some l \<Rightarrow> l) in
         if \<not> r_joinEnabled s \<and> \<not> existed then (Inl errJoinPaused, s)
         else if fmlookup (r_pending s) key \<noteq> None
         then (Inl (ErrTag (Other ''member is already pairing'')), s)
         else
           (let hadPSK = (fmlookup (r_memberPSKs s) key \<noteq> None);
                previousPSK = lookup_or 0 (r_memberPSKs s) key in
            if existingAuth \<and> (\<not> existed \<or> \<not> lease_Enabled previous \<or> \<not> hadPSK)
            then (Inl errMemberDisabled, s)
            else
              (case Assign key name (the_alloc s) of
                 (Inl err, a) \<Rightarrow>
                   (Inl (if errors_is err LeaseErrFull then ErrTag PairErrRoomFull else err), set_alloc s a)
               | (Inr (item, created), a) \<Rightarrow>
                   (let token = r_pairAttempt s + 1;
                        pending = \<lparr>pp_token = token, pp_previous = previous, pp_existed = existed,
                                   pp_previousPSK = previousPSK, pp_hadPSK = hadPSK,
                                   pp_state = lookup_or [] (r_memberStates s) key\<rparr>;
                        psk = (if existingAuth then previousPSK else DerivePSK roomKey (r_hostPublic s) key);
                        s = (set_alloc s a)\<lparr>r_pairAttempt := token, r_pending := fmupd key pending (r_pending s),
                              r_memberPSKs := fmupd key psk (r_memberPSKs s)\<rparr>;
                        (err, s) = (if \<not> existingAuth then applyPeer cb item psk s else (None, s))
                    in (case err of
                          Some e \<Rightarrow> (Inl e, rollbackPairLocked cb key pending s)
                        | None \<Rightarrow>
                            (let s = s\<lparr>r_memberStates := fmupd key ''pairing'' (r_memberStates s)\<rparr>;
                                 (err, s) = persist_fixed s
                             in (case err of
                                   Some e \<Rightarrow> (Inl e, rollbackPairLocked cb key pending s)
                                 | None \<Rightarrow>
                                     (Inr \<lparr>as_IP = lease_IP item, as_Revision = lease_Revision item,
                                           as_Created = created, as_Token = token\<rparr>, s)))))))))"

definition blockedUID :: "'n room \<Rightarrow> string \<Rightarrow> bool" where
  "blockedUID s uid \<longleftrightarrow> r_running s \<and> lookup_or False (r_blockedUIDs s) uid"

definition knownMember :: "'n room \<Rightarrow> arr32 \<Rightarrow> bool" where
  "knownMember s key =
     (if \<not> r_running s \<or> r_allocator s = None then False
      else (case room_lease s key of None \<Rightarrow> False | Some item \<Rightarrow> lease_Enabled item))"

definition memberAuthKey :: "'n room \<Rightarrow> arr32 \<Rightarrow> arr32 option" where
  "memberAuthKey s key =
     (if \<not> r_running s \<or> r_allocator s = None then None
      else
        (case room_lease s key of
           None \<Rightarrow> None
         | Some item \<Rightarrow> if lease_Enabled item then fmlookup (r_memberPSKs s) key else None))"

definition pairingFailed :: "'n callbacks \<Rightarrow> arr32 \<Rightarrow> Assignment \<Rightarrow> 'n room \<Rightarrow> 'n room" where
  "pairingFailed cb key assignment s =
     (case fmlookup (r_pending s) key of
        None \<Rightarrow> s
      | Some pending \<Rightarrow>
          if pp_token pending \<noteq> as_Token assignment then s
          else
            (let s = s\<lparr>r_pending := fmdrop key (r_pending s)\<rparr> in
             if \<not> as_Created assignment then snd (persist_fixed (rollbackPairLocked cb key pending s))
             else s\<lparr>r_timers := fmupd key (as_Revision assignment, False) (r_timers s)\<rparr>))"

text \<open>The runtime fires a timer once; then its closure waits for the mutex.\<close>

definition fire_timer :: "arr32 \<Rightarrow> 'n room \<Rightarrow> 'n room" where
  "fire_timer key s =
     (case fmlookup (r_timers s) key of
        Some (rev', False) \<Rightarrow> s\<lparr>r_timers := fmupd key (rev', True) (r_timers s), r_fired := (key, rev') # r_fired s\<rparr>
      | _ \<Rightarrow> s)"

text \<open>The closure of the timer of \<open>pairingFailed\<close>.\<close>

definition unacked_expired :: "'n callbacks \<Rightarrow> arr32 \<Rightarrow> u64 \<Rightarrow> 'n room \<Rightarrow> 'n room" where
  "unacked_expired cb key rev' s =
     (let s = s\<lparr>r_timers := fmdrop key (r_timers s)\<rparr> in
      if \<not> r_running s \<or> r_allocator s = None then s
      else
        (case room_lease s key of
           None \<Rightarrow> s
         | Some item \<Rightarrow>
             if lease_Revision item \<noteq> rev' \<or> fmlookup (r_memberStates s) key = Some ''configured'' then s
             else
               (let (removed, a) = RemoveIfRevision key rev' (the_alloc s); s = set_alloc s a in
                if \<not> removed then s
                else
                  (let s = s\<lparr>r_memberStates := fmdrop key (r_memberStates s),
                             r_memberPSKs := fmdrop key (r_memberPSKs s)\<rparr>;
                       s = snd (removePeer cb key s)
                   in snd (persist_fixed s)))))"

definition pairingAcknowledged :: "arr32 \<Rightarrow> Assignment \<Rightarrow> 'n room \<Rightarrow> 'n room" where
  "pairingAcknowledged key assignment s =
     (if \<not> r_running s \<or> r_allocator s = None then s
      else
        (case fmlookup (r_pending s) key of
           None \<Rightarrow> s
         | Some pending \<Rightarrow>
             if pp_token pending \<noteq> as_Token assignment then s
             else s\<lparr>r_pending := fmdrop key (r_pending s), r_timers := fmdrop key (r_timers s),
                    r_memberStates := fmupd key ''configured'' (r_memberStates s)\<rparr>))"

definition reportStats :: "arr32 \<Rightarrow> Device \<Rightarrow> 'n room \<Rightarrow> 'n room" where
  "reportStats key device s =
     (if r_allocator s = None then s
      else
        (case room_lease s key of
           None \<Rightarrow> s
         | Some item \<Rightarrow>
             if addr_string (lease_IP item) \<noteq> dv_VirtualIP device then s
             else s\<lparr>r_memberUIDs := fmupd key (dv_UID device) (r_memberUIDs s),
                    r_reportedStats := fmupd key
                      \<lparr>mt_LastHandshake = None, mt_RxBytes = dv_RxBytes device, mt_TxBytes = dv_TxBytes device,
                       mt_LatencyMS = dv_LatencyMS device\<rparr> (r_reportedStats s)\<rparr>))"

text \<open>The configuration \<open>listenLocked\<close> hands to \<open>pairing.Listen\<close>, and its outcome.\<close>

definition room_config :: "'n callbacks \<Rightarrow> 'n room \<Rightarrow> 'n room ServerConfig" where
  "room_config cb s = \<lparr>sv_HostPublicKey = r_hostPublic s, sv_WireGuardPort = r_wgPort s,
     sv_DiscoveryRelayPort = r_relayPort s,
     sv_JoinEnabled = (\<lambda>s. r_running s \<and> r_joinEnabled s),
     sv_BlockedUID = Some blockedUID, sv_KnownMember = Some knownMember, sv_MemberAuthKey = Some memberAuthKey,
     sv_Assign = assign cb, sv_PairingFailed = Some (pairingFailed cb),
     sv_PairingAcknowledged = Some pairingAcknowledged, sv_ReportStats = Some reportStats,
     sv_HostDevice = \<lparr>dv_LatencyMS = 0, dv_UID = r_hostUID s, dv_VirtualIP = ''10.0.23.1'', dv_RxBytes = 0,
       dv_TxBytes = 0\<rparr>\<rparr>"

definition listenLocked :: "'n callbacks \<Rightarrow> goerror option \<Rightarrow> 'n room \<Rightarrow> goerror option \<times> 'n room" where
  "listenLocked cb listen_err s =
     (case Listen (room_config cb s) (r_roomKey s) listen_err True 0 s of
        Inl e \<Rightarrow> (Some e, s)
      | Inr _ \<Rightarrow> (None, s\<lparr>r_server := True\<rparr>))"

section \<open>The commands of the host\<close>

definition command :: "server_cmd \<Rightarrow> 'n room \<Rightarrow> 'n room" where
  "command c s = s\<lparr>r_cmds := r_cmds s @ [c]\<rparr>"

definition SetJoinEnabled :: "bool \<Rightarrow> 'n room \<Rightarrow> room_snapshot result \<times> 'n room" where
  "SetJoinEnabled enabled s =
     (if \<not> r_running s then (Inl errStopped, s)
      else
        (let previous = r_joinEnabled s; (err, s) = persist_fixed (s\<lparr>r_joinEnabled := enabled\<rparr>)
         in (case err of
               Some e \<Rightarrow> (Inl e, s\<lparr>r_joinEnabled := previous\<rparr>)
             | None \<Rightarrow> (Inr (snapshotLocked s), s))))"

definition GetInvite :: "'n room \<Rightarrow> string result" where
  "GetInvite s =
     (if \<not> r_running s then Inl errStopped
      else Encode \<lparr>FixedRoomKey = r_fixedRoom s, HostUID = r_hostUID s, PairPort = r_pairPort s, RoomKey = r_roomKey s\<rparr>)"

definition update_stat :: "int \<Rightarrow> (arr32, MemberStats) fmap \<Rightarrow> 'n room \<Rightarrow> lease \<Rightarrow> 'n room" where
  "update_stat now stats s item =
     (case fmlookup stats (lease_key item) of
        None \<Rightarrow> s
      | Some stat \<Rightarrow>
          s\<lparr>r_memberStates := fmupd (lease_key item)
              (if (case mt_LastHandshake stat of None \<Rightarrow> False | Some t \<Rightarrow> now - t \<le> 3 * 60 * 10 ^ 9)
               then ''online'' else ''configured'') (r_memberStates s),
            r_runtimeStats := fmupd (lease_key item) stat (r_runtimeStats s)\<rparr>)"

definition UpdateMemberStats :: "int \<Rightarrow> (arr32, MemberStats) fmap \<Rightarrow> 'n room \<Rightarrow> 'n room" where
  "UpdateMemberStats now stats s =
     (case r_allocator s of None \<Rightarrow> s | Some a \<Rightarrow> foldl (update_stat now stats) s (Snapshot a))"

definition room_validUID :: "string \<Rightarrow> bool" where
  "room_validUID uid =
     (case hex_decode uid of None \<Rightarrow> False | Some decoded \<Rightarrow> length decoded = 8 \<and> hex_encode decoded = uid)"

definition room_validName :: "string \<Rightarrow> bool" where
  "room_validName name \<longleftrightarrow> utf8_valid name \<and> length name \<le> MaxNameBytes \<and> printable name"

text \<open>What a failed removal puts back.\<close>

definition undo_remove :: "bool \<Rightarrow> bool \<Rightarrow> string \<Rightarrow> lease \<Rightarrow> string \<Rightarrow> arr32 option \<Rightarrow> 'n room \<Rightarrow> 'n room" where
  "undo_remove block previousBlocked uid previous previousState previousPSK s =
     (let s = (if block \<and> \<not> previousBlocked then s\<lparr>r_blockedUIDs := fmdrop uid (r_blockedUIDs s)\<rparr> else s);
          s = set_alloc s (snd (Restore previous (the_alloc s)));
          key = lease_key previous
      in s\<lparr>r_memberStates := fmupd key previousState (r_memberStates s),
           r_memberUIDs := fmupd key uid (r_memberUIDs s),
           r_memberPSKs := (case previousPSK of None \<Rightarrow> r_memberPSKs s | Some psk \<Rightarrow> fmupd key psk (r_memberPSKs s))\<rparr>)"

text \<open>The deletions of \<open>removeMember\<close> from the maps of the service.\<close>

definition forget_member :: "arr32 \<Rightarrow> 'n room \<Rightarrow> 'n room" where
  "forget_member key s =
     (set_alloc s (snd (Remove key (the_alloc s))))\<lparr>
        r_timers := fmdrop key (r_timers s), r_memberStates := fmdrop key (r_memberStates s),
        r_memberPSKs := fmdrop key (r_memberPSKs s), r_runtimeStats := fmdrop key (r_runtimeStats s),
        r_reportedStats := fmdrop key (r_reportedStats s), r_memberUIDs := fmdrop key (r_memberUIDs s),
        r_pending := fmdrop key (r_pending s)\<rparr>"

definition removeMember :: "'n callbacks \<Rightarrow> string \<Rightarrow> bool \<Rightarrow> 'n room \<Rightarrow> room_snapshot result \<times> 'n room" where
  "removeMember cb encodedKey block s =
     (case decodePublicKey encodedKey of
        Inl _ \<Rightarrow> (Inl errInput, s)
      | Inr key \<Rightarrow>
          if \<not> r_running s then (Inl errStopped, s)
          else
            (case room_lease s key of
               None \<Rightarrow> (Inl errMember, s)
             | Some previous \<Rightarrow>
                 (let previousPSK = fmlookup (r_memberPSKs s) key;
                      previousState = lookup_or [] (r_memberStates s) key;
                      uid = lookup_or [] (r_memberUIDs s) key in
                  if block \<and> \<not> room_validUID uid then (Inl errInput, s)
                  else
                    (let previousBlocked = lookup_or False (r_blockedUIDs s) uid;
                         undo = undo_remove block previousBlocked uid previous previousState previousPSK;
                         s = (if block then s\<lparr>r_blockedUIDs := fmupd uid True (r_blockedUIDs s)\<rparr> else s);
                         (err, s) = removePeer cb key (forget_member key s)
                     in (case err of
                           Some e \<Rightarrow> (Inl e, undo s)
                         | None \<Rightarrow>
                             (let (err, s) = persist_fixed s
                              in (case err of
                                    Some e \<Rightarrow>
                                      (Inl e, (case previousPSK of
                                         None \<Rightarrow> undo s
                                       | Some psk \<Rightarrow> snd (applyPeer cb previous psk (undo s))))
                                  | None \<Rightarrow>
                                      (let s = command (CmdRemoveMember key) s in (Inr (snapshotLocked s), s)))))))))"

definition room_RemoveMember :: "'n callbacks \<Rightarrow> string \<Rightarrow> 'n room \<Rightarrow> room_snapshot result \<times> 'n room" where
  "room_RemoveMember cb encodedKey s = removeMember cb encodedKey False s"

definition BlockMember :: "'n callbacks \<Rightarrow> string \<Rightarrow> 'n room \<Rightarrow> room_snapshot result \<times> 'n room" where
  "BlockMember cb encodedKey s = removeMember cb encodedKey True s"

definition UnblockUID :: "string \<Rightarrow> 'n room \<Rightarrow> room_snapshot result \<times> 'n room" where
  "UnblockUID uid s =
     (if \<not> room_validUID uid then (Inl errInput, s)
      else if \<not> r_running s then (Inl errStopped, s)
      else if \<not> lookup_or False (r_blockedUIDs s) uid then (Inl errMember, s)
      else
        (let (err, s) = persist_fixed (s\<lparr>r_blockedUIDs := fmdrop uid (r_blockedUIDs s)\<rparr>)
         in (case err of
               Some e \<Rightarrow> (Inl e, s\<lparr>r_blockedUIDs := fmupd uid True (r_blockedUIDs s)\<rparr>)
             | None \<Rightarrow> (Inr (snapshotLocked s), s))))"

definition RenameMember :: "string \<Rightarrow> string \<Rightarrow> 'n room \<Rightarrow> room_snapshot result \<times> 'n room" where
  "RenameMember encodedKey name s =
     (case decodePublicKey encodedKey of
        Inl _ \<Rightarrow> (Inl errInput, s)
      | Inr key \<Rightarrow>
          if \<not> room_validName name then (Inl errInput, s)
          else if \<not> r_running s then (Inl errStopped, s)
          else
            (let previous = Snapshot (the_alloc s) in
             if findLease previous key = None then (Inl errMember, s)
             else
               (case Assign key name (the_alloc s) of
                  (Inl e, a) \<Rightarrow> (Inl e, set_alloc s a)
                | (Inr _, a) \<Rightarrow>
                    (let (err, s) = persist_fixed (set_alloc s a)
                     in (case err of
                           Some e \<Rightarrow>
                             (Inl e, s\<lparr>r_allocator := (case New previous of Inl _ \<Rightarrow> None | Inr a \<Rightarrow> Some a)\<rparr>)
                         | None \<Rightarrow> (Inr (snapshotLocked s), s))))))"

definition RotateKey :: "arr12 result \<Rightarrow> 'n room \<Rightarrow> string result \<times> 'n room" where
  "RotateKey random s =
     (case random of
        Inl e \<Rightarrow> (Inl e, s)
      | Inr new_key \<Rightarrow>
          if \<not> r_running s then (Inl errStopped, s)
          else
            (case Encode \<lparr>FixedRoomKey = r_fixedRoom s, HostUID = r_hostUID s, PairPort = r_pairPort s, RoomKey = new_key\<rparr> of
               Inl e \<Rightarrow> (Inl e, s)
             | Inr code \<Rightarrow>
                 (let previous = r_roomKey s; s = s\<lparr>r_roomKey := new_key\<rparr>;
                      (err, s) = (if r_fixedRoom s then persistRoomSecretLocked s else (None, s))
                  in (case err of
                        Some e \<Rightarrow> (Inl e, s\<lparr>r_roomKey := previous\<rparr>)
                      | None \<Rightarrow> (Inr code, command (CmdSetRoomKey new_key) s)))))"

section \<open>The life cycle\<close>

definition stopNetwork :: "'n callbacks \<Rightarrow> 'n room \<Rightarrow> goerror option \<times> 'n room" where
  "stopNetwork cb s = call_net (cb_stopNetwork cb) s"

record CreateOptions =
  co_HostUID :: string
  co_PairPort :: u16
  co_WireGuardPort :: u16
  co_FixedRoomKey :: bool
  co_FixedHostKey :: bool

text \<open>
  What \<open>Create\<close> takes from outside: the free ports the system finds, the random bytes of the room id,
  the room key and the host key, and the outcome of listening.
\<close>

record create_env =
  en_tcpPort :: "u16 result"
  en_udpPort :: "u16 result"
  en_roomID :: "128 word result"
  en_roomKey :: "arr12 result"
  en_hostKey :: "arr32 result"
  en_listen :: "goerror option"

definition newRoomIdentity :: "create_env \<Rightarrow> (string \<times> arr12) result" where
  "newRoomIdentity env =
     bind_result (en_roomID env) (\<lambda>roomID. bind_result (en_roomKey env) (\<lambda>key.
       Inr (hex_encode (be_bytes roomID), key)))"

text \<open>The room \<open>Create\<close> and \<open>Start\<close> set up, before the network starts.\<close>

definition reset_members :: "'n room \<Rightarrow> 'n room" where
  "reset_members s = s\<lparr>r_memberStates := fmempty, r_memberPSKs := fmempty, r_blockedUIDs := fmempty,
     r_runtimeStats := fmempty, r_reportedStats := fmempty, r_memberUIDs := fmempty, r_pending := fmempty\<rparr>"

text \<open>\<open>startNetwork\<close>, cleared when it fails.\<close>

definition start_network :: "'n callbacks \<Rightarrow> 'n room \<Rightarrow> goerror option \<times> 'n room" where
  "start_network cb s =
     (let (err, s) = call_net (map_option (\<lambda>f. f (networkConfigLocked s)) (cb_startNetwork cb)) s
      in (err, if err = None then s else clearLocked s))"

definition room_Create :: "'n callbacks \<Rightarrow> create_env \<Rightarrow> CreateOptions \<Rightarrow> 'n room \<Rightarrow> room_snapshot result \<times> 'n room" where
  "room_Create cb env options s =
     (if r_running s then (Inl errRunning, s)
      else
     (case (if co_PairPort options = 0 then en_tcpPort env else Inr (co_PairPort options)) of
        Inl e \<Rightarrow> (Inl e, s)
      | Inr pairPort \<Rightarrow>
     (case (if co_WireGuardPort options = 0 then en_udpPort env else Inr (co_WireGuardPort options)) of
        Inl e \<Rightarrow> (Inl e, s)
      | Inr wgPort \<Rightarrow>
     (let uid = (if co_HostUID options = [] then r_defaultHostUID s else co_HostUID options) in
      case Encode \<lparr>FixedRoomKey = False, HostUID = uid, PairPort = pairPort, RoomKey = be_word (1 # replicate 11 0)\<rparr> of
        Inl _ \<Rightarrow> (Inl errInput, s)
      | Inr _ \<Rightarrow>
      if co_FixedRoomKey options \<and> \<not> co_FixedHostKey options then (Inl errInput, s)
      else
     (case newRoomIdentity env of
        Inl e \<Rightarrow> (Inl e, s)
      | Inr (roomID, roomKey) \<Rightarrow>
     (case on_disk (LoadOrCreate (hostSecretPath s) (co_FixedHostKey options) (en_hostKey env)) s of
        (Inl e, s) \<Rightarrow> (Inl e, s)
      | (Inr hostKey, s) \<Rightarrow>
     (let s = reset_members (s\<lparr>r_fixedRoom := co_FixedRoomKey options, r_fixedHost := co_FixedHostKey options,
            r_joinEnabled := True, r_hostUID := uid, r_pairPort := pairPort, r_wgPort := wgPort, r_roomID := roomID,
            r_roomKey := roomKey, r_hostPrivate := kp_Private hostKey, r_hostPublic := kp_Public hostKey,
            r_allocator := Some allocator_empty\<rparr>);
          (err, s) = start_network cb s in
     (case err of
        Some e \<Rightarrow> (Inl e, s)
      | None \<Rightarrow>
     (let (err, s) = listenLocked cb (en_listen env) s in
     (case err of
        Some e \<Rightarrow> (Inl e, snd (stopNetwork cb (clearLocked s)))
      | None \<Rightarrow>
     (let (err, s) = persist_fixed s in
     (case err of
        Some e \<Rightarrow> (Inl e, snd (stopNetwork cb (command CmdClose (clearLocked s))))
      | None \<Rightarrow>
     (let s = s\<lparr>r_running := True\<rparr> in (Inr (snapshotLocked s), s))))))))))))))"

text \<open>The loop of \<open>Start\<close> that configures the enabled members.\<close>

fun apply_members :: "'n callbacks \<Rightarrow> lease list \<Rightarrow> 'n room \<Rightarrow> goerror option \<times> 'n room" where
  "apply_members cb [] s = (None, s)"
| "apply_members cb (item # items) s =
     (if lease_Enabled item \<and> cb_applyPeer cb \<noteq> None then
        (let psk = (case fmlookup (r_memberPSKs s) (lease_key item) of
                      Some psk \<Rightarrow> psk | None \<Rightarrow> DerivePSK (r_roomKey s) (r_hostPublic s) (lease_key item));
             s = s\<lparr>r_memberPSKs := fmupd (lease_key item) psk (r_memberPSKs s)\<rparr>;
             (err, s) = applyPeer cb item psk s
         in (case err of Some e \<Rightarrow> (Some e, s) | None \<Rightarrow> apply_members cb items s))
      else apply_members cb items s)"

definition room_Start :: "'n callbacks \<Rightarrow> arr32 result \<Rightarrow> goerror option \<Rightarrow> 'n room \<Rightarrow> room_snapshot result \<times> 'n room" where
  "room_Start cb hostRandom listen_err s =
     (if r_running s then (Inl errRunning, s)
      else
     (case on_disk (Load (statePath s)) s of
        (Inl e, s) \<Rightarrow> (Inl (ErrWrap [e]), s)
      | (Inr persisted, s) \<Rightarrow>
     (case on_disk (secret_Load (roomSecretPath s)) s of
        (Inl e, s) \<Rightarrow> (Inl (ErrWrap [e]), s)
      | (Inr secretData, s) \<Rightarrow>
     (case parseRoomSecret secretData of
        Inl e \<Rightarrow> (Inl e, s)
      | Inr (roomKey, psks) \<Rightarrow>
     (case on_disk (LoadOrCreate (hostSecretPath s) True hostRandom) s of
        (Inl e, s) \<Rightarrow> (Inl e, s)
      | (Inr hostKey, s) \<Rightarrow>
     (case leasesFromState (rs_Members persisted) of
        Inl e \<Rightarrow> (Inl e, s)
      | Inr leasing \<Rightarrow>
     (case New leasing of
        Inl e \<Rightarrow> (Inl e, s)
      | Inr allocator \<Rightarrow>
     (let s = (reset_members s)\<lparr>r_fixedRoom := True, r_fixedHost := True,
            r_joinEnabled := rs_JoinEnabled persisted, r_hostUID := rs_HostUID persisted,
            r_pairPort := rs_PairPort persisted, r_wgPort := rs_WireGuardPort persisted,
            r_relayPort := rs_RelayPort persisted, r_roomID := rs_RoomID persisted, r_roomKey := roomKey,
            r_hostPrivate := kp_Private hostKey, r_hostPublic := kp_Public hostKey, r_allocator := Some allocator,
            r_memberPSKs := psks, r_blockedUIDs := stringSet (rs_BlockedUIDs persisted),
            r_memberStates := foldl (\<lambda>m item. fmupd (lease_key item) ''offline'' m) fmempty leasing\<rparr>;
          (err, s) = start_network cb s in
     (case err of
        Some e \<Rightarrow> (Inl e, s)
      | None \<Rightarrow>
     (let (err, s) = apply_members cb leasing s in
     (case err of
        Some e \<Rightarrow> (Inl e, snd (stopNetwork cb (clearLocked s)))
      | None \<Rightarrow>
     (let (err, s) = persistRoomSecretLocked s in
     (case err of
        Some e \<Rightarrow> (Inl e, snd (stopNetwork cb (clearLocked s)))
      | None \<Rightarrow>
     (let (err, s) = listenLocked cb listen_err s in
     (case err of
        Some e \<Rightarrow> (Inl e, snd (stopNetwork cb (clearLocked s)))
      | None \<Rightarrow>
     (let s = s\<lparr>r_running := True\<rparr> in (Inr (snapshotLocked s), s)))))))))))))))))"

text \<open>\<open>os.Stat\<close> of the state file decides; it is one system call.\<close>

definition stat_file :: "string \<Rightarrow> disk \<Rightarrow> goerror option \<times> disk" where
  "stat_file path d =
     (let ((err, _), d) = os_call d
      in (if err \<noteq> None then err else if fmlookup (d_files d) path = None then Some notExist else None, d))"

definition StartOrCreate :: "'n callbacks \<Rightarrow> create_env \<Rightarrow> CreateOptions \<Rightarrow> 'n room \<Rightarrow> room_snapshot result \<times> 'n room" where
  "StartOrCreate cb env options s =
     (let (err, s) = on_disk (stat_file (statePath s)) s
      in (case err of
            None \<Rightarrow> room_Start cb (en_hostKey env) (en_listen env) s
          | Some e \<Rightarrow> if \<not> errors_is e OsErrNotExist then (Inl e, s) else room_Create cb env options s))"

text \<open>\<open>Stop\<close>; \<open>close_err\<close> is the outcome of closing the pairing server.\<close>

definition room_Stop :: "'n callbacks \<Rightarrow> goerror option \<Rightarrow> 'n room \<Rightarrow> goerror option \<times> 'n room" where
  "room_Stop cb close_err s =
     (if \<not> r_running s then (None, s)
      else
        (let s = s\<lparr>r_server := False, r_running := False, r_timers := fmempty\<rparr>;
             s = (if \<not> r_fixedRoom s then clearLocked s else s);
             s = command CmdClose s
         in if cb_stopNetwork cb \<noteq> None then
              (let (err, s) = stopNetwork cb s in (errors_join [close_err, err], s))
            else (close_err, s)))"

end
