(* ===== verification/Discovery_Frame.thy ===== *)
theory Discovery_Frame
  imports Netip
begin

text \<open>
  \<open>internal/discovery/frame.go\<close>: the frames in which the host relays broadcast and multicast packets
  of the members, the packets such a frame may carry, and the window that rejects replayed frames.
\<close>

unbundle bit_operations_syntax

section \<open>Packets and frames\<close>

definition disc_Version :: byte where "disc_Version = 1"
definition FlagHostOrigin :: byte where "FlagHostOrigin = 1"
definition MaxPacketBytes :: nat where "MaxPacketBytes = 1200"
definition headerBytes :: nat where "headerBytes = 20"

text \<open>The letters ODR2.\<close>

definition magic :: bytes where "magic = [0x4F, 0x44, 0x52, 0x32]"

definition errFrame :: goerror where "errFrame = ErrTag DiscErrFrame"
definition errDuplicate :: goerror where "errDuplicate = ErrTag DiscErrDuplicate"

record Frame =
  fr_Flags :: byte
  fr_SenderIP :: addr
  fr_Sequence :: u64
  fr_Packet :: bytes

definition validSender :: "addr \<Rightarrow> bool" where
  "validSender ip =
     (if \<not> Is4 ip then False
      else let v = As4 ip in v ! 0 = 10 \<and> v ! 1 = 0 \<and> v ! 2 = 23 \<and> v ! 3 \<ge> 1 \<and> v ! 3 \<le> 254)"

definition validDestination :: "addr \<Rightarrow> bool" where
  "validDestination ip =
     (if \<not> Is4 ip then False
      else let v = As4 ip in v = [255, 255, 255, 255] \<or> v = [10, 0, 23, 255] \<or> v ! 0 \<ge> 224 \<and> v ! 0 \<le> 239)"

definition be16 :: "bytes \<Rightarrow> nat \<Rightarrow> u16" where
  "be16 b i = be_word (subslice i (i + 2) b)"

text \<open>\<open>int(packet[0]&0x0f) * 4\<close>.\<close>

definition headerLength :: "bytes \<Rightarrow> nat" where
  "headerLength packet = unat (packet ! 0 AND 0x0F) * 4"

definition validPacket :: "addr \<Rightarrow> bytes \<Rightarrow> bool" where
  "validPacket sender packet =
     (if \<not> validSender sender \<or> length packet < 28 \<or> length packet > MaxPacketBytes \<or> drop_bit 4 (packet ! 0) \<noteq> 4
      then False
      else if headerLength packet < 20 \<or> headerLength packet + 8 > length packet
        \<or> unat (be16 packet 2) \<noteq> length packet \<or> packet ! 9 \<noteq> 17 then False
      else if be16 packet 6 AND 0x3FFF \<noteq> 0 then False
      else
        (let source = AddrFrom4 (subslice 12 16 packet); destination = AddrFrom4 (subslice 16 20 packet) in
         if source \<noteq> sender \<or> \<not> validDestination destination then False
         else unat (be16 packet (headerLength packet + 4)) = length packet - headerLength packet))"

definition EncodeFrame :: "Frame \<Rightarrow> bytes result" where
  "EncodeFrame v =
     (if fr_Flags v AND NOT FlagHostOrigin \<noteq> 0 \<or> \<not> validPacket (fr_SenderIP v) (fr_Packet v) then Inl errFrame
      else Inr (magic @ [disc_Version, fr_Flags v] @ As4 (fr_SenderIP v) @ be_bytes (fr_Sequence v)
             @ be_bytes (of_nat (length (fr_Packet v)) :: u16) @ fr_Packet v))"

definition DecodeFrame :: "bytes \<Rightarrow> Frame result" where
  "DecodeFrame b =
     (if length b < headerBytes \<or> take 4 b \<noteq> magic \<or> b ! 4 \<noteq> disc_Version \<or> b ! 5 AND NOT FlagHostOrigin \<noteq> 0
      then Inl errFrame
      else
        (let packetLength = unat (be16 b 18) in
         if packetLength = 0 \<or> packetLength > MaxPacketBytes \<or> length b \<noteq> headerBytes + packetLength then Inl errFrame
         else
           (let v = \<lparr>fr_Flags = b ! 5, fr_SenderIP = AddrFrom4 (subslice 6 10 b),
                     fr_Sequence = be_word (subslice 10 18 b), fr_Packet = drop 20 b\<rparr>
            in if \<not> validPacket (fr_SenderIP v) (fr_Packet v) then Inl errFrame else Inr v)))"

section \<open>Every frame has one encoding\<close>

definition frame_valid :: "Frame \<Rightarrow> bool" where
  "frame_valid v \<longleftrightarrow> fr_Flags v AND NOT FlagHostOrigin = 0 \<and> validPacket (fr_SenderIP v) (fr_Packet v)"

lemma validSender_Is4: "validSender ip \<Longrightarrow> Is4 ip"
  by (simp add: validSender_def split: if_splits)

lemma validPacketD:
  assumes "validPacket sender packet"
  shows "validSender sender" "28 \<le> length packet" "length packet \<le> MaxPacketBytes"
    "AddrFrom4 (subslice 12 16 packet) = sender" "validDestination (AddrFrom4 (subslice 16 20 packet))"
    "unat (be16 packet 2) = length packet" "packet ! 9 = 17" "be16 packet 6 AND 0x3FFF = 0"
    "20 \<le> headerLength packet" "headerLength packet + 8 \<le> length packet"
    "unat (be16 packet (headerLength packet + 4)) = length packet - headerLength packet" "drop_bit 4 (packet ! 0) = 4"
  using assms by (auto simp: validPacket_def Let_def split: if_splits)

lemma DecodeFrame_Encode:
  assumes "frame_valid v" "EncodeFrame v = Inr b"
  shows "DecodeFrame b = Inr v"
proof -
  note d = validPacketD [of "fr_SenderIP v" "fr_Packet v"]
  from assms(1) have ok: "fr_Flags v AND NOT FlagHostOrigin = 0" "validPacket (fr_SenderIP v) (fr_Packet v)"
    by (simp_all add: frame_valid_def)
  have len: "28 \<le> length (fr_Packet v)" "length (fr_Packet v) \<le> 1200" using d [OF ok(2)] by (simp_all add: MaxPacketBytes_def)
  then have n: "unat (of_nat (length (fr_Packet v)) :: u16) = length (fr_Packet v)" by (simp add: unat_of_nat)
  have ip: "Is4 (fr_SenderIP v)" by (rule validSender_Is4 [OF d(1) [OF ok(2)]])
  then obtain w where w: "fr_SenderIP v = Addr4 w" by (rule Is4E)
  have l4: "length (As4 (fr_SenderIP v)) = 4" by (simp add: w As4_def)
  have b: "b = magic @ [disc_Version, fr_Flags v] @ As4 (fr_SenderIP v) @ be_bytes (fr_Sequence v)
      @ be_bytes (of_nat (length (fr_Packet v)) :: u16) @ fr_Packet v"
    using assms(2) ok by (simp add: EncodeFrame_def)
  have s: "take 4 b = magic" "b ! 4 = disc_Version" "b ! 5 = fr_Flags v" "subslice 6 10 b = As4 (fr_SenderIP v)"
    "subslice 10 18 b = be_bytes (fr_Sequence v)" "drop 20 b = fr_Packet v" "length b = 20 + length (fr_Packet v)"
    "subslice 18 20 b = be_bytes (of_nat (length (fr_Packet v)) :: u16)"
    unfolding b using l4 by (simp_all add: magic_def subslice_def)
  have ne: "fr_Packet v \<noteq> []" using len(1) by auto
  show ?thesis
    unfolding DecodeFrame_def be16_def
    using len ok ip ne by (simp add: s n Let_def headerBytes_def MaxPacketBytes_def)
qed

lemma DecodeFrame_form:
  assumes "DecodeFrame b = Inr v"
  shows "frame_valid v \<and> EncodeFrame v = Inr b"
proof -
  from assms have c: "\<not> length b < 20" "take 4 b = magic" "b ! 4 = disc_Version" "b ! 5 AND NOT FlagHostOrigin = 0"
    "length b = 20 + unat (be16 b 18)"
    and v: "v = \<lparr>fr_Flags = b ! 5, fr_SenderIP = AddrFrom4 (subslice 6 10 b),
                     fr_Sequence = be_word (subslice 10 18 b), fr_Packet = drop 20 b\<rparr>"
    and p: "validPacket (AddrFrom4 (subslice 6 10 b)) (drop 20 b)"
    by (auto simp: DecodeFrame_def Let_def headerBytes_def split: if_splits)
  have len: "length (subslice 6 10 b) = 4" "length (subslice 10 18 b) = 8" "length (subslice 18 20 b) = 2"
    using c(1) by simp_all
  have "of_nat (length (drop 20 b)) = be16 b 18" using c(5) by simp
  then have n: "be_bytes (of_nat (length (drop 20 b)) :: u16) = subslice 18 20 b"
    unfolding be16_def using be_bytes_be_word_widths(1) [OF len(3)] by simp
  have parts: "b = take 4 b @ [b ! 4, b ! 5] @ subslice 6 10 b @ subslice 10 18 b @ subslice 18 20 b @ drop 20 b"
  proof -
    have "drop 4 b = b ! 4 # b ! 5 # drop 6 b" using c(1) by (simp add: Cons_nth_drop_Suc numeral_eq_Suc)
    moreover have "drop 6 b = subslice 6 10 b @ subslice 10 18 b @ subslice 18 20 b @ drop 20 b"
      by (simp add: subslice_drop)
    ultimately have "drop 4 b = [b ! 4, b ! 5] @ subslice 6 10 b @ subslice 10 18 b @ subslice 18 20 b @ drop 20 b"
      by simp
    then show ?thesis using append_take_drop_id [of 4 b] by metis
  qed
  have "As4 (AddrFrom4 (subslice 6 10 b)) = subslice 6 10 b" by (rule As4_AddrFrom4 [OF len(1)])
  then have "EncodeFrame v = Inr b"
    unfolding EncodeFrame_def v Frame.select_convs be_bytes_be_word_widths(3) [OF len(2)] n
    using c p parts by simp
  with v c(4) p show ?thesis by (simp add: frame_valid_def)
qed

lemma EncodeFrame_total: "frame_valid v \<Longrightarrow> \<exists>b. EncodeFrame v = Inr b"
  by (simp add: EncodeFrame_def frame_valid_def)

interpretation frame_codec: canonical_codec EncodeFrame DecodeFrame frame_valid
  by unfold_locales (auto simp: EncodeFrame_total DecodeFrame_Encode dest: DecodeFrame_form)

section \<open>The replay window\<close>

text \<open>
  The map is an association list with the newest entry last: Go iterates over it in an unspecified
  order, here it is the order of insertion; this matters only among entries of the same instant.
  Times and the lifetime are nanoseconds.
\<close>

record ReplayWindow =
  rw_entries :: "((bytes \<times> u64) \<times> int) list"
  rw_max :: nat
  rw_ttl :: int

definition NewReplayWindow :: "int \<Rightarrow> int \<Rightarrow> ReplayWindow" where
  "NewReplayWindow max' ttl =
     \<lparr>rw_entries = [], rw_max = (if max' < 1 then 1024 else nat max'), rw_ttl = (if ttl \<le> 0 then 5 * 10 ^ 9 else ttl)\<rparr>"

text \<open>The loop that looks for the oldest entry; \<open>None\<close> is the zero time it starts with.\<close>

fun oldest :: "((bytes \<times> u64) \<times> int) list \<Rightarrow> ((bytes \<times> u64) \<times> int) option \<Rightarrow> ((bytes \<times> u64) \<times> int) option" where
  "oldest [] best = best"
| "oldest ((candidate, seen) # es) best =
     oldest es (case best of
       None \<Rightarrow> Some (candidate, seen)
     | Some (k, t) \<Rightarrow> if seen < t then Some (candidate, seen) else Some (k, t))"

definition evict :: "((bytes \<times> u64) \<times> int) list \<Rightarrow> ((bytes \<times> u64) \<times> int) list" where
  "evict es = (case oldest es None of None \<Rightarrow> es | Some (k, _) \<Rightarrow> filter (\<lambda>(j, _). j \<noteq> k) es)"

definition Accept :: "addr \<Rightarrow> u64 \<Rightarrow> int \<Rightarrow> ReplayWindow \<Rightarrow> goerror option \<times> ReplayWindow" where
  "Accept sender seqn now w =
     (if \<not> validSender sender then (Some errFrame, w)
      else
        (let cutoff = now - rw_ttl w;
             entries = filter (\<lambda>(_, seen). \<not> seen < cutoff) (rw_entries w);
             key = (As4 sender, seqn)
         in if key \<in> fst ` set entries then (Some errDuplicate, w\<lparr>rw_entries := entries\<rparr>)
            else
              (let entries = (if rw_max w \<le> length entries then evict entries else entries)
               in (None, w\<lparr>rw_entries := entries @ [(key, now)]\<rparr>))))"

text \<open>
  The invariant: entries are distinct, in the order of their times, none is from the future, and
  there are at most \<open>max\<close> of them.
\<close>

definition window_inv :: "int \<Rightarrow> ReplayWindow \<Rightarrow> bool" where
  "window_inv now w \<longleftrightarrow> distinct (map fst (rw_entries w)) \<and> sorted (map snd (rw_entries w))
     \<and> (\<forall>e\<in>set (rw_entries w). snd e \<le> now) \<and> length (rw_entries w) \<le> rw_max w \<and> 0 < rw_max w"

lemma oldest_sorted: "sorted (map snd es) \<Longrightarrow> \<forall>e\<in>set es. snd b \<le> snd e \<Longrightarrow> oldest es (Some b) = Some b"
  by (induction es) (auto split: prod.splits)

lemma evict_sorted:
  assumes "sorted (map snd es)" "distinct (map fst es)"
  shows "evict es = tl es"
proof (cases es)
  case (Cons e es')
  have "filter (\<lambda>(j, _). j \<noteq> fst e) es' = es'" using assms(2) Cons by (intro filter_True) (auto simp: rev_image_eqI)
  then show ?thesis using oldest_sorted [of es' e] assms(1) Cons by (cases e) (auto simp: evict_def)
qed (simp add: evict_def)

lemma NewReplayWindow_inv: "window_inv now (NewReplayWindow m ttl)"
  by (simp add: window_inv_def NewReplayWindow_def)

text \<open>What \<open>Accept\<close> does on a window in order: it is a queue that drops what is stale, and its head when full.\<close>

definition fresh_entries :: "int \<Rightarrow> ReplayWindow \<Rightarrow> ((bytes \<times> u64) \<times> int) list" where
  "fresh_entries now w = filter (\<lambda>(_, seen). now - rw_ttl w \<le> seen) (rw_entries w)"

lemma Accept_queue:
  assumes "window_inv t w" "validSender sender"
  shows "Accept sender seqn now w =
    (let es = fresh_entries now w in
     if (As4 sender, seqn) \<in> fst ` set es then (Some errDuplicate, w\<lparr>rw_entries := es\<rparr>)
     else (None, w\<lparr>rw_entries := drop (if rw_max w \<le> length es then 1 else 0) es @ [((As4 sender, seqn), now)]\<rparr>))"
proof -
  have "evict (fresh_entries now w) = tl (fresh_entries now w)"
    using assms(1) by (intro evict_sorted)
      (auto simp: fresh_entries_def window_inv_def sorted_map sorted_wrt_filter distinct_map_filter)
  then show ?thesis
    using assms(2) by (simp add: Accept_def fresh_entries_def Let_def not_less drop_Suc)
qed

lemma Accept_inv:
  assumes inv: "window_inv t w" and "t \<le> now"
  shows "window_inv now (snd (Accept sender seqn now w))"
proof (cases "validSender sender")
  case False
  then show ?thesis using assms by (force simp: Accept_def window_inv_def)
next
  case True
  let ?es = "fresh_entries now w"
  have es: "distinct (map fst ?es)" "sorted (map snd ?es)" "\<forall>e\<in>set ?es. snd e \<le> now" "length ?es \<le> rw_max w" "0 < rw_max w"
    using assms le_trans [OF length_filter_le]
    by (auto simp: window_inv_def fresh_entries_def distinct_map_filter sorted_map sorted_wrt_filter)
  have d: "distinct (map fst (drop n ?es))" "sorted (map snd (drop n ?es))" "set (drop n ?es) \<subseteq> set ?es" for n
    using es(1,2) by (simp_all add: drop_map distinct_drop sorted_wrt_drop set_drop_subset flip: drop_map)
  have k: "(As4 sender, seqn) \<notin> fst ` set ?es \<Longrightarrow> (As4 sender, seqn) \<notin> fst ` set (drop n ?es)" for n
    using d(3) [of n] by blast
  have n: "snd e \<le> now" if "e \<in> set (drop n ?es)" for e n using that d(3) es(3) by blast
  show ?thesis
    unfolding Accept_queue [OF inv True] Let_def
    using es d(1,2) k n by (auto simp: window_inv_def sorted_append)
qed

text \<open>A sequence of frames with their times, and how many of them are accepted.\<close>

fun accept_all :: "(addr \<times> u64 \<times> int) list \<Rightarrow> ReplayWindow \<Rightarrow> nat \<times> ReplayWindow" where
  "accept_all [] w = (0, w)"
| "accept_all ((sender, seqn, now) # fs) w =
     (let (err, w) = Accept sender seqn now w; (n, w) = accept_all fs w
      in (if err = None then Suc n else n, w))"

text \<open>An entry stays in the window while it is not stale and fewer than \<open>max\<close> newer ones came in.\<close>

definition holds_entry :: "bytes \<times> u64 \<Rightarrow> int \<Rightarrow> nat \<Rightarrow> ReplayWindow \<Rightarrow> bool" where
  "holds_entry key t m w \<longleftrightarrow> (\<exists>pre suf. rw_entries w = pre @ (key, t) # suf \<and> length suf = m)"

lemma Accept_params: "rw_max (snd (Accept s n t w)) = rw_max w" "rw_ttl (snd (Accept s n t w)) = rw_ttl w"
  by (simp_all add: Accept_def Let_def)

lemma fresh_holds:
  assumes "window_inv t0 w" "holds_entry key t m w" "now \<le> t + rw_ttl w"
  shows "\<exists>pre suf. fresh_entries now w = pre @ (key, t) # suf \<and> length suf = m"
proof -
  obtain pre suf where e: "rw_entries w = pre @ (key, t) # suf" "length suf = m"
    using assms(2) by (auto simp: holds_entry_def)
  then have "\<forall>x\<in>set suf. t \<le> snd x" using assms(1) by (auto simp: window_inv_def sorted_append)
  then have "filter (\<lambda>(_, seen). now - rw_ttl w \<le> seen) suf = suf"
    using assms(3) by (intro filter_True) fastforce
  then have "fresh_entries now w = filter (\<lambda>(_, seen). now - rw_ttl w \<le> seen) pre @ (key, t) # suf"
    using e assms(3) by (simp add: fresh_entries_def)
  with e(2) show ?thesis by blast
qed

lemma Accept_holds:
  assumes inv: "window_inv t0 w" and h: "holds_entry key t m w" and t: "now \<le> t + rw_ttl w"
    and a: "Accept sender seqn now w = (err, w')" and m: "err = None \<Longrightarrow> Suc m < rw_max w"
  shows "holds_entry key t (if err = None then Suc m else m) w'"
proof (cases "validSender sender")
  case False
  then show ?thesis using a h by (auto simp: Accept_def)
next
  case True
  from fresh_holds [OF inv h t] obtain pre suf where
    f: "fresh_entries now w = pre @ (key, t) # suf" "length suf = m" by blast
  show ?thesis
  proof (cases "(As4 sender, seqn) \<in> fst ` set (fresh_entries now w)")
    case dup: True
    then have "err \<noteq> None" "rw_entries w' = fresh_entries now w"
      using a unfolding Accept_queue [OF inv True] by (auto simp: Let_def)
    with f show ?thesis by (auto simp: holds_entry_def)
  next
    case False
    then have err: "err = None"
      and w': "rw_entries w' = drop (if rw_max w \<le> length (fresh_entries now w) then 1 else 0) (fresh_entries now w)
          @ [((As4 sender, seqn), now)]"
      using a unfolding Accept_queue [OF inv True] by (auto simp: Let_def)
    have "\<exists>pre'. drop (if rw_max w \<le> length (fresh_entries now w) then 1 else 0) (fresh_entries now w)
        = pre' @ (key, t) # suf"
      using m [OF err] f by (cases pre) auto
    then obtain pre' where "rw_entries w' = pre' @ (key, t) # (suf @ [((As4 sender, seqn), now)])"
      using w' by auto
    moreover have "length (suf @ [((As4 sender, seqn), now)]) = Suc m" using f(2) by simp
    ultimately have "holds_entry key t (Suc m) w'" unfolding holds_entry_def by blast
    then show ?thesis using err by simp
  qed
qed

lemma accept_all_holds:
  "window_inv t0 w \<Longrightarrow> holds_entry key t m w \<Longrightarrow> accept_all fs w = (n, w') \<Longrightarrow> m + n < rw_max w
     \<Longrightarrow> sorted (t0 # map (\<lambda>f. snd (snd f)) fs) \<Longrightarrow> \<forall>(_, _, now)\<in>set fs. now \<le> t + rw_ttl w
     \<Longrightarrow> holds_entry key t (m + n) w' \<and> rw_max w' = rw_max w \<and> rw_ttl w' = rw_ttl w
       \<and> window_inv (last (t0 # map (\<lambda>f. snd (snd f)) fs)) w'"
proof (induction fs arbitrary: t0 w m n)
  case (Cons f fs)
  obtain sender seqn now where f: "f = (sender, seqn, now)" by (cases f)
  obtain err w1 where a: "Accept sender seqn now w = (err, w1)" by fastforce
  obtain k where k: "accept_all fs w1 = (k, w')" "n = (if err = None then Suc k else k)"
    using Cons.prems(3) a by (auto simp: f Let_def split: prod.splits)
  have p: "rw_max w1 = rw_max w" "rw_ttl w1 = rw_ttl w" using Accept_params [of sender seqn now w] a by simp_all
  have le: "t0 \<le> now" "now \<le> t + rw_ttl w" using Cons.prems(5,6) f by auto
  have h: "holds_entry key t (if err = None then Suc m else m) w1"
    by (rule Accept_holds [OF Cons.prems(1,2) le(2) a]) (use Cons.prems(4) k(2) in simp)
  have inv: "window_inv now w1" using Accept_inv [OF Cons.prems(1) le(1), of sender seqn] a by simp
  have "holds_entry key t ((if err = None then Suc m else m) + k) w' \<and> rw_max w' = rw_max w1 \<and> rw_ttl w' = rw_ttl w1
      \<and> window_inv (last (now # map (\<lambda>f. snd (snd f)) fs)) w'"
    by (rule Cons.IH [OF inv h k(1)]) (use Cons.prems(4,5,6) k(2) p f in \<open>auto split: if_splits\<close>)
  with p k(2) f show ?case by (auto split: if_splits)
qed simp

lemma accept_all_inv:
  "window_inv t w \<Longrightarrow> sorted (t # map (\<lambda>f. snd (snd f)) fs @ [now]) \<Longrightarrow> window_inv now (snd (Accept sender seqn now (snd (accept_all fs w))))"
proof (induction fs arbitrary: t w)
  case (Cons f fs)
  obtain s n t1 where f: "f = (s, n, t1)" by (cases f)
  obtain err w1 where a: "Accept s n t1 w = (err, w1)" by fastforce
  have "window_inv t1 w1" using Accept_inv [OF Cons.prems(1), of t1 s n] Cons.prems(2) a f by simp
  from Cons.IH [OF this] Cons.prems(2) show ?case by (cases "accept_all fs w1") (simp add: f a)
qed (simp add: Accept_inv)

lemma no_replay:
  assumes inv: "window_inv t w" and first: "Accept sender seqn t w = (None, w1)"
    and others: "accept_all fs w1 = (n, w2)" "n < rw_max w"
    and times: "sorted (t # map (\<lambda>f. snd (snd f)) fs @ [now])" "now \<le> t + rw_ttl w"
  shows "fst (Accept sender seqn now w2) = Some errDuplicate"
proof -
  have v: "validSender sender" using first by (auto simp: Accept_def split: if_splits)
  have p: "rw_max w1 = rw_max w" "rw_ttl w1 = rw_ttl w" using Accept_params [of sender seqn t w] first by simp_all
  have i1: "window_inv t w1" using Accept_inv [OF inv order_refl, of sender seqn] first by simp
  have h: "holds_entry (As4 sender, seqn) t 0 w1"
    using first unfolding Accept_queue [OF inv v] by (auto simp: Let_def holds_entry_def split: if_splits)
  have "holds_entry (As4 sender, seqn) t (0 + n) w2 \<and> rw_max w2 = rw_max w1 \<and> rw_ttl w2 = rw_ttl w1
      \<and> window_inv (last (t # map (\<lambda>f. snd (snd f)) fs)) w2"
    by (rule accept_all_holds [OF i1 h others(1)]) (use others(2) times p in \<open>auto simp: sorted_append\<close>)
  then have H: "holds_entry (As4 sender, seqn) t n w2" "rw_ttl w2 = rw_ttl w"
    and i2: "window_inv (last (t # map (\<lambda>f. snd (snd f)) fs)) w2" using p by simp_all
  obtain pre suf where "fresh_entries now w2 = pre @ ((As4 sender, seqn), t) # suf"
    using fresh_holds [OF i2 H(1), of now] times(2) H(2) by auto
  then have "(As4 sender, seqn) \<in> fst ` set (fresh_entries now w2)" by simp
  then show ?thesis unfolding Accept_queue [OF i2 v] by (simp add: Let_def)
qed

text \<open>A frame that is in no fresh entry is accepted.\<close>

lemma Accept_iff:
  "fst (Accept sender seqn now w) = None \<longleftrightarrow> validSender sender \<and> (As4 sender, seqn) \<notin> fst ` set (fresh_entries now w)"
  by (simp add: Accept_def fresh_entries_def Let_def not_less)

end
