(* ===== verification/Discovery_Relay.thy ===== *)
theory Discovery_Relay
  imports Complex_Main Discovery_Frame "HOL-Library.Finite_Map"
begin

text \<open>
  \<open>internal/discovery/relay.go\<close>: the relay of the host. It takes the frames members send, injects
  their packets into the host's interface and passes them on to the other members, under a limit for
  each member and one for the room.
\<close>

section \<open>Token buckets\<close>

text \<open>Tokens are \<open>float64\<close> in the source and exact here; times are nanoseconds.\<close>

definition memberPacketsPerSecond :: nat where "memberPacketsPerSecond = 128"
definition memberBytesPerSecond :: nat where "memberBytesPerSecond = 256 * 1024"
definition roomPacketsPerSecond :: nat where "roomPacketsPerSecond = 2048"

record trafficBucket =
  tb_packets :: rat
  tb_bytes :: rat
  tb_last :: int

definition minFloat :: "rat \<Rightarrow> rat \<Rightarrow> rat" where
  "minFloat a b = (if a < b then a else b)"

definition take_tokens :: "nat \<Rightarrow> nat \<Rightarrow> nat \<Rightarrow> int \<Rightarrow> trafficBucket \<Rightarrow> bool \<times> trafficBucket" where
  "take_tokens packetRate byteRate size' now b =
     (let elapsed = of_int (now - tb_last b) / 10 ^ 9;
          elapsed = (if elapsed < 0 then 0 else elapsed);
          packets = minFloat (of_nat packetRate) (tb_packets b + elapsed * of_nat packetRate);
          bytes' = minFloat (of_nat byteRate) (tb_bytes b + elapsed * of_nat byteRate)
      in if packets < 1 \<or> bytes' < of_nat size'
         then (False, b\<lparr>tb_packets := packets, tb_bytes := bytes', tb_last := now\<rparr>)
         else (True, b\<lparr>tb_packets := packets - 1, tb_bytes := bytes' - of_nat size', tb_last := now\<rparr>))"

text \<open>A sequence of requests of some sizes at some times: how many packets and bytes get through.\<close>

fun take_all :: "nat \<Rightarrow> nat \<Rightarrow> (nat \<times> int) list \<Rightarrow> trafficBucket \<Rightarrow> nat \<times> nat \<times> trafficBucket" where
  "take_all packetRate byteRate [] b = (0, 0, b)"
| "take_all packetRate byteRate ((size', now) # reqs) b =
     (let (ok, b) = take_tokens packetRate byteRate size' now b; (n, m, b) = take_all packetRate byteRate reqs b
      in (if ok then (Suc n, size' + m, b) else (n, m, b)))"

lemma take_tokens_bounds:
  assumes "take_tokens pr br size' now b = (ok, b')" "tb_last b \<le> now" "0 \<le> tb_packets b" "0 \<le> tb_bytes b"
  shows "0 \<le> tb_packets b'" "0 \<le> tb_bytes b'" "tb_last b' = now"
    "tb_packets b' + (if ok then 1 else 0) \<le> tb_packets b + of_int (now - tb_last b) / 10 ^ 9 * of_nat pr"
    "tb_bytes b' + (if ok then of_nat size' else 0) \<le> tb_bytes b + of_int (now - tb_last b) / 10 ^ 9 * of_nat br"
  using assms by (auto simp: take_tokens_def minFloat_def Let_def split: if_splits)

lemma take_all_bound:
  "0 \<le> tb_packets b \<Longrightarrow> 0 \<le> tb_bytes b \<Longrightarrow> sorted (tb_last b # map snd reqs) \<Longrightarrow> take_all pr br reqs b = (n, m, b')
     \<Longrightarrow> of_nat n \<le> tb_packets b + of_int (last (tb_last b # map snd reqs) - tb_last b) / 10 ^ 9 * of_nat pr
       \<and> of_nat m \<le> tb_bytes b + of_int (last (tb_last b # map snd reqs) - tb_last b) / 10 ^ 9 * of_nat br"
proof (induction reqs arbitrary: b n m)
  case (Cons req reqs)
  obtain size' now where req: "req = (size', now)" by fastforce
  obtain ok b1 where a: "take_tokens pr br size' now b = (ok, b1)" by fastforce
  obtain k l where k: "take_all pr br reqs b1 = (k, l, b')" "n = (if ok then Suc k else k)"
      "m = (if ok then size' + l else l)"
    using Cons.prems(4) a req by (auto simp: Let_def split: prod.splits if_splits)
  have le: "tb_last b \<le> now" using Cons.prems(3) req by simp
  note t = take_tokens_bounds [OF a le Cons.prems(1,2)]
  let ?T = "last (now # map snd reqs)"
  have "of_nat k \<le> tb_packets b1 + of_int (?T - now) / 10 ^ 9 * of_nat pr
      \<and> of_nat l \<le> tb_bytes b1 + of_int (?T - now) / 10 ^ 9 * of_nat br"
    using Cons.IH [OF t(1,2) _ k(1)] Cons.prems(3) t(3) req by simp
  moreover have "of_nat n = (of_nat k :: rat) + (if ok then 1 else 0)"
    "of_nat m = (of_nat l :: rat) + (if ok then of_nat size' else 0)" using k by auto
  ultimately have "of_nat n \<le> tb_packets b + of_int (now - tb_last b) / 10 ^ 9 * of_nat pr + of_int (?T - now) / 10 ^ 9 * of_nat pr"
    "of_nat m \<le> tb_bytes b + of_int (now - tb_last b) / 10 ^ 9 * of_nat br + of_int (?T - now) / 10 ^ 9 * of_nat br"
    using t(4,5) by linarith+
  moreover have "last (tb_last b # map snd (req # reqs)) = ?T" using req by simp
  ultimately show ?case by (simp add: field_simps)
qed simp

section \<open>The relay\<close>

text \<open>The callbacks act on a world: injecting a packet, the addresses of the members, sending a datagram.\<close>

record 'w relay_config =
  rl_inject :: "bytes \<Rightarrow> 'w \<Rightarrow> goerror option \<times> 'w"
  rl_members :: "'w \<Rightarrow> addr list"
  rl_send :: "addr \<Rightarrow> bytes \<Rightarrow> 'w \<Rightarrow> goerror option \<times> 'w"

record relayCore =
  rc_replay :: ReplayWindow
  rc_memberLim :: "(addr, trafficBucket) fmap"
  rc_roomLimit :: trafficBucket
  rc_accepted :: u64
  rc_forwarded :: u64
  rc_dropped :: u64

definition newRelayCore :: "int \<Rightarrow> relayCore" where
  "newRelayCore now = \<lparr>rc_replay = NewReplayWindow 1024 (5 * 10 ^ 9), rc_memberLim = fmempty,
     rc_roomLimit = \<lparr>tb_packets = of_nat roomPacketsPerSecond, tb_bytes = 2 ^ 30, tb_last = now\<rparr>,
     rc_accepted = 0, rc_forwarded = 0, rc_dropped = 0\<rparr>"

definition relay_allow :: "addr \<Rightarrow> nat \<Rightarrow> int \<Rightarrow> relayCore \<Rightarrow> bool \<times> relayCore" where
  "relay_allow sender size' now r =
     (let member = (case fmlookup (rc_memberLim r) sender of
            Some b \<Rightarrow> b
          | None \<Rightarrow> \<lparr>tb_packets = of_nat memberPacketsPerSecond, tb_bytes = of_nat memberBytesPerSecond, tb_last = now\<rparr>);
          (ok, member) = take_tokens memberPacketsPerSecond memberBytesPerSecond size' now member;
          r = r\<lparr>rc_memberLim := fmupd sender member (rc_memberLim r)\<rparr>
      in if \<not> ok then (False, r)
         else (let (ok, b) = take_tokens roomPacketsPerSecond (2 ^ 30) size' now (rc_roomLimit r)
               in (ok, r\<lparr>rc_roomLimit := b\<rparr>)))"

definition containsIP :: "addr list \<Rightarrow> addr \<Rightarrow> bool" where
  "containsIP values' target = list_ex (\<lambda>value'. value' = target) values'"

text \<open>The loop of \<open>fanout\<close>; a frame of the host has the zero address as sender.\<close>

fun fanout_loop :: "'w relay_config \<Rightarrow> addr \<Rightarrow> bytes \<Rightarrow> addr list \<Rightarrow> relayCore \<times> 'w \<Rightarrow> relayCore \<times> 'w" where
  "fanout_loop cfg sender payload [] (r, w) = (r, w)"
| "fanout_loop cfg sender payload (member # ms) (r, w) =
     (if member = sender \<or> \<not> validSender member \<or> member = host_ip then fanout_loop cfg sender payload ms (r, w)
      else
        (let (err, w) = rl_send cfg member payload w;
             r = (if err = None then r\<lparr>rc_forwarded := rc_forwarded r + 1\<rparr> else r\<lparr>rc_dropped := rc_dropped r + 1\<rparr>)
         in fanout_loop cfg sender payload ms (r, w)))"

definition fanout :: "'w relay_config \<Rightarrow> addr \<Rightarrow> bytes \<Rightarrow> relayCore \<times> 'w \<Rightarrow> relayCore \<times> 'w" where
  "fanout cfg sender payload rw = fanout_loop cfg sender payload (rl_members cfg (snd rw)) rw"

definition relay_member ::
  "'w relay_config \<Rightarrow> Frame \<Rightarrow> addr \<Rightarrow> int \<Rightarrow> relayCore \<times> 'w \<Rightarrow> goerror option \<times> relayCore \<times> 'w" where
  "relay_member cfg frame source now rw =
     (let (r, w) = rw in
      if fr_Flags frame \<noteq> 0 \<or> fr_SenderIP frame \<noteq> source \<or> \<not> containsIP (rl_members cfg w) source
      then (Some errFrame, r, w)
      else
        (let (err, window) = Accept source (fr_Sequence frame) now (rc_replay r); r = r\<lparr>rc_replay := window\<rparr> in
         if err \<noteq> None then (Some errFrame, r, w)
         else
           (let (ok, r) = relay_allow source (length (fr_Packet frame)) now r in
            if \<not> ok then (Some errFrame, r, w)
            else
              (case EncodeFrame frame of
                 Inl e \<Rightarrow> (Some e, r, w)
               | Inr payload \<Rightarrow>
                   (let (err, w) = rl_inject cfg (fr_Packet frame) w in
                    if err \<noteq> None then (err, r, w)
                    else (None, fanout cfg (fr_SenderIP frame) payload (r\<lparr>rc_accepted := rc_accepted r + 1\<rparr>, w)))))))"

definition relay_host :: "'w relay_config \<Rightarrow> Frame \<Rightarrow> int \<Rightarrow> relayCore \<times> 'w \<Rightarrow> goerror option \<times> relayCore \<times> 'w" where
  "relay_host cfg frame now rw =
     (let (r, w) = rw in
      if fr_Flags frame \<noteq> FlagHostOrigin \<or> fr_SenderIP frame \<noteq> host_ip then (Some errFrame, r, w)
      else
        (let (ok, r) = relay_allow (fr_SenderIP frame) (length (fr_Packet frame)) now r in
         if \<not> ok then (Some errFrame, r, w)
         else
           (case EncodeFrame frame of
              Inl e \<Rightarrow> (Some e, r, w)
            | Inr payload \<Rightarrow> (None, fanout cfg AddrZero payload (r\<lparr>rc_accepted := rc_accepted r + 1\<rparr>, w)))))"

definition relay_drop :: "relayCore \<Rightarrow> relayCore" where
  "relay_drop r = r\<lparr>rc_dropped := rc_dropped r + 1\<rparr>"

text \<open>
  A turn of \<open>readRemote\<close> with a datagram, cut to the size of the buffer, and one of \<open>readLocal\<close> with a
  frame of the host.
\<close>

definition read_remote :: "'w relay_config \<Rightarrow> bytes \<Rightarrow> addr \<Rightarrow> int \<Rightarrow> relayCore \<times> 'w \<Rightarrow> relayCore \<times> 'w" where
  "read_remote cfg datagram source now rw =
     (case DecodeFrame (take (headerBytes + MaxPacketBytes) datagram) of
        Inl _ \<Rightarrow> (relay_drop (fst rw), snd rw)
      | Inr frame \<Rightarrow>
          (let (err, r, w) = relay_member cfg frame source now rw
           in (if err \<noteq> None then relay_drop r else r, w)))"

definition read_local :: "'w relay_config \<Rightarrow> Frame \<Rightarrow> int \<Rightarrow> relayCore \<times> 'w \<Rightarrow> relayCore \<times> 'w" where
  "read_local cfg frame now rw =
     (let (err, r, w) = relay_host cfg frame now rw in (if err \<noteq> None then relay_drop r else r, w))"

definition relay_stats :: "relayCore \<Rightarrow> u64 \<times> u64 \<times> u64" where
  "relay_stats r = (rc_accepted r, rc_forwarded r, rc_dropped r)"

text \<open>
  \<open>StartHostRelay\<close>: the arguments that may be nil are options; \<open>listen\<close> is the outcome of
  \<open>listenHostRelay\<close>. A send goes to the member's address at the relay port.
\<close>

definition StartHostRelay ::
  "u16 \<Rightarrow> bool \<Rightarrow> (bytes \<Rightarrow> 'w \<Rightarrow> goerror option \<times> 'w) option \<Rightarrow> ('w \<Rightarrow> addr list) option \<Rightarrow> goerror option
     \<Rightarrow> (addr \<times> u16 \<Rightarrow> bytes \<Rightarrow> 'w \<Rightarrow> goerror option \<times> 'w) \<Rightarrow> int \<Rightarrow> ('w relay_config \<times> relayCore) result" where
  "StartHostRelay port has_local inject members listen write' now =
     (case (inject, members) of
        (Some inject, Some members) \<Rightarrow>
          if port = 0 \<or> \<not> has_local then Inl errFrame
          else
            (case listen of
               Some e \<Rightarrow> Inl e
             | None \<Rightarrow> Inr (\<lparr>rl_inject = inject, rl_members = members,
                            rl_send = (\<lambda>ip payload. write' (ip, port) payload)\<rparr>, newRelayCore now))
      | _ \<Rightarrow> Inl errFrame)"

text \<open>
  \<open>listenHostRelay\<close>: the attempts with their outcome and whether the deadline has passed after it; the
  system goes on failing for ever only when the list is infinite, and the deadline ends it.
\<close>

fun listenHostRelay :: "(goerror option \<times> bool) list \<Rightarrow> goerror option option" where
  "listenHostRelay [] = None"
| "listenHostRelay ((err, late) # attempts) =
     (case err of None \<Rightarrow> Some None | Some e \<Rightarrow> if late then Some (Some e) else listenHostRelay attempts)"

text \<open>\<open>HostRelay.Close\<close>: the flag is its \<open>once\<close>, \<open>err\<close> the outcome of closing the connection.\<close>

definition relay_close :: "goerror option \<Rightarrow> bool \<Rightarrow> goerror option \<times> bool" where
  "relay_close err once =
     (let err = (if once then None else err) in
      (case err of Some e \<Rightarrow> if errors_is e NetErrClosed then None else Some e | None \<Rightarrow> None, True))"

section \<open>Who gets a frame\<close>

text \<open>The members a frame goes to, and the sends to them in their order.\<close>

definition targets :: "addr \<Rightarrow> addr list \<Rightarrow> addr list" where
  "targets sender ms = filter (\<lambda>m. m \<noteq> sender \<and> validSender m \<and> m \<noteq> host_ip) ms"

definition send_all :: "'w relay_config \<Rightarrow> bytes \<Rightarrow> addr list \<Rightarrow> 'w \<Rightarrow> 'w" where
  "send_all cfg payload ms w = fold (\<lambda>m w. snd (rl_send cfg m payload w)) ms w"

lemma fanout_loop_sends:
  "fanout_loop cfg sender payload ms (r, w) = (r', w') \<Longrightarrow>
     w' = send_all cfg payload (targets sender ms) w
     \<and> rc_forwarded r' + rc_dropped r' = rc_forwarded r + rc_dropped r + of_nat (length (targets sender ms))
     \<and> rc_accepted r' = rc_accepted r"
proof (induction ms arbitrary: r w)
  case (Cons m ms)
  show ?case
  proof (cases "m = sender \<or> \<not> validSender m \<or> m = host_ip")
    case True
    with Cons show ?thesis by (auto simp: targets_def)
  next
    case False
    obtain err w1 where s: "rl_send cfg m payload w = (err, w1)" by fastforce
    from Cons.IH [of _ w1] Cons.prems False s show ?thesis
      by (force simp: targets_def send_all_def Let_def algebra_simps split: if_splits)
  qed
qed (simp add: targets_def send_all_def)

text \<open>An accepted frame of a member: what was checked, and what was done with it.\<close>

lemma relay_member_accepts:
  assumes "relay_member cfg frame source now (r, w) = (None, r', w')"
  shows "fr_Flags frame = 0 \<and> fr_SenderIP frame = source \<and> source \<in> set (rl_members cfg w)
    \<and> fst (Accept source (fr_Sequence frame) now (rc_replay r)) = None
    \<and> (\<exists>payload w1. EncodeFrame frame = Inr payload \<and> rl_inject cfg (fr_Packet frame) w = (None, w1)
        \<and> w' = send_all cfg payload (targets source (rl_members cfg w1)) w1
        \<and> rc_accepted r' = rc_accepted r + 1)"
proof -
  obtain err window where a: "Accept source (fr_Sequence frame) now (rc_replay r) = (err, window)" by fastforce
  obtain ok r1 where l: "relay_allow source (length (fr_Packet frame)) now (r\<lparr>rc_replay := window\<rparr>) = (ok, r1)" by fastforce
  have acc: "rc_accepted r1 = rc_accepted r"
    using l by (auto simp: relay_allow_def Let_def split: prod.splits if_splits)
  note s = assms [unfolded relay_member_def Let_def prod.case a l]
  have c: "fr_Flags frame = 0" "fr_SenderIP frame = source" "source \<in> set (rl_members cfg w)" "err = None" "ok"
    using s by (auto simp: containsIP_def list_ex_iff split: if_splits)
  then obtain payload w1 where p: "EncodeFrame frame = Inr payload" "rl_inject cfg (fr_Packet frame) w = (None, w1)"
    and f: "fanout cfg source payload (r1\<lparr>rc_accepted := rc_accepted r1 + 1\<rparr>, w1) = (r', w')"
    using s by (auto simp: a l split: if_splits sum.splits prod.splits)
  from fanout_loop_sends [OF f [unfolded fanout_def snd_conv]] c p a acc show ?thesis by auto
qed

end
