(* ===== verification/Discovery_Tun.thy ===== *)
theory Discovery_Tun
  imports Discovery_Frame
begin

text \<open>
  \<open>internal/discovery/tun.go\<close>: the wrapper of the tunnel device. On a member it turns the discovery
  packets the system sends into relay datagrams to the host and unpacks the ones that come back; on
  the host it hands them to the relay.
\<close>

section \<open>IPv4 and UDP\<close>

text \<open>The first loop of \<open>ipv4Checksum\<close>; headers have an even number of bytes.\<close>

fun sum16 :: "bytes \<Rightarrow> u32 \<Rightarrow> u32" where
  "sum16 (a # b # rest) acc = sum16 rest (acc + of_nat (unat (be_word [a, b] :: u16)))"
| "sum16 _ acc = acc"

lemma halves:
  "unat (drop_bit 16 (s :: u32)) = unat s div 65536" "unat (s AND 0xFFFF) = unat s mod 65536"
proof -
  show "unat (drop_bit 16 s) = unat s div 65536" by (simp only: unat_drop_bit_eq) (simp add: drop_bit_eq_div)
  have "s AND 0xFFFF = take_bit 16 s" by (simp add: take_bit_eq_mask mask_eq_exp_minus_1)
  then show "unat (s AND 0xFFFF) = unat s mod 65536"
    by (simp only: unsigned_take_bit_eq) (simp add: take_bit_eq_mod)
qed

text \<open>The loop that folds the carries in.\<close>

function fold_carry :: "u32 \<Rightarrow> u32" where
  "fold_carry s = (if s > 0xFFFF then fold_carry (drop_bit 16 s + (s AND 0xFFFF)) else s)"
  by pat_completeness auto

lemma carry_step:
  "unat (drop_bit 16 (s :: u32) + (s AND 0xFFFF)) = unat s div 65536 + unat s mod 65536"
proof -
  have "unat s < 2 ^ LENGTH(32)" by (rule unsigned_less)
  then have "unat s div 65536 < 65536" by (simp add: less_mult_imp_div_less)
  moreover have "unat s mod 65536 < 65536" by simp
  ultimately have "unat s div 65536 + unat s mod 65536 < 2 ^ 32" by simp
  then show ?thesis by (simp add: unat_plus_if' halves)
qed

termination fold_carry
proof (relation "measure unat", goal_cases)
  case (2 s)
  then have "65535 < unat s" by (simp add: word_less_nat_alt)
  then have "0 < unat s div 65536" by (simp add: div_greater_zero_iff)
  moreover have "unat s = 65536 * (unat s div 65536) + unat s mod 65536" by simp
  ultimately have "unat s div 65536 + unat s mod 65536 < unat s" by linarith
  then show ?case by (simp add: carry_step)
qed simp

declare fold_carry.simps [simp del]

definition ipv4Checksum :: "bytes \<Rightarrow> u16" where
  "ipv4Checksum header = NOT (of_nat (unat (fold_carry (sum16 header 0))))"

text \<open>The header \<open>buildIPv4UDP\<close> writes, with a given checksum field.\<close>

definition ipv4_header :: "nat \<Rightarrow> addr \<Rightarrow> addr \<Rightarrow> u16 \<Rightarrow> bytes" where
  "ipv4_header len source destination checksum =
     [0x45, 0] @ be_bytes (of_nat len :: u16) @ [0, 0, 0, 0, 64, 17] @ be_bytes checksum @ As4 source @ As4 destination"

definition buildIPv4UDP :: "addr \<Rightarrow> addr \<Rightarrow> u16 \<Rightarrow> u16 \<Rightarrow> bytes \<Rightarrow> bytes" where
  "buildIPv4UDP source destination sourcePort destinationPort payload =
     (let len = 28 + length payload in
      ipv4_header len source destination (ipv4Checksum (ipv4_header len source destination 0))
        @ be_bytes sourcePort @ be_bytes destinationPort @ be_bytes (of_nat (8 + length payload) :: u16) @ [0, 0]
        @ payload)"

definition relayPayload :: "bytes \<Rightarrow> addr \<Rightarrow> addr \<Rightarrow> u16 \<Rightarrow> bytes option" where
  "relayPayload packet source destination port =
     (if length packet < 28 \<or> drop_bit 4 (packet ! 0) \<noteq> 4 \<or> packet ! 9 \<noteq> 17 \<or> be16 packet 6 AND 0x3FFF \<noteq> 0 then None
      else if headerLength packet < 20 \<or> headerLength packet + 8 > length packet
        \<or> unat (be16 packet 2) \<noteq> length packet then None
      else
        (let src = AddrFrom4 (subslice 12 16 packet); dst = AddrFrom4 (subslice 16 20 packet);
             udp = drop (headerLength packet) packet
         in if src \<noteq> source \<or> dst \<noteq> destination \<or> be16 udp 2 \<noteq> port \<or> unat (be16 udp 4) \<noteq> length udp then None
            else Some (drop 8 udp)))"

definition packetSource :: "bytes \<Rightarrow> addr option" where
  "packetSource packet =
     (if length packet < 20 \<or> drop_bit 4 (packet ! 0) \<noteq> 4 then None else Some (AddrFrom4 (subslice 12 16 packet)))"

section \<open>The wrapped device\<close>

datatype Role = RoleClient | RoleHost

record discoveryTun =
  dt_role :: Role
  dt_localIP :: addr
  dt_relayPort :: u16
  dt_sequence :: u64
  dt_replay :: ReplayWindow

text \<open>\<open>Wrap\<close>: whether there is a device, and whether there is a callback.\<close>

definition Wrap :: "bool \<Rightarrow> Role \<Rightarrow> addr \<Rightarrow> u16 \<Rightarrow> bool \<Rightarrow> discoveryTun result" where
  "Wrap device role localIP relayPort onDiscovery =
     (if \<not> device \<or> \<not> validSender localIP \<or> relayPort = 0 \<or> (role = RoleHost \<and> \<not> onDiscovery) then Inl errFrame
      else Inr \<lparr>dt_role = role, dt_localIP = localIP, dt_relayPort = relayPort, dt_sequence = 0,
                dt_replay = NewReplayWindow 1024 (5 * 10 ^ 9)\<rparr>)"

text \<open>The buffers of a read: the bytes of each and the size of the packet it holds after the offset.\<close>

type_synonym buffers = "bytes list \<times> nat list"

definition keepPacket :: "nat \<Rightarrow> nat \<Rightarrow> bytes \<Rightarrow> buffers \<Rightarrow> nat \<times> buffers" where
  "keepPacket offset index packet bs =
     (let (buffers, sizes) = bs; b = buffers ! index in
      if offset + length packet > length b then (index, bs)
      else (index + 1, (buffers[index := take offset b @ packet @ drop (offset + length packet) b],
                        sizes[index := length packet])))"

text \<open>The frame the wrapper makes of a packet it reads.\<close>

definition read_frame_of :: "discoveryTun \<Rightarrow> bytes \<Rightarrow> Frame" where
  "read_frame_of t packet =
     \<lparr>fr_Flags = (if dt_role t = RoleHost then FlagHostOrigin else 0), fr_SenderIP = dt_localIP t,
      fr_Sequence = dt_sequence t, fr_Packet = packet\<rparr>"

text \<open>The loop of \<open>Read\<close> over the packets a read of the device gave; \<open>onDiscovery\<close> acts on a world.\<close>

fun read_packets ::
  "(Frame \<Rightarrow> 'w \<Rightarrow> 'w) \<Rightarrow> nat \<Rightarrow> nat list \<Rightarrow> nat \<Rightarrow> buffers \<Rightarrow> discoveryTun \<Rightarrow> 'w \<Rightarrow> nat \<times> buffers \<times> discoveryTun \<times> 'w" where
  "read_packets onDiscovery offset [] kept bs t w = (kept, bs, t, w)"
| "read_packets onDiscovery offset (i # is) kept bs t w =
     (let packet = subslice offset (offset + snd bs ! i) (fst bs ! i);
          t = t\<lparr>dt_sequence := dt_sequence t + 1\<rparr>;
          frame = read_frame_of t packet
      in (case EncodeFrame frame of
            Inl _ \<Rightarrow>
              (let (kept, bs) = keepPacket offset kept packet bs in read_packets onDiscovery offset is kept bs t w)
          | Inr payload \<Rightarrow>
              if dt_role t = RoleHost then read_packets onDiscovery offset is kept bs t (onDiscovery frame w)
              else
                (let relayPacket = buildIPv4UDP (dt_localIP t) host_ip (dt_relayPort t) (dt_relayPort t) payload;
                     (kept, bs) = keepPacket offset kept relayPacket bs
                 in read_packets onDiscovery offset is kept bs t w)))"

text \<open>
  \<open>Read\<close>: the outcomes of the reads of the device are a list; when it is used up the call still waits.
\<close>

fun tun_Read ::
  "(Frame \<Rightarrow> 'w \<Rightarrow> 'w) \<Rightarrow> nat \<Rightarrow> (nat \<times> goerror option \<times> buffers) list \<Rightarrow> discoveryTun \<Rightarrow> 'w
     \<Rightarrow> (nat \<times> goerror option \<times> buffers \<times> discoveryTun \<times> 'w) option" where
  "tun_Read onDiscovery offset [] t w = None"
| "tun_Read onDiscovery offset ((count, err, bs) # reads) t w =
     (let (kept, bs, t, w) = read_packets onDiscovery offset [0..<count] 0 bs t w in
      if kept > 0 \<or> err \<noteq> None then Some (kept, err, bs, t, w) else tun_Read onDiscovery offset reads t w)"

text \<open>The loop of \<open>Write\<close> on a member; each buffer comes with the time it is looked at.\<close>

fun write_filter :: "nat \<Rightarrow> (bytes \<times> int) list \<Rightarrow> discoveryTun \<Rightarrow> bytes list \<times> discoveryTun" where
  "write_filter offset [] t = ([], t)"
| "write_filter offset ((buffer, now) # bufs) t =
     (case relayPayload (drop offset buffer) host_ip (dt_localIP t) (dt_relayPort t) of
        None \<Rightarrow> (let (filtered, t) = write_filter offset bufs t in (buffer # filtered, t))
      | Some payload \<Rightarrow>
          (case DecodeFrame payload of
             Inl _ \<Rightarrow> write_filter offset bufs t
           | Inr frame \<Rightarrow>
               (let (err, window) = Accept (fr_SenderIP frame) (fr_Sequence frame) now (dt_replay t);
                    t = t\<lparr>dt_replay := window\<rparr>
                in if err \<noteq> None then write_filter offset bufs t
                   else (let (filtered, t) = write_filter offset bufs t
                         in ((replicate offset 0 @ fr_Packet frame) # filtered, t)))))"

text \<open>\<open>Write\<close>; \<open>device\<close> writes buffers to the underlying device and gives how many it took.\<close>

definition tun_Write ::
  "(bytes list \<Rightarrow> 'w \<Rightarrow> (nat \<times> goerror option) \<times> 'w) \<Rightarrow> nat \<Rightarrow> (bytes \<times> int) list \<Rightarrow> discoveryTun \<Rightarrow> 'w
     \<Rightarrow> (nat \<times> goerror option) \<times> discoveryTun \<times> 'w" where
  "tun_Write device offset bufs t w =
     (if dt_role t = RoleHost then (let (r, w) = device (map fst bufs) w in (r, t, w))
      else
        (let (filtered, t) = write_filter offset bufs t in
         if filtered = [] then ((length bufs, None), t, w)
         else (let ((_, err), w) = device filtered w in ((length bufs, err), t, w))))"

definition InjectInbound ::
  "(bytes list \<Rightarrow> 'w \<Rightarrow> (nat \<times> goerror option) \<times> 'w) \<Rightarrow> bytes \<Rightarrow> discoveryTun \<Rightarrow> 'w \<Rightarrow> goerror option \<times> 'w" where
  "InjectInbound device packet t w =
     (case packetSource packet of
        None \<Rightarrow> (Some errFrame, w)
      | Some sender \<Rightarrow>
          if dt_role t \<noteq> RoleHost \<or> \<not> validPacket sender packet then (Some errFrame, w)
          else (let ((_, err), w) = device [packet] w in (err, w)))"

section \<open>What the checksum is for\<close>

lemma fold_carry_mod:
  "unat (fold_carry s) mod 65535 = unat s mod 65535 \<and> unat (fold_carry s) < 65536 \<and> (fold_carry s = 0 \<longleftrightarrow> s = 0)"
proof (induction s rule: fold_carry.induct)
  case (1 s)
  show ?case
  proof (cases "s > 0xFFFF")
    case True
    let ?s = "drop_bit 16 s + (s AND 0xFFFF)"
    have "unat s = 65536 * (unat s div 65536) + unat s mod 65536" by simp
    then have "unat s = unat ?s + 65535 * (unat s div 65536)" unfolding carry_step by linarith
    then have "unat ?s mod 65535 = unat s mod 65535" by (metis mod_mult_self2)
    moreover have "0 < unat s div 65536" using True by (simp add: word_less_nat_alt div_greater_zero_iff)
    then have "?s \<noteq> 0" using carry_step [of s] by (metis add_is_0 less_numeral_extra(3) unat_0)
    moreover have "s \<noteq> 0" using True by auto
    ultimately show ?thesis using 1 [OF True] True by (simp add: fold_carry.simps [of s])
  next
    case False
    then have "fold_carry s = s" by (simp add: fold_carry.simps [of s])
    moreover have "unat s \<le> 65535" using False by (simp add: word_le_nat_alt not_less)
    ultimately show ?thesis by simp
  qed
qed

text \<open>
  The one's complement sum of a header with its checksum is 0xFFFF, which is how a receiver checks it:
  the sum is linear in the checksum field.
\<close>

lemma sum16_acc: "even (length bs) \<Longrightarrow> sum16 bs (acc + x) = sum16 bs acc + x"
  by (induction bs acc rule: sum16.induct) (auto simp: algebra_simps)

lemma sum16_append: "even (length xs) \<Longrightarrow> sum16 (xs @ ys) acc = sum16 ys (sum16 xs acc)"
  by (induction xs acc rule: sum16.induct) auto

lemma list2: "length xs = 2 \<Longrightarrow> \<exists>x y. xs = [x, y]"
  by (cases xs; cases "tl xs") auto

lemma sum16_header:
  assumes "Is4 src" "Is4 dst"
  shows "sum16 (ipv4_header len src dst c) 0 = sum16 (ipv4_header len src dst 0) 0 + of_nat (unat c)"
proof -
  let ?a = "[0x45, 0] @ be_bytes (of_nat len :: u16) @ [0, 0, 0, 0, 64, 17]" and ?z = "As4 src @ As4 dst"
  have l: "even (length ?a)" "even (length ?z)" using assms by simp_all
  have h: "sum16 (ipv4_header len src dst d) 0 = sum16 ?z (sum16 ?a 0) + of_nat (unat d)" for d
  proof -
    obtain x y where xy: "be_bytes d = [x, y]"
      using list2 [of "be_bytes d"] by auto
    have "sum16 (ipv4_header len src dst d) 0 = sum16 (?a @ be_bytes d @ ?z) 0" by (simp add: ipv4_header_def)
    also have "\<dots> = sum16 (be_bytes d @ ?z) (sum16 ?a 0)" by (rule sum16_append [OF l(1)])
    also have "\<dots> = sum16 ?z (sum16 ?a 0 + of_nat (unat d))"
      using be_word_be_bytes_widths(1) [of d] by (simp only: xy append_Cons append_Nil sum16.simps)
    also have "\<dots> = sum16 ?z (sum16 ?a 0) + of_nat (unat d)" by (rule sum16_acc [OF l(2)])
    finally show ?thesis .
  qed
  show ?thesis by (simp add: h)
qed

lemma unat_of_small: "n < 65536 \<Longrightarrow> unat (of_nat n :: u16) = n" "n < 65536 \<Longrightarrow> unat (of_nat n :: u32) = n"
  by (simp_all add: unat_of_nat)

lemma unat_NOT: "unat (NOT w) = 65535 - unat w" for w :: u16
proof -
  have "NOT w = 0xFFFF - w" using not_eq_complement [of w] by simp
  moreover have "unat w < 2 ^ LENGTH(16)" by (rule unsigned_less)
  then have "w \<le> 0xFFFF" by (simp add: word_le_nat_alt)
  ultimately show ?thesis using unat_sub [of w "0xFFFF"] by simp
qed

lemma ones_complement:
  assumes S: "S \<noteq> 0" "unat S < 2 ^ 31" and F: "fold_carry S = F" and c: "c = NOT (of_nat (unat F) :: u16)"
  shows "fold_carry (S + of_nat (unat c)) = 0xFFFF"
proof -
  note m = fold_carry_mod [of S, unfolded F]
  define f where "f = unat F"
  have f: "f mod 65535 = unat S mod 65535" "f < 65536" using m by (simp_all add: f_def)
  have C: "unat c = 65535 - f" unfolding c unat_NOT f_def [symmetric] unat_of_small(1) [OF f(2)] ..
  define C' :: u32 where "C' = of_nat (unat c)"
  have n: "unat C' = 65535 - f" unfolding C'_def C by (rule unat_of_small(2)) simp
  have "unat S + unat C' < 2 ^ LENGTH(32)" using S(2) n by simp
  then have u: "unat (S + C') = unat S + (65535 - f)" using unat_add_lem [of S C'] n by simp
  have "unat (S + C') mod 65535 = (unat S mod 65535 + (65535 - f)) mod 65535" unfolding u by (simp add: mod_simps)
  also have "\<dots> = (f + (65535 - f)) mod 65535" unfolding f(1) [symmetric] by (simp add: mod_simps)
  also have "\<dots> = 0" using f(2) by simp
  finally have z: "unat (S + C') mod 65535 = 0" .
  have "unat S \<noteq> 0" using S(1) by (simp add: unat_eq_0)
  then have "S + C' \<noteq> 0" using u by (metis add_is_0 unat_0)
  note M = fold_carry_mod [of "S + C'"]
  have "unat (fold_carry (S + C')) \<noteq> 0" using M \<open>S + C' \<noteq> 0\<close> by (simp add: unat_eq_0)
  moreover have "unat (fold_carry (S + C')) mod 65535 = 0" "unat (fold_carry (S + C')) < 65536" using M z by simp_all
  ultimately have "unat (fold_carry (S + C')) = 65535" by (auto elim!: dvdE simp: mod_eq_0_iff_dvd)
  then have "fold_carry (S + C') = 0xFFFF" by (simp add: word_unat_eq_iff)
  then show ?thesis by (simp add: C'_def)
qed

lemma checksum_valid:
  assumes "Is4 src" "Is4 dst" "sum16 (ipv4_header len src dst 0) 0 = S" "S \<noteq> 0" "unat S < 2 ^ 31"
  shows "fold_carry (sum16 (ipv4_header len src dst (ipv4Checksum (ipv4_header len src dst 0))) 0) = 0xFFFF"
  by (subst sum16_header [OF assms(1,2)], subst assms(3), rule ones_complement [OF assms(4,5) refl])
    (simp only: ipv4Checksum_def assms(3))

lemma sum16_bounds:
  "unat acc + 65536 * length bs < 2 ^ 32 \<Longrightarrow>
     unat acc \<le> unat (sum16 bs acc) \<and> unat (sum16 bs acc) \<le> unat acc + 65536 * length bs"
proof (induction bs acc rule: sum16.induct)
  case (1 a b rest acc)
  let ?w = "of_nat (unat (be_word [a, b] :: u16)) :: u32"
  have "unat (be_word [a, b] :: u16) < 2 ^ LENGTH(16)" by (rule unsigned_less)
  then have w: "unat ?w < 65536" using unat_of_small(2) [of "unat (be_word [a, b] :: u16)"] by simp
  have "unat acc + unat ?w < 2 ^ LENGTH(32)" using w "1.prems" by simp
  then have u: "unat (acc + ?w) = unat acc + unat ?w" using unat_add_lem [of acc ?w] by simp
  have "unat (acc + ?w) + 65536 * length rest < 2 ^ 32" unfolding u using w "1.prems" by simp
  from "1.IH" [OF this] show ?case unfolding u sum16.simps using w by simp
qed auto

lemma header_checksum:
  assumes "Is4 src" "Is4 dst"
  shows "fold_carry (sum16 (ipv4_header len src dst (ipv4Checksum (ipv4_header len src dst 0))) 0) = 0xFFFF"
proof (rule checksum_valid [OF assms refl])
  let ?r = "be_bytes (of_nat len :: u16) @ [0, 0, 0, 0, 64, 17] @ be_bytes (0 :: u16) @ As4 src @ As4 dst"
  have S: "sum16 (ipv4_header len src dst 0) 0 = sum16 ?r (of_nat (unat (be_word [0x45, 0] :: u16)))"
    by (simp add: ipv4_header_def)
  have w: "unat (of_nat (unat (be_word [0x45, 0] :: u16)) :: u32) = 0x4500" by (simp add: be_word_def)
  have l: "length ?r = 18" using assms by simp
  note b = sum16_bounds [of "of_nat (unat (be_word [0x45, 0] :: u16))" ?r, unfolded w l]
  then have lo: "17664 \<le> unat (sum16 ?r (of_nat (unat (be_word [0x45, 0] :: u16))))" by simp
  show "sum16 (ipv4_header len src dst 0) 0 \<noteq> 0" unfolding S
  proof
    assume "sum16 ?r (of_nat (unat (be_word [0x45, 0] :: u16))) = 0"
    with lo show False by (simp only: unat_0)
  qed
  show "unat (sum16 (ipv4_header len src dst 0) 0) < 2 ^ 31" unfolding S using b by simp
qed

section \<open>Relay datagrams\<close>

lemma length_ipv4_header: "Is4 src \<Longrightarrow> Is4 dst \<Longrightarrow> length (ipv4_header n src dst c) = 20"
  by (simp add: ipv4_header_def)

lemma relayPayload_build:
  assumes "Is4 src" "Is4 dst" "length payload \<le> 65507"
  shows "relayPayload (buildIPv4UDP src dst port' port payload) src dst port = Some payload"
proof -
  let ?n = "28 + length payload"
  define c where "c = ipv4Checksum (ipv4_header ?n src dst 0)"
  define p where "p = buildIPv4UDP src dst port' port payload"
  let ?u = "be_bytes port' @ be_bytes port @ be_bytes (of_nat (8 + length payload) :: u16) @ [0, 0] @ payload"
  have p: "p = ipv4_header ?n src dst c @ ?u" by (simp add: p_def c_def buildIPv4UDP_def Let_def)
  have n: "unat (of_nat ?n :: u16) = ?n" "unat (of_nat (8 + length payload) :: u16) = 8 + length payload"
    using assms(3) by (simp_all only: unat_of_small(1))
  have l: "length (As4 src) = 4" "length (As4 dst) = 4" using assms by simp_all
  have s: "length p = ?n" "p ! 0 = 0x45" "p ! 9 = 17" "subslice 6 8 p = [0, 0]" "subslice 12 16 p = As4 src"
    "subslice 16 20 p = As4 dst" "subslice 2 4 p = be_bytes (of_nat ?n :: u16)" "drop 20 p = ?u"
    unfolding p ipv4_header_def using l by (simp_all add: subslice_def nth_append del: of_nat_add)
  have h: "headerLength p = 20" by (simp add: headerLength_def s(2))
  have u: "subslice 2 4 ?u = be_bytes port" "subslice 4 6 ?u = be_bytes (of_nat (8 + length payload) :: u16)"
    "drop 8 ?u = payload" "length ?u = 8 + length payload" by (simp_all add: subslice_def del: of_nat_add)
  have "be16 p 6 AND 0x3FFF = 0" using s(4) by (simp add: be16_def be_word_def)
  moreover have "unat (be16 p 2) = ?n" using s(7) n(1) by (simp add: be16_def del: of_nat_add)
  ultimately have B: "be16 p 6 AND 0x3FFF = 0" "unat (be16 p 2) = ?n" by blast+
  have U: "be16 ?u 2 = port" "unat (be16 ?u 4) = 8 + length payload" using u(1,2) n(2) by (simp_all only: be16_def) simp_all
  have d: "drop_bit 4 (p ! 0) = 4" by (simp add: s(2))
  show ?thesis
    unfolding p_def [symmetric] relayPayload_def Let_def h s(8) U B u s(1,3,5,6) d
    using assms(1,2) by simp
qed

section \<open>The loop of Read works in place\<close>

text \<open>
  The reference: the packets are looked at in order; a discovery packet is handed over on the host and
  replaced by its relay datagram on a member; a packet that does not fit is lost.
\<close>

fun deliver :: "(Frame \<Rightarrow> 'w \<Rightarrow> 'w) \<Rightarrow> nat \<Rightarrow> bytes list \<Rightarrow> discoveryTun \<Rightarrow> 'w \<Rightarrow> bytes list \<times> discoveryTun \<times> 'w" where
  "deliver onDiscovery cap [] t w = ([], t, w)"
| "deliver onDiscovery cap (packet # ps) t w =
     (let t = t\<lparr>dt_sequence := dt_sequence t + 1\<rparr>; frame = read_frame_of t packet in
      (case EncodeFrame frame of
         Inl _ \<Rightarrow>
           (let (out, t, w) = deliver onDiscovery cap ps t w in (if length packet \<le> cap then packet # out else out, t, w))
       | Inr payload \<Rightarrow>
           if dt_role t = RoleHost then deliver onDiscovery cap ps t (onDiscovery frame w)
           else
             (let q = buildIPv4UDP (dt_localIP t) host_ip (dt_relayPort t) (dt_relayPort t) payload;
                  (out, t, w) = deliver onDiscovery cap ps t w
              in (if length q \<le> cap then q # out else out, t, w))))"

definition packet_at :: "nat \<Rightarrow> buffers \<Rightarrow> nat \<Rightarrow> bytes" where
  "packet_at offset bs i = subslice offset (offset + snd bs ! i) (fst bs ! i)"

text \<open>All buffers have room for the same number of bytes after the offset.\<close>

definition uniform :: "nat \<Rightarrow> nat \<Rightarrow> nat \<Rightarrow> buffers \<Rightarrow> bool" where
  "uniform offset cap n bs \<longleftrightarrow> length (fst bs) = n \<and> length (snd bs) = n \<and> (\<forall>b\<in>set (fst bs). length b = offset + cap)"

lemma keepPacket_spec:
  assumes u: "uniform offset cap n bs" and k: "k < n"
  shows "length p \<le> cap \<Longrightarrow> \<exists>bs'. keepPacket offset k p bs = (k + 1, bs') \<and> uniform offset cap n bs'
      \<and> packet_at offset bs' k = p \<and> (\<forall>j. j \<noteq> k \<longrightarrow> packet_at offset bs' j = packet_at offset bs j)"
    and "\<not> length p \<le> cap \<Longrightarrow> keepPacket offset k p bs = (k, bs)"
proof -
  obtain buffers sizes where bs: "bs = (buffers, sizes)" by fastforce
  have l: "length (buffers ! k) = offset + cap" "length buffers = n" "length sizes = n"
    using u k by (auto simp: uniform_def bs)
  show "\<not> length p \<le> cap \<Longrightarrow> keepPacket offset k p bs = (k, bs)" using l by (simp add: keepPacket_def bs)
  assume fit: "length p \<le> cap"
  let ?b = "take offset (buffers ! k) @ p @ drop (offset + length p) (buffers ! k)"
  have "keepPacket offset k p bs = (k + 1, (buffers[k := ?b], sizes[k := length p]))"
    using l fit by (simp add: keepPacket_def bs Let_def)
  moreover have "uniform offset cap n (buffers[k := ?b], sizes[k := length p])"
    using u l fit set_update_subset_insert [of buffers k ?b] by (auto simp: uniform_def bs)
  moreover have "packet_at offset (buffers[k := ?b], sizes[k := length p]) k = p"
    using l k by (simp add: packet_at_def subslice_def)
  moreover have "packet_at offset (buffers[k := ?b], sizes[k := length p]) j = packet_at offset bs j" if "j \<noteq> k" for j
    using that by (simp add: packet_at_def bs)
  ultimately show "\<exists>bs'. keepPacket offset k p bs = (k + 1, bs') \<and> uniform offset cap n bs'
      \<and> packet_at offset bs' k = p \<and> (\<forall>j. j \<noteq> k \<longrightarrow> packet_at offset bs' j = packet_at offset bs j)"
    by blast
qed

lemma read_packets_deliver:
  assumes "uniform offset cap n bs" "kept \<le> i" "count \<le> n"
    and "read_packets onDiscovery offset [i..<count] kept bs t w = (kept', bs', t', w')"
  shows "\<exists>out. deliver onDiscovery cap (map (packet_at offset bs) [i..<count]) t w = (out, t', w')
    \<and> map (packet_at offset bs') [0..<kept'] = map (packet_at offset bs) [0..<kept] @ out"
  using assms
proof (induction "count - i" arbitrary: i kept bs t w)
  case 0
  then show ?case by simp
next
  case (Suc m)
  then have i: "i < count" by simp
  let ?p = "packet_at offset bs i" and ?t = "t\<lparr>dt_sequence := dt_sequence t + 1\<rparr>"
  have r: "[i..<count] = i # [Suc i..<count]" using i by (simp add: upt_conv_Cons)
  have k: "kept < n" using i Suc.prems by simp
  note IH = Suc.hyps(1) [of "Suc i"]
  have mm: "m = count - Suc i" using Suc.hyps(2) by simp
  have keep: "\<exists>out. deliver onDiscovery cap (map (packet_at offset bs) [Suc i..<count]) ?t w = (out, t', w')
      \<and> map (packet_at offset bs') [0..<kept'] = map (packet_at offset bs) [0..<kept] @ (if length q \<le> cap then q # out else out)"
    if q: "(let (kept, bs) = keepPacket offset kept q bs in
        read_packets onDiscovery offset [Suc i..<count] kept bs ?t w) = (kept', bs', t', w')" for q
  proof (cases "length q \<le> cap")
    case True
    from keepPacket_spec(1) [OF Suc.prems(1) k True] obtain bs1 where
      b: "keepPacket offset kept q bs = (kept + 1, bs1)" "uniform offset cap n bs1"
        "packet_at offset bs1 kept = q" "\<And>j. j \<noteq> kept \<Longrightarrow> packet_at offset bs1 j = packet_at offset bs j" by blast
    have m: "map (packet_at offset bs1) [Suc i..<count] = map (packet_at offset bs) [Suc i..<count]"
      "map (packet_at offset bs1) [0..<kept + 1] = map (packet_at offset bs) [0..<kept] @ [q]"
      using b(3,4) Suc.prems(2) by auto
    have "read_packets onDiscovery offset [Suc i..<count] (kept + 1) bs1 ?t w = (kept', bs', t', w')"
      using q b(1) by simp
    from IH [OF mm b(2) _ Suc.prems(3) this, unfolded m] Suc.prems(2) True show ?thesis by simp
  next
    case False
    then have "read_packets onDiscovery offset [Suc i..<count] kept bs ?t w = (kept', bs', t', w')"
      using q keepPacket_spec(2) [OF Suc.prems(1) k False] by simp
    from IH [OF mm Suc.prems(1) _ Suc.prems(3) this] Suc.prems(2) False show ?thesis by simp
  qed
  note R = Suc.prems(4) [unfolded r read_packets.simps, folded packet_at_def, unfolded Let_def]
  show ?case
  proof (cases "EncodeFrame (read_frame_of ?t ?p)")
    case (Inl e)
    with R have "(let (kept, bs) = keepPacket offset kept ?p bs in
        read_packets onDiscovery offset [Suc i..<count] kept bs ?t w) = (kept', bs', t', w')" by (simp add: Let_def)
    from keep [OF this] Inl show ?thesis by (auto simp: r Let_def)
  next
    case (Inr payload)
    show ?thesis
    proof (cases "dt_role t = RoleHost")
      case True
      with R Inr have "read_packets onDiscovery offset [Suc i..<count] kept bs ?t (onDiscovery (read_frame_of ?t ?p) w)
          = (kept', bs', t', w')" by simp
      from IH [OF mm Suc.prems(1) _ Suc.prems(3) this] Suc.prems(2) Inr True show ?thesis
        by (simp add: r Let_def)
    next
      case False
      let ?q = "buildIPv4UDP (dt_localIP t) host_ip (dt_relayPort t) (dt_relayPort t) payload"
      from R Inr False have "(let (kept, bs) = keepPacket offset kept ?q bs in
        read_packets onDiscovery offset [Suc i..<count] kept bs ?t w) = (kept', bs', t', w')" by (simp add: Let_def)
      from keep [OF this] Inr False show ?thesis by (auto simp: r Let_def)
    qed
  qed
qed

text \<open>A read of the device, from the first buffer on.\<close>

lemma read_in_place:
  assumes "uniform offset cap n bs" "count \<le> n"
    and "read_packets onDiscovery offset [0..<count] 0 bs t w = (kept', bs', t', w')"
  shows "deliver onDiscovery cap (map (packet_at offset bs) [0..<count]) t w
    = (map (packet_at offset bs') [0..<kept'], t', w')"
  using read_packets_deliver [OF assms(1) order_refl assms(2,3)] by auto

section \<open>From a member to the host and back\<close>

text \<open>What a member sends for one of its discovery packets is, at the host, a datagram whose payload decodes to it.\<close>

lemma member_to_host:
  assumes t: "dt_role t = RoleClient" "validSender (dt_localIP t)" and p: "validPacket (dt_localIP t) packet"
    and cap: "length packet + 48 \<le> cap"
  shows "\<exists>q payload. fst (deliver onDiscovery cap [packet] t w) = [q]
    \<and> relayPayload q (dt_localIP t) host_ip (dt_relayPort t) = Some payload
    \<and> DecodeFrame payload = Inr \<lparr>fr_Flags = 0, fr_SenderIP = dt_localIP t, fr_Sequence = dt_sequence t + 1, fr_Packet = packet\<rparr>"
proof -
  let ?t = "t\<lparr>dt_sequence := dt_sequence t + 1\<rparr>"
  let ?f = "read_frame_of ?t packet"
  have f: "?f = \<lparr>fr_Flags = 0, fr_SenderIP = dt_localIP t, fr_Sequence = dt_sequence t + 1, fr_Packet = packet\<rparr>"
    using t by (simp add: read_frame_of_def)
  then have v: "frame_valid ?f" using p by (simp add: frame_valid_def)
  then obtain payload where e: "EncodeFrame ?f = Inr payload" using EncodeFrame_total by blast
  have ip: "Is4 (dt_localIP t)" "Is4 host_ip" using t(2) by (simp_all add: validSender_Is4 host_ip_def)
  have l: "length payload = 20 + length packet" "length packet \<le> 1200"
    using e ip validPacketD(3) [OF p] unfolding EncodeFrame_def f
    by (auto simp: magic_def MaxPacketBytes_def split: if_splits)
  let ?q = "buildIPv4UDP (dt_localIP t) host_ip (dt_relayPort t) (dt_relayPort t) payload"
  have "length ?q = 48 + length packet" using l ip by (simp add: buildIPv4UDP_def Let_def length_ipv4_header)
  then have "fst (deliver onDiscovery cap [packet] t w) = [?q]" using e t cap by (simp add: Let_def)
  moreover have "relayPayload ?q (dt_localIP t) host_ip (dt_relayPort t) = Some payload"
    by (rule relayPayload_build [OF ip]) (use l in simp)
  moreover have "DecodeFrame payload = Inr ?f" by (rule DecodeFrame_Encode [OF v e])
  ultimately show ?thesis unfolding f by blast
qed

text \<open>What the host sends a member for a frame is, there, the frame's packet, unless it was seen before.\<close>

lemma host_to_member:
  assumes f: "EncodeFrame frame = Inr payload" and ip: "Is4 (dt_localIP t)"
    and buffer: "length pre = offset" "buffer = pre @ buildIPv4UDP host_ip (dt_localIP t) port (dt_relayPort t) payload"
    and fresh: "fst (Accept (fr_SenderIP frame) (fr_Sequence frame) now (dt_replay t)) = None"
  shows "fst (write_filter offset [(buffer, now)] t) = [replicate offset 0 @ fr_Packet frame]"
proof -
  have v: "frame_valid frame" using f by (auto simp: EncodeFrame_def frame_valid_def split: if_splits)
  have l: "length payload \<le> 65507"
    using f v validPacketD(1,3) [of "fr_SenderIP frame" "fr_Packet frame"] validSender_Is4
    by (auto simp: EncodeFrame_def magic_def MaxPacketBytes_def frame_valid_def split: if_splits)
  have "relayPayload (drop offset buffer) host_ip (dt_localIP t) (dt_relayPort t) = Some payload"
    using buffer relayPayload_build [OF _ ip l, of host_ip] by (simp add: host_ip_def)
  then show ?thesis
    using DecodeFrame_Encode [OF v f] fresh by (auto simp: Let_def split: prod.split)
qed

end
