(* ===== verification/Wg_Config.thy ===== *)
theory Wg_Config
  imports Discovery_Tun Go_Json_Laws Go_Encoding
begin

text \<open>
  \<open>internal/wg/config.go\<close> and \<open>internal/wg/manager.go\<close>: the configuration messages for the WireGuard
  device, the statistics read back from it, and the manager that starts it, sets and removes peers,
  and closes it. The device and the system's interface commands are parameters.
\<close>

section \<open>Configuration messages\<close>

definition errConfig :: goerror where "errConfig = ErrTag WgErrConfig"

definition newline :: string where "newline = [CHR 0x0A]"

record Peer =
  pe_PublicKey :: arr32
  pe_PSK :: arr32
  pe_IP :: addr
  pe_Endpoint :: "addr \<times> u16"

text \<open>\<open>AddrPort.String\<close> of a valid address and port.\<close>

definition addrPort_string :: "addr \<times> u16 \<Rightarrow> string" where
  "addrPort_string ap =
     (let ip = addr_string (fst ap); port = dec_string (unat (snd ap)) in
      if Is4 (fst ap) then ip @ '':'' @ port else ''['' @ ip @ '']:'' @ port)"

definition wg_validIP :: "addr \<Rightarrow> bool \<Rightarrow> bool" where
  "wg_validIP ip client =
     (if \<not> Is4 ip then False
      else
        (let b = As4 ip in
         if client then b = [10, 0, 23, 1]
         else b ! 0 = 10 \<and> b ! 1 = 0 \<and> b ! 2 = 23 \<and> b ! 3 \<ge> 2 \<and> b ! 3 \<le> 254))"

definition deviceConfig :: "arr32 \<Rightarrow> u16 \<Rightarrow> string result" where
  "deviceConfig privateKey listenPort =
     (if isZero (be_bytes privateKey) then Inl errConfig
      else Inr (''private_key='' @ hex_encode (be_bytes privateKey) @ newline
        @ ''listen_port='' @ dec_string (unat listenPort) @ newline))"

definition peerConfig :: "Peer \<Rightarrow> bool \<Rightarrow> string result" where
  "peerConfig peer client =
     (if isZero (be_bytes (pe_PublicKey peer)) \<or> isZero (be_bytes (pe_PSK peer)) \<or> \<not> wg_validIP (pe_IP peer) client
      then Inl errConfig
      else
        (let head = ''public_key='' @ hex_encode (be_bytes (pe_PublicKey peer)) @ newline
               @ ''preshared_key='' @ hex_encode (be_bytes (pe_PSK peer)) @ newline @ ''replace_allowed_ips=true'' @ newline
         in if client then
              (if fst (pe_Endpoint peer) = AddrZero \<or> snd (pe_Endpoint peer) = 0 then Inl errConfig
               else Inr (head @ ''allowed_ip=10.0.23.0/24'' @ newline @ ''endpoint='' @ addrPort_string (pe_Endpoint peer)
                 @ newline @ ''persistent_keepalive_interval=25'' @ newline))
            else Inr (head @ ''allowed_ip='' @ addr_string (pe_IP peer) @ ''/32'' @ newline)))"

definition removePeerConfig :: "arr32 \<Rightarrow> string result" where
  "removePeerConfig publicKey =
     (if isZero (be_bytes publicKey) then Inl errConfig
      else Inr (''public_key='' @ hex_encode (be_bytes publicKey) @ newline @ ''remove=true'' @ newline))"

section \<open>Statistics\<close>

text \<open>\<open>strings.Split(value, "\n")\<close>, \<open>strings.Cut(line, "=")\<close>, \<open>strconv.ParseUint\<close> and \<open>ParseInt\<close> of base 10 and 64 bits.\<close>

fun split_on :: "char \<Rightarrow> string \<Rightarrow> string list" where
  "split_on c [] = [[]]"
| "split_on c (x # xs) =
     (if x = c then [] # split_on c xs else (case split_on c xs of [] \<Rightarrow> [[x]] | l # ls \<Rightarrow> (x # l) # ls))"

definition str_cut :: "char \<Rightarrow> string \<Rightarrow> (string \<times> string) option" where
  "str_cut c s = (if c \<in> set s then Some (takeWhile (\<lambda>x. x \<noteq> c) s, tl (dropWhile (\<lambda>x. x \<noteq> c) s)) else None)"

definition ParseUint :: "string \<Rightarrow> u64 option" where
  "ParseUint text =
     (if text = [] then None
      else (case dec_digits text 0 of None \<Rightarrow> None | Some n \<Rightarrow> if n < 2 ^ 64 then Some (of_nat n) else None))"

definition ParseInt :: "string \<Rightarrow> int option" where
  "ParseInt text =
     (case text of
        [] \<Rightarrow> None
      | c # t \<Rightarrow>
          (let digits = (if c = CHR ''+'' \<or> c = CHR ''-'' then t else text) in
           if digits = [] then None
           else
             (case dec_digits digits 0 of
                None \<Rightarrow> None
              | Some n \<Rightarrow>
                  if c = CHR ''-'' then (if n \<le> 2 ^ 63 then Some (- int n) else None)
                  else (if n < 2 ^ 63 then Some (int n) else None))))"

text \<open>The time of the last handshake is nanoseconds since the epoch.\<close>

record PeerStat =
  ps_PublicKey :: arr32
  ps_LastHandshake :: int
  ps_RxBytes :: u64
  ps_TxBytes :: u64

record stat_parser =
  sp_result :: "PeerStat list"
  sp_current :: "PeerStat option"
  sp_seconds :: int
  sp_nanos :: int

definition stat_flush :: "stat_parser \<Rightarrow> stat_parser" where
  "stat_flush p =
     p\<lparr>sp_result := (case sp_current p of
          None \<Rightarrow> sp_result p
        | Some s \<Rightarrow> sp_result p @ [s\<lparr>ps_LastHandshake := sp_seconds p * 10 ^ 9 + sp_nanos p\<rparr>]),
       sp_current := None, sp_seconds := 0, sp_nanos := 0\<rparr>"

text \<open>The body of the loop over the lines; \<open>None\<close> is \<open>ErrConfig\<close>.\<close>

definition stat_line :: "string \<Rightarrow> stat_parser \<Rightarrow> stat_parser option" where
  "stat_line line p =
     (case str_cut (CHR ''='') line of
        None \<Rightarrow> Some p
      | Some (key, text) \<Rightarrow>
          if key = ''public_key'' then
            (case hex_decode text of
               None \<Rightarrow> None
             | Some decoded \<Rightarrow>
                 if length decoded \<noteq> 32 then None
                 else Some ((stat_flush p)\<lparr>sp_current :=
                        Some \<lparr>ps_PublicKey = be_word decoded, ps_LastHandshake = 0, ps_RxBytes = 0, ps_TxBytes = 0\<rparr>\<rparr>))
          else
            (case sp_current p of
               None \<Rightarrow> Some p
             | Some current \<Rightarrow>
                 if key = ''last_handshake_time_sec'' then map_option (\<lambda>n. p\<lparr>sp_seconds := n\<rparr>) (ParseInt text)
                 else if key = ''last_handshake_time_nsec'' then map_option (\<lambda>n. p\<lparr>sp_nanos := n\<rparr>) (ParseInt text)
                 else if key = ''rx_bytes''
                 then map_option (\<lambda>n. p\<lparr>sp_current := Some (current\<lparr>ps_RxBytes := n\<rparr>)\<rparr>) (ParseUint text)
                 else if key = ''tx_bytes''
                 then map_option (\<lambda>n. p\<lparr>sp_current := Some (current\<lparr>ps_TxBytes := n\<rparr>)\<rparr>) (ParseUint text)
                 else Some p))"

fun stat_lines :: "string list \<Rightarrow> stat_parser \<Rightarrow> stat_parser option" where
  "stat_lines [] p = Some p"
| "stat_lines (line # lines) p = Option.bind (stat_line line p) (stat_lines lines)"

definition parsePeerStats :: "string \<Rightarrow> PeerStat list result" where
  "parsePeerStats v =
     (case stat_lines (split_on (CHR 0x0A) v) \<lparr>sp_result = [], sp_current = None, sp_seconds = 0, sp_nanos = 0\<rparr> of
        None \<Rightarrow> Inl errConfig
      | Some p \<Rightarrow> Inr (sp_result (stat_flush p)))"

section \<open>The manager\<close>

text \<open>The TUN device, the WireGuard engine and the interface commands, acting on a world.\<close>

record 'w wg_system =
  ws_createTUN :: "'w \<Rightarrow> string result \<times> 'w"
  ws_closeTUN :: "'w \<Rightarrow> 'w"
  ws_ipcSet :: "string \<Rightarrow> 'w \<Rightarrow> goerror option \<times> 'w"
  ws_ipcGet :: "'w \<Rightarrow> string result \<times> 'w"
  ws_up :: "'w \<Rightarrow> goerror option \<times> 'w"
  ws_configure :: "string \<Rightarrow> addr \<Rightarrow> bool \<Rightarrow> 'w \<Rightarrow> goerror option \<times> 'w"
  ws_cleanup :: "string \<Rightarrow> addr \<Rightarrow> 'w \<Rightarrow> goerror option \<times> 'w"
  ws_close :: "'w \<Rightarrow> 'w"

record StartOptions =
  so_PrivateKey :: arr32
  so_LocalIP :: addr
  so_ListenPort :: u16
  so_RelayPort :: u16
  so_Host :: bool
  so_OnDiscovery :: bool

record manager =
  mg_discovery :: discoveryTun
  mg_name :: string
  mg_localIP :: addr
  mg_closed :: bool

definition wg_Start :: "'w wg_system \<Rightarrow> StartOptions \<Rightarrow> 'w \<Rightarrow> manager result \<times> 'w" where
  "wg_Start sys options w =
     (if \<not> Is4 (so_LocalIP options) \<or> so_RelayPort options = 0 \<or> isZero (be_bytes (so_PrivateKey options))
         \<or> (so_Host options \<and> so_ListenPort options = 0) then (Inl errConfig, w)
      else if so_Host options \<and> (so_LocalIP options \<noteq> host_ip \<or> \<not> so_OnDiscovery options) then (Inl errConfig, w)
      else
        (let role = (if so_Host options then RoleHost else RoleClient); (base, w) = ws_createTUN sys w in
         case base of
           Inl e \<Rightarrow> (Inl e, w)
         | Inr name \<Rightarrow>
             (case Wrap True role (so_LocalIP options) (so_RelayPort options) (so_OnDiscovery options) of
                Inl e \<Rightarrow> (Inl e, ws_closeTUN sys w)
              | Inr wrapped \<Rightarrow>
                  (let configuration = (case deviceConfig (so_PrivateKey options) (so_ListenPort options) of
                          Inl _ \<Rightarrow> '''' | Inr c \<Rightarrow> c);
                       (err, w) = ws_ipcSet sys configuration w
                   in (case err of
                         Some e \<Rightarrow> (Inl e, ws_close sys w)
                       | None \<Rightarrow>
                           (let (err, w) = ws_up sys w
                            in (case err of
                                  Some e \<Rightarrow> (Inl e, ws_close sys w)
                                | None \<Rightarrow>
                                    (let (err, w) = ws_configure sys name (so_LocalIP options) (so_Host options) w
                                     in (case err of
                                           Some e \<Rightarrow> (Inl e, ws_close sys w)
                                         | None \<Rightarrow>
                                             (Inr \<lparr>mg_discovery = wrapped, mg_name = name,
                                                   mg_localIP = so_LocalIP options, mg_closed = False\<rparr>, w))))))))))"

definition errClosed :: goerror where "errClosed = ErrTag (Other ''WireGuard is closed'')"

definition SetPeer :: "'w wg_system \<Rightarrow> Peer \<Rightarrow> bool \<Rightarrow> manager \<Rightarrow> 'w \<Rightarrow> goerror option \<times> 'w" where
  "SetPeer sys peer client m w =
     (case peerConfig peer client of
        Inl e \<Rightarrow> (Some e, w)
      | Inr configuration \<Rightarrow> if mg_closed m then (Some errClosed, w) else ws_ipcSet sys configuration w)"

definition RemovePeer :: "'w wg_system \<Rightarrow> arr32 \<Rightarrow> manager \<Rightarrow> 'w \<Rightarrow> goerror option \<times> 'w" where
  "RemovePeer sys publicKey m w =
     (case removePeerConfig publicKey of
        Inl e \<Rightarrow> (Some e, w)
      | Inr configuration \<Rightarrow> if mg_closed m then (Some errClosed, w) else ws_ipcSet sys configuration w)"

definition InjectDiscovery ::
  "(bytes list \<Rightarrow> 'w \<Rightarrow> (nat \<times> goerror option) \<times> 'w) \<Rightarrow> bytes \<Rightarrow> manager \<Rightarrow> 'w \<Rightarrow> goerror option \<times> 'w" where
  "InjectDiscovery device packet m w = InjectInbound device packet (mg_discovery m) w"

definition PeerStats :: "'w wg_system \<Rightarrow> manager \<Rightarrow> 'w \<Rightarrow> PeerStat list result \<times> 'w" where
  "PeerStats sys m w =
     (if mg_closed m then (Inl errClosed, w)
      else (let (v, w) = ws_ipcGet sys w in (bind_result v parsePeerStats, w)))"

definition wg_Close :: "'w wg_system \<Rightarrow> manager \<Rightarrow> 'w \<Rightarrow> goerror option \<times> manager \<times> 'w" where
  "wg_Close sys m w =
     (if mg_closed m then (None, m, w)
      else
        (let m = m\<lparr>mg_closed := True\<rparr>; (cleanupErr, w) = ws_cleanup sys (mg_name m) (mg_localIP m) w
         in (cleanupErr, m, ws_close sys w)))"

section \<open>Lines\<close>

lemma split_on_line [simp]: "c \<notin> set l \<Longrightarrow> split_on c (l @ c # rest) = l # split_on c rest"
  by (induction l) auto

lemma str_cut_field: "c \<notin> set k \<Longrightarrow> str_cut c (k @ c # v) = Some (k, v)"
  by (induction k) (auto simp: str_cut_def)

lemma hex_encode_notin:
  assumes "\<forall>n<16. hex_digit n \<noteq> c"
  shows "c \<notin> set (hex_encode bs)"
proof (induction bs)
  case (Cons b bs)
  have "unat b div 16 < 16" using byte_bound [of b] by (simp add: less_mult_imp_div_less)
  moreover have "unat b mod 16 < 16" by simp
  ultimately have "hex_digit (unat b div 16) \<noteq> c" "hex_digit (unat b mod 16) \<noteq> c" using assms by blast+
  with Cons show ?case by auto
qed simp

lemma hex_lines [simp]: "CHR 0x0A \<notin> set (hex_encode bs)"
  by (rule hex_encode_notin) (simp add: all_below_16 hex_digit_def)

lemma dec_lines [simp]: "CHR 0x0A \<notin> set (dec_string n)"
proof
  assume "CHR 0x0A \<in> set (dec_string n)"
  then obtain d where "d < 10" "CHR 0x0A = digit_char d" using set_dec_string by blast
  moreover have "\<forall>d<10. CHR 0x0A \<noteq> digit_char d" unfolding all_below_10 by (simp add: digit_char_def)
  ultimately show False by blast
qed

lemma string_lines [simp]: "Is4 ip \<Longrightarrow> CHR 0x0A \<notin> set (addr_string ip)"
  using addr_string_AddrFrom4 [of "As4 ip"] list4 [of "As4 ip"] by (auto simp: dotted_def)

section \<open>What reaches the device\<close>

text \<open>
  The message for a member: exactly these lines, whatever the keys are; the only address the device lets
  the member use is its own.
\<close>

lemma member_config_lines:
  assumes "peerConfig peer False = Inr msg"
  shows "\<exists>o'. pe_IP peer = net_ip o' \<and> 2 \<le> o' \<and> o' \<le> 254 \<and> split_on (CHR 0x0A) msg =
    [''public_key='' @ hex_encode (be_bytes (pe_PublicKey peer)),
     ''preshared_key='' @ hex_encode (be_bytes (pe_PSK peer)), ''replace_allowed_ips=true'',
     ''allowed_ip='' @ addr_string (net_ip o') @ ''/32'', []]"
proof -
  from assms have v: "wg_validIP (pe_IP peer) False"
    and m: "msg = (''public_key='' @ hex_encode (be_bytes (pe_PublicKey peer))) @ CHR 0x0A #
      (''preshared_key='' @ hex_encode (be_bytes (pe_PSK peer))) @ CHR 0x0A # ''replace_allowed_ips=true'' @ CHR 0x0A #
      (''allowed_ip='' @ addr_string (pe_IP peer) @ ''/32'') @ CHR 0x0A # []"
    by (auto simp: peerConfig_def newline_def Let_def split: if_splits)
  obtain a b c d where q: "As4 (pe_IP peer) = [a, b, c, d]" "Is4 (pe_IP peer)"
    using v list4 [of "As4 (pe_IP peer)"] by (auto simp: wg_validIP_def split: if_splits)
  then have o: "a = 10" "b = 0" "c = 23" "2 \<le> d" "d \<le> 254" using v by (simp_all add: wg_validIP_def)
  then have ip: "pe_IP peer = net_ip d" using net_ip_of q by blast
  have "split_on (CHR 0x0A) msg = [''public_key='' @ hex_encode (be_bytes (pe_PublicKey peer)),
     ''preshared_key='' @ hex_encode (be_bytes (pe_PSK peer)), ''replace_allowed_ips=true'',
     ''allowed_ip='' @ addr_string (net_ip d) @ ''/32'', []]"
    unfolding m ip by (subst split_on_line, simp)+ simp
  with ip o show ?thesis by blast
qed

text \<open>
  The statistics as the device writes them: a peer is its key and some counters, one to a line, after
  the lines of the device itself.
\<close>

definition stat_text :: "PeerStat \<Rightarrow> string" where
  "stat_text s =
     (''public_key='' @ hex_encode (be_bytes (ps_PublicKey s))) @ CHR 0x0A #
     (''last_handshake_time_sec='' @ dec_string (nat (ps_LastHandshake s div 10 ^ 9))) @ CHR 0x0A #
     (''last_handshake_time_nsec='' @ dec_string (nat (ps_LastHandshake s mod 10 ^ 9))) @ CHR 0x0A #
     (''tx_bytes='' @ dec_string (unat (ps_TxBytes s))) @ CHR 0x0A #
     (''rx_bytes='' @ dec_string (unat (ps_RxBytes s))) @ [CHR 0x0A]"

definition stat_ok :: "PeerStat \<Rightarrow> bool" where
  "stat_ok s \<longleftrightarrow> 0 \<le> ps_LastHandshake s \<and> ps_LastHandshake s div 10 ^ 9 < 2 ^ 63"

lemma ParseUint_dec [simp]: "ParseUint (dec_string (unat w)) = Some w"
proof -
  have "unat w < 2 ^ LENGTH(64)" by (rule unsigned_less)
  then show ?thesis by (simp add: ParseUint_def)
qed

lemma ParseInt_dec: "n < 2 ^ 63 \<Longrightarrow> ParseInt (dec_string n) = Some (int n)"
proof -
  assume n: "n < 2 ^ 63"
  have "dec_string n \<noteq> []" by simp
  then obtain c t where ct: "dec_string n = c # t" by (cases "dec_string n") auto
  then have "c \<in> set (dec_string n)" by simp
  then obtain d where "d < 10" "c = digit_char d" using set_dec_string by blast
  moreover have "\<forall>d<10. digit_char d \<noteq> CHR ''+'' \<and> digit_char d \<noteq> CHR ''-''" unfolding all_below_10 by (simp add: digit_char_def)
  ultimately have "c \<noteq> CHR ''+''" "c \<noteq> CHR ''-''" by auto
  then show ?thesis using n dec_digits_dec_string [of n] by (simp add: ParseInt_def ct Let_def)
qed

text \<open>One peer's lines: the peer before it is finished, and this one has its values.\<close>

lemma stat_text_parsed:
  assumes "stat_ok s"
  shows "stat_lines (split_on (CHR 0x0A) (stat_text s @ rest)) p = stat_lines (split_on (CHR 0x0A) rest)
    ((stat_flush p)\<lparr>sp_current := Some (s\<lparr>ps_LastHandshake := 0\<rparr>), sp_seconds := ps_LastHandshake s div 10 ^ 9,
       sp_nanos := ps_LastHandshake s mod 10 ^ 9\<rparr>)"
proof -
  let ?sec = "ps_LastHandshake s div 10 ^ 9" and ?nan = "ps_LastHandshake s mod 10 ^ 9"
  have t: "stat_text s @ rest =
     (''public_key='' @ hex_encode (be_bytes (ps_PublicKey s))) @ CHR 0x0A #
     (''last_handshake_time_sec='' @ dec_string (nat ?sec)) @ CHR 0x0A #
     (''last_handshake_time_nsec='' @ dec_string (nat ?nan)) @ CHR 0x0A #
     (''tx_bytes='' @ dec_string (unat (ps_TxBytes s))) @ CHR 0x0A #
     (''rx_bytes='' @ dec_string (unat (ps_RxBytes s))) @ CHR 0x0A # rest"
    by (simp add: stat_text_def)
  have nan: "0 \<le> ?nan" "?nan < 10 ^ 9" by simp_all
  have i: "ParseInt (dec_string (nat ?sec)) = Some ?sec" "ParseInt (dec_string (nat ?nan)) = Some ?nan"
    using assms nan by (subst ParseInt_dec; simp add: stat_ok_def pos_imp_zdiv_nonneg_iff nat_less_iff)+
  have c: "str_cut (CHR ''='') (''public_key='' @ v) = Some (''public_key'', v)"
    "str_cut (CHR ''='') (''last_handshake_time_sec='' @ v) = Some (''last_handshake_time_sec'', v)"
    "str_cut (CHR ''='') (''last_handshake_time_nsec='' @ v) = Some (''last_handshake_time_nsec'', v)"
    "str_cut (CHR ''='') (''tx_bytes='' @ v) = Some (''tx_bytes'', v)"
    "str_cut (CHR ''='') (''rx_bytes='' @ v) = Some (''rx_bytes'', v)" for v
    by (simp_all add: str_cut_def)
  have h: "hex_decode (hex_encode (be_bytes (ps_PublicKey s))) = Some (be_bytes (ps_PublicKey s))" by simp
  have split: "split_on (CHR 0x0A) (stat_text s @ rest) =
     (''public_key='' @ hex_encode (be_bytes (ps_PublicKey s))) #
     (''last_handshake_time_sec='' @ dec_string (nat ?sec)) #
     (''last_handshake_time_nsec='' @ dec_string (nat ?nan)) #
     (''tx_bytes='' @ dec_string (unat (ps_TxBytes s))) #
     (''rx_bytes='' @ dec_string (unat (ps_RxBytes s))) # split_on (CHR 0x0A) rest"
    unfolding t by (subst split_on_line, simp)+ simp
  show ?thesis
    unfolding split stat_lines.simps stat_line_def c option.case prod.case h i
    by (cases s; cases p) (simp add: stat_flush_def)
qed

lemma stats_parsed:
  "list_all stat_ok ss \<Longrightarrow> \<exists>p'. stat_lines (split_on (CHR 0x0A) (concat (map stat_text ss))) p = Some p'
     \<and> sp_result (stat_flush p') = sp_result (stat_flush p) @ ss"
proof (induction ss arbitrary: p)
  case (Cons s ss)
  let ?p = "(stat_flush p)\<lparr>sp_current := Some (s\<lparr>ps_LastHandshake := 0\<rparr>), sp_seconds := ps_LastHandshake s div 10 ^ 9,
       sp_nanos := ps_LastHandshake s mod 10 ^ 9\<rparr>"
  have "sp_result (stat_flush ?p) = sp_result (stat_flush p) @ [s]"
    by (simp add: stat_flush_def)
  with Cons.IH [of ?p] Cons.prems stat_text_parsed [of s "concat (map stat_text ss)" p] show ?case by auto
qed (simp add: stat_line_def str_cut_def)

lemma parsePeerStats_text: "list_all stat_ok ss \<Longrightarrow> parsePeerStats (concat (map stat_text ss)) = Inr ss"
  using stats_parsed [of ss "\<lparr>sp_result = [], sp_current = None, sp_seconds = 0, sp_nanos = 0\<rparr>"]
  by (auto simp: parsePeerStats_def stat_flush_def)

end
