(* ===== verification/Openp2p_Config.thy ===== *)
theory Openp2p_Config
  imports Room_State
begin

text \<open>
  \<open>internal/openp2p/config.go\<close>: the configuration file of the OpenP2P engine. The user's port
  forwardings and the internal ones of the program live in one list; the store replaces either part.
  The numeric token is a string in the public form and a number on disk.
\<close>

section \<open>The configuration\<close>

definition internalPrefix :: string where "internalPrefix = ''_opl2_''"
definition errP2P :: goerror where "errP2P = ErrTag OpenP2PErrConfig"

text \<open>Fields of type \<open>int\<close> are 64-bit; the decoder bounds them.\<close>

record Network =
  np_Token :: u64
  np_Node :: string
  np_User :: string
  np_ShareBandwidth :: int
  np_ServerHost :: string
  np_ServerPort :: int
  np_PublicIPPort :: int

record App =
  ap_AppName :: string
  ap_Protocol :: string
  ap_UnderlayProtocol :: string
  ap_PunchPriority :: int
  ap_Whitelist :: string
  ap_SrcPort :: int
  ap_PeerNode :: string
  ap_DstPort :: int
  ap_DstHost :: string
  ap_PeerUser :: string
  ap_RelayNode :: string
  ap_ForceRelay :: int
  ap_Enabled :: int

record Config =
  cf_Network :: Network
  cf_Apps :: "App list"
  cf_LogLevel :: int

text \<open>\<open>strings.ToLower\<close> is only compared with tcp and udp; no letter outside ASCII has one of these as lower case.\<close>

definition validateApp :: "App \<Rightarrow> goerror option" where
  "validateApp app =
     (let protocol = to_lower (ap_Protocol app) in
      if ap_AppName app = [] \<or> (protocol \<noteq> ''tcp'' \<and> protocol \<noteq> ''udp'') \<or> ap_SrcPort app < 1 \<or> ap_SrcPort app > 65535
        \<or> ap_DstPort app < 1 \<or> ap_DstPort app > 65535 \<or> ap_DstHost app = [] \<or> (ap_Enabled app \<noteq> 0 \<and> ap_Enabled app \<noteq> 1)
      then Some errP2P else None)"

definition app_key :: "App \<Rightarrow> string" where
  "app_key app = ap_Protocol app @ ''/'' @ dec_string (nat (ap_SrcPort app))"

text \<open>The loop of \<open>validateConfig\<close>.\<close>

fun valid_apps :: "App list \<Rightarrow> string list \<Rightarrow> bool" where
  "valid_apps [] seen = True"
| "valid_apps (app # apps) seen =
     (if validateApp app \<noteq> None then False
      else if ap_Enabled app = 1 \<and> app_key app \<in> set seen then False
      else valid_apps apps (if ap_Enabled app = 1 then app_key app # seen else seen))"

definition validateConfig :: "Config \<Rightarrow> goerror option" where
  "validateConfig config =
     (let n = cf_Network config in
      if np_Node n = [] \<or> np_ServerHost n = [] \<or> np_ServerPort n < 1 \<or> np_ServerPort n > 65535
        \<or> np_ShareBandwidth n < 0 \<or> np_PublicIPPort n < 0 \<or> np_PublicIPPort n > 65535 then Some errP2P
      else if np_Token n = 0 then Some errP2P
      else if \<not> valid_apps (cf_Apps config) [] then Some errP2P else None)"

definition isInternal :: "App \<Rightarrow> bool" where
  "isInternal app = (take (length internalPrefix) (ap_AppName app) = internalPrefix)"

definition userApps :: "App list \<Rightarrow> App list" where
  "userApps apps = filter (\<lambda>app. \<not> isInternal app) apps"

definition internalApps :: "App list \<Rightarrow> App list" where
  "internalApps apps = filter isInternal apps"

definition forward_app :: "string \<Rightarrow> string \<Rightarrow> string \<Rightarrow> u16 \<Rightarrow> u16 \<Rightarrow> App" where
  "forward_app name protocol hostUID destinationPort sourcePort =
     \<lparr>ap_AppName = name, ap_Protocol = protocol, ap_UnderlayProtocol = [], ap_PunchPriority = 0, ap_Whitelist = [],
      ap_SrcPort = uint sourcePort, ap_PeerNode = hostUID, ap_DstPort = uint destinationPort, ap_DstHost = ''127.0.0.1'',
      ap_PeerUser = [], ap_RelayNode = [], ap_ForceRelay = 0, ap_Enabled = 1\<rparr>"

definition PairingApp :: "string \<Rightarrow> u16 \<Rightarrow> u16 \<Rightarrow> App" where
  "PairingApp hostUID = forward_app (internalPrefix @ ''pair_'' @ hostUID) ''tcp'' hostUID"

definition WireGuardApp :: "string \<Rightarrow> u16 \<Rightarrow> u16 \<Rightarrow> App" where
  "WireGuardApp hostUID = forward_app (internalPrefix @ ''wg_'' @ hostUID) ''udp'' hostUID"

section \<open>The JSON form\<close>

text \<open>\<open>Uint64.MarshalJSON\<close> and \<open>UnmarshalJSON\<close>: quotes around the digits are optional, null is not allowed.\<close>

definition token_public :: "u64 \<Rightarrow> json" where
  "token_public token = JStr (dec_string (unat token))"

definition dec_token :: "json \<Rightarrow> u64 option" where
  "dec_token v = (case v of JStr s \<Rightarrow> dec_word (JNum s) | JNum lit \<Rightarrow> dec_word (JNum lit) | _ \<Rightarrow> None)"

text \<open>
  A field whose decoder sees null as well and the value so far: an \<open>Unmarshaler\<close>, or a struct that keeps
  the fields an earlier object of the same name set.
\<close>

definition dec_into :: "string \<Rightarrow> ('a \<Rightarrow> json \<Rightarrow> 'a option) \<Rightarrow> 'a \<Rightarrow> (string \<times> json) list \<Rightarrow> 'a option" where
  "dec_into field dec start ms =
     foldl (\<lambda>acc (k, v). if \<not> names_field field k then acc else Option.bind acc (\<lambda>old. dec old v)) (Some start) ms"

definition enc_network :: "Network \<Rightarrow> json" where
  "enc_network n = JObj [(''Token'', enc_word (np_Token n)), (''Node'', JStr (np_Node n)), (''User'', JStr (np_User n)),
     (''ShareBandwidth'', enc_int (np_ShareBandwidth n)), (''ServerHost'', JStr (np_ServerHost n)),
     (''ServerPort'', enc_int (np_ServerPort n)), (''PublicIPPort'', enc_int (np_PublicIPPort n))]"

definition omit_str :: "string \<Rightarrow> string \<Rightarrow> (string \<times> json) list" where
  "omit_str field s = (if s = [] then [] else [(field, JStr s)])"

definition omit_int :: "string \<Rightarrow> int \<Rightarrow> (string \<times> json) list" where
  "omit_int field i = (if i = 0 then [] else [(field, enc_int i)])"

definition app_members :: "App \<Rightarrow> (string \<times> json) list" where
  "app_members a =
     [(''AppName'', JStr (ap_AppName a)), (''Protocol'', JStr (ap_Protocol a))]
       @ omit_str ''UnderlayProtocol'' (ap_UnderlayProtocol a) @ omit_int ''PunchPriority'' (ap_PunchPriority a)
       @ [(''Whitelist'', JStr (ap_Whitelist a)), (''SrcPort'', enc_int (ap_SrcPort a)), (''PeerNode'', JStr (ap_PeerNode a)),
          (''DstPort'', enc_int (ap_DstPort a)), (''DstHost'', JStr (ap_DstHost a)), (''PeerUser'', JStr (ap_PeerUser a)),
          (''RelayNode'', JStr (ap_RelayNode a))]
       @ omit_int ''ForceRelay'' (ap_ForceRelay a) @ [(''Enabled'', enc_int (ap_Enabled a))]"

definition enc_app :: "App \<Rightarrow> json" where
  "enc_app a = JObj (app_members a)"

text \<open>The flag says that an empty list of applications is a nil slice, which is written as null.\<close>

definition enc_config :: "bool \<Rightarrow> Config \<Rightarrow> json" where
  "enc_config nil c = JObj [(''Network'', enc_network (cf_Network c)),
     (''Apps'', if nil \<and> cf_Apps c = [] then JNull else JArr (map enc_app (cf_Apps c))), (''LogLevel'', enc_int (cf_LogLevel c))]"

definition network_fields :: "string list" where
  "network_fields = [''Token'', ''Node'', ''User'', ''ShareBandwidth'', ''ServerHost'', ''ServerPort'', ''PublicIPPort'']"

definition app_fields :: "string list" where
  "app_fields = [''AppName'', ''Protocol'', ''UnderlayProtocol'', ''PunchPriority'', ''Whitelist'', ''SrcPort'', ''PeerNode'',
     ''DstPort'', ''DstHost'', ''PeerUser'', ''RelayNode'', ''ForceRelay'', ''Enabled'']"

definition config_fields :: "string list" where
  "config_fields = [''Network'', ''Apps'', ''LogLevel'']"

definition dec_network :: "Network \<Rightarrow> json \<Rightarrow> Network option" where
  "dec_network n v =
     (case v of
        JNull \<Rightarrow> Some n
      | JObj ms \<Rightarrow>
          Option.bind (dec_into ''Token'' (\<lambda>_. dec_token) (np_Token n) ms) (\<lambda>token.
          Option.bind (dec_field ''Node'' dec_str (np_Node n) ms) (\<lambda>node.
          Option.bind (dec_field ''User'' dec_str (np_User n) ms) (\<lambda>user.
          Option.bind (dec_field ''ShareBandwidth'' dec_int (np_ShareBandwidth n) ms) (\<lambda>share.
          Option.bind (dec_field ''ServerHost'' dec_str (np_ServerHost n) ms) (\<lambda>host.
          Option.bind (dec_field ''ServerPort'' dec_int (np_ServerPort n) ms) (\<lambda>port.
          Option.bind (dec_field ''PublicIPPort'' dec_int (np_PublicIPPort n) ms) (\<lambda>public.
            Some \<lparr>np_Token = token, np_Node = node, np_User = user, np_ShareBandwidth = share, np_ServerHost = host,
                  np_ServerPort = port, np_PublicIPPort = public\<rparr>)))))))
      | _ \<Rightarrow> None)"

definition zero_app :: App where
  "zero_app = \<lparr>ap_AppName = [], ap_Protocol = [], ap_UnderlayProtocol = [], ap_PunchPriority = 0, ap_Whitelist = [],
     ap_SrcPort = 0, ap_PeerNode = [], ap_DstPort = 0, ap_DstHost = [], ap_PeerUser = [], ap_RelayNode = [],
     ap_ForceRelay = 0, ap_Enabled = 0\<rparr>"

definition dec_app :: "json \<Rightarrow> App option" where
  "dec_app v =
     (case v of
        JObj ms \<Rightarrow>
          Option.bind (dec_field ''AppName'' dec_str [] ms) (\<lambda>name.
          Option.bind (dec_field ''Protocol'' dec_str [] ms) (\<lambda>protocol.
          Option.bind (dec_field ''UnderlayProtocol'' dec_str [] ms) (\<lambda>underlay.
          Option.bind (dec_field ''PunchPriority'' dec_int 0 ms) (\<lambda>punch.
          Option.bind (dec_field ''Whitelist'' dec_str [] ms) (\<lambda>whitelist.
          Option.bind (dec_field ''SrcPort'' dec_int 0 ms) (\<lambda>src.
          Option.bind (dec_field ''PeerNode'' dec_str [] ms) (\<lambda>node.
          Option.bind (dec_field ''DstPort'' dec_int 0 ms) (\<lambda>dst.
          Option.bind (dec_field ''DstHost'' dec_str [] ms) (\<lambda>host.
          Option.bind (dec_field ''PeerUser'' dec_str [] ms) (\<lambda>user.
          Option.bind (dec_field ''RelayNode'' dec_str [] ms) (\<lambda>relay.
          Option.bind (dec_field ''ForceRelay'' dec_int 0 ms) (\<lambda>force.
          Option.bind (dec_field ''Enabled'' dec_int 0 ms) (\<lambda>enabled.
            Some \<lparr>ap_AppName = name, ap_Protocol = protocol, ap_UnderlayProtocol = underlay, ap_PunchPriority = punch,
                  ap_Whitelist = whitelist, ap_SrcPort = src, ap_PeerNode = node, ap_DstPort = dst, ap_DstHost = host,
                  ap_PeerUser = user, ap_RelayNode = relay, ap_ForceRelay = force, ap_Enabled = enabled\<rparr>)))))))))))))
      | _ \<Rightarrow> None)"

definition zero_network :: Network where
  "zero_network = \<lparr>np_Token = 0, np_Node = [], np_User = [], np_ShareBandwidth = 0, np_ServerHost = [],
     np_ServerPort = 0, np_PublicIPPort = 0\<rparr>"

definition zero_config :: Config where
  "zero_config = \<lparr>cf_Network = zero_network, cf_Apps = [], cf_LogLevel = 0\<rparr>"

definition dec_config :: "json \<Rightarrow> Config option" where
  "dec_config v =
     (case v of
        JNull \<Rightarrow> Some zero_config
      | JObj ms \<Rightarrow>
          Option.bind (dec_into ''Network'' dec_network zero_network ms) (\<lambda>network.
          Option.bind (dec_field ''Apps'' (dec_slice zero_app dec_app) [] ms) (\<lambda>apps.
          Option.bind (dec_field ''LogLevel'' dec_int 0 ms) (\<lambda>level.
            Some \<lparr>cf_Network = network, cf_Apps = apps, cf_LogLevel = level\<rparr>)))
      | _ \<Rightarrow> None)"

section \<open>The store\<close>

definition p2p_load :: "string \<Rightarrow> disk \<Rightarrow> Config result \<times> disk" where
  "p2p_load path d =
     (let (data, d) = ReadFile path d in
      (case data of
         Inl e \<Rightarrow> (Inl e, d)
       | Inr data \<Rightarrow>
           (case Option.bind (json_parse (string_of data)) dec_config of
              None \<Rightarrow> (Inl errP2P, d)
            | Some config \<Rightarrow> if validateConfig config \<noteq> None then (Inl errP2P, d) else (Inr config, d))))"

text \<open>The file is written as \<open>state.Save\<close> writes its own: directory, temporary file, chmod, write, sync, close, rename.\<close>

definition p2p_save :: "string \<Rightarrow> bool \<Rightarrow> Config \<Rightarrow> disk \<Rightarrow> goerror option \<times> disk" where
  "p2p_save path nil config d =
     (case validateConfig config of
        Some e \<Rightarrow> (Some e, d)
      | None \<Rightarrow> writeAtomic path (bytes_of (json_print True 0 (enc_config nil config) @ [CHR 0x0A])) d)"

definition UserApps :: "string \<Rightarrow> disk \<Rightarrow> App list result \<times> disk" where
  "UserApps path d =
     (let (config, d) = p2p_load path d in (bind_result config (\<lambda>c. Inr (userApps (cf_Apps c))), d))"

definition PublicConfig :: "string \<Rightarrow> disk \<Rightarrow> Config result \<times> disk" where
  "PublicConfig path d =
     (let (config, d) = p2p_load path d in
      (bind_result config (\<lambda>c. Inr (c\<lparr>cf_Apps := userApps (cf_Apps c)\<rparr>)), d))"

definition ReplaceUserApps :: "string \<Rightarrow> App list \<Rightarrow> disk \<Rightarrow> goerror option \<times> disk" where
  "ReplaceUserApps path apps d =
     (if list_ex (\<lambda>app. isInternal app \<or> validateApp app \<noteq> None) apps then (Some errP2P, d)
      else
        (let (config, d) = p2p_load path d in
         (case config of
            Inl e \<Rightarrow> (Some e, d)
          | Inr config \<Rightarrow> p2p_save path True (config\<lparr>cf_Apps := apps @ internalApps (cf_Apps config)\<rparr>) d)))"

definition Replace :: "string \<Rightarrow> Config \<Rightarrow> disk \<Rightarrow> goerror option \<times> disk" where
  "Replace path config d =
     (if list_ex isInternal (cf_Apps config) then (Some errP2P, d)
      else
        (case validateConfig config of
           Some e \<Rightarrow> (Some e, d)
         | None \<Rightarrow>
             (let (current, d) = p2p_load path d in
              (case current of
                 Inl e \<Rightarrow> if \<not> errors_is e OsErrNotExist then (Some e, d) else p2p_save path True config d
               | Inr current \<Rightarrow>
                   p2p_save path True (config\<lparr>cf_Apps := cf_Apps config @ internalApps (cf_Apps current)\<rparr>) d))))"

definition SetInternal :: "string \<Rightarrow> App list \<Rightarrow> disk \<Rightarrow> goerror option \<times> disk" where
  "SetInternal path apps d =
     (if list_ex (\<lambda>app. \<not> isInternal app \<or> validateApp app \<noteq> None) apps then (Some errP2P, d)
      else
        (let (config, d) = p2p_load path d in
         (case config of
            Inl e \<Rightarrow> (Some e, d)
          | Inr config \<Rightarrow> p2p_save path False (config\<lparr>cf_Apps := userApps (cf_Apps config) @ apps\<rparr>) d)))"

definition ClearInternal :: "string \<Rightarrow> disk \<Rightarrow> goerror option \<times> disk" where
  "ClearInternal path d = SetInternal path [] d"

end
