(* ===== verification/Core_Runtime.thy ===== *)
theory Core_Runtime
  imports Room_Ops Pairing_Session Discovery_Relay Wg_Config Openp2p_Config
begin

text \<open>
  \<open>internal/core/runtime.go\<close>: the runtime that joins the parts. It is the network of the room service
  (its four callbacks) and the client's side: joining a room, its control session, leaving. The embedded
  engine (\<open>internal/openp2pengine/embedded.go\<close>) is the switch it turns on and off. A method that holds
  the mutex more than once is cut at its critical sections into the functions below.
\<close>

section \<open>State\<close>

text \<open>
  What lies outside: WireGuard, the engine behind \<open>embedded.go\<close> (reading its configuration and opening
  its log, \<open>GNetwork.shutdown\<close>, \<open>gConf.add\<close> with \<open>GNetwork.AddApp\<close>, \<open>AppStatuses\<close>), the sockets.
\<close>

record AppStatus =
  sx_Protocol :: string
  sx_SrcPort :: int
  sx_Connected :: bool
  sx_Error :: string

record 'w outside =
  ow_wg :: "'w wg_system"
  ow_prepare :: "'w \<Rightarrow> goerror option \<times> 'w"
  ow_shutdown :: "'w \<Rightarrow> 'w"
  ow_addApp :: "App \<Rightarrow> 'w \<Rightarrow> goerror option \<times> 'w"
  ow_statuses :: "'w \<Rightarrow> AppStatus list"
  ow_relayListen :: "'w \<Rightarrow> goerror option \<times> 'w"
  ow_relayClose :: "'w \<Rightarrow> goerror option \<times> 'w"
  ow_inject :: "bytes list \<Rightarrow> 'w \<Rightarrow> (nat \<times> goerror option) \<times> 'w"
  ow_udpWrite :: "addr \<times> u16 \<Rightarrow> bytes \<Rightarrow> 'w \<Rightarrow> goerror option \<times> 'w"

text \<open>
  \<open>Runtime\<close> with the disk its store and its secrets are on and the variables of the engine module.
  A context and a control session are numbers; a cancelled context and a closed session are in the sets.
  The error of the last attempt is kept as a value, the source keeps its text.
\<close>

record 'w runtime =
  rt_world :: 'w
  rt_disk :: disk
  rt_dataDir :: string
  rt_configPath :: string
  rt_moduleRun :: bool
  rt_moduleID :: nat
  rt_manager :: "manager option"
  rt_relay :: "relayCore option"
  rt_client :: "manager option"
  rt_control :: "nat option"
  rt_clientCancel :: "nat option"
  rt_joinCancel :: "nat option"
  rt_joinError :: "goerror option"
  rt_clientDevices :: "Device list"
  rt_clientIP :: addr
  rt_session :: bool
  rt_statsAt :: int
  rt_ordinary :: bool
  rt_process :: string
  rt_lifecycle :: string
  rt_mode :: string
  rt_cancelled :: "nat fset"
  rt_closed :: "nat fset"

text \<open>The program: the room service whose network is the runtime.\<close>

type_synonym 'w core = "'w runtime room"

definition errNetworkActive :: goerror where "errNetworkActive = ErrTag CoreErrNetworkActive"
definition errNotReady :: goerror where "errNotReady = ErrWrap [ErrTag CoreErrOpenP2PNotReady]"
definition errWireGuardFailed :: goerror where "errWireGuardFailed = ErrWrap [ErrTag CoreErrWireGuardFailed]"
definition errWireGuardUpdate :: goerror where "errWireGuardUpdate = ErrWrap [ErrTag CoreErrWireGuardUpdate]"
definition errNotRunning :: goerror where "errNotRunning = ErrTag (Other ''WireGuard is not running'')"

definition setLifecycle :: "string \<Rightarrow> 'w runtime \<Rightarrow> 'w runtime" where
  "setLifecycle v r = r\<lparr>rt_lifecycle := v\<rparr>"

definition setMode :: "string \<Rightarrow> 'w runtime \<Rightarrow> 'w runtime" where
  "setMode v r = r\<lparr>rt_mode := v\<rparr>"

text \<open>An operation on the world, and one on the disk.\<close>

definition on_world :: "('w \<Rightarrow> 'a \<times> 'w) \<Rightarrow> 'w runtime \<Rightarrow> 'a \<times> 'w runtime" where
  "on_world f r = (let (v, w) = f (rt_world r) in (v, r\<lparr>rt_world := w\<rparr>))"

definition in_files :: "(disk \<Rightarrow> 'a \<times> disk) \<Rightarrow> 'w runtime \<Rightarrow> 'a \<times> 'w runtime" where
  "in_files f r = (let (v, d) = f (rt_disk r) in (v, r\<lparr>rt_disk := d\<rparr>))"

section \<open>The engine switch\<close>

text \<open>\<open>onProcessState\<close>, the callback of the engine.\<close>

definition onProcessState :: "string \<Rightarrow> 'w runtime \<Rightarrow> 'w runtime" where
  "onProcessState v r =
     (let r = r\<lparr>rt_process := v\<rparr>; current = rt_lifecycle r; mode = rt_mode r in
      if current = ''stopping'' \<or> current = ''idle'' then r
      else if v = ''online'' then
        (if mode = ''host'' then
           (if current \<noteq> ''starting_openp2p'' \<and> current \<noteq> ''starting_wireguard'' then setLifecycle ''listening'' r else r)
         else if mode = ''client'' then (if current \<noteq> ''joining'' then setLifecycle ''online'' r else r)
         else if mode = ''ordinary'' then setLifecycle ''online'' r
         else r)
      else if v = ''faulted'' then setLifecycle ''faulted'' r
      else if v = ''starting'' then
        (if current \<noteq> ''joining'' \<and> current \<noteq> ''starting_wireguard'' then setLifecycle ''starting_openp2p'' r else r)
      else r)"

definition engine_Start :: "'w outside \<Rightarrow> 'w runtime \<Rightarrow> goerror option \<times> 'w runtime" where
  "engine_Start out r =
     (if rt_moduleRun r then (None, r)
      else
        (let (err, r) = on_world (ow_prepare out) r in
         (case err of
            Some e \<Rightarrow> (Some e, r)
          | None \<Rightarrow> (None, onProcessState ''starting'' (r\<lparr>rt_moduleRun := True, rt_moduleID := rt_moduleID r + 1\<rparr>)))))"

definition engine_Stop :: "'w outside \<Rightarrow> 'w runtime \<Rightarrow> goerror option \<times> 'w runtime" where
  "engine_Stop out r =
     (if \<not> rt_moduleRun r then (None, r)
      else (None, onProcessState ''stopped''
              (r\<lparr>rt_moduleRun := False, rt_moduleID := rt_moduleID r + 1, rt_world := ow_shutdown out (rt_world r)\<rparr>)))"

definition engine_AddApp :: "'w outside \<Rightarrow> App \<Rightarrow> 'w runtime \<Rightarrow> goerror option \<times> 'w runtime" where
  "engine_AddApp out app r =
     (if \<not> rt_moduleRun r then (Some (ErrTag (Other ''OpenP2P is not running'')), r)
      else on_world (ow_addApp out app) r)"

text \<open>\<open>stateFor\<close>: a report of the goroutine of the module's given run.\<close>

definition stateFor :: "nat \<Rightarrow> string \<Rightarrow> 'w runtime \<Rightarrow> 'w runtime" where
  "stateFor run v r = (if \<not> rt_moduleRun r \<or> rt_moduleID r \<noteq> run then r else onProcessState v r)"

definition restartOpenP2P :: "'w outside \<Rightarrow> 'w runtime \<Rightarrow> goerror option \<times> 'w runtime" where
  "restartOpenP2P out r =
     (let (err, r) = engine_Stop out r in (case err of Some e \<Rightarrow> (Some e, r) | None \<Rightarrow> engine_Start out r))"

section \<open>The host's network\<close>

text \<open>\<open>memberIPs\<close> without the refresh of the statistics, which is a step of its own.\<close>

definition memberIPs :: "'w core \<Rightarrow> addr list" where
  "memberIPs s = concat (map (\<lambda>member.
       if \<not> rm_Enabled member \<or> (rm_State member \<noteq> ''configured'' \<and> rm_State member \<noteq> ''online'') then []
       else (case ParseAddr (rm_IP member) of None \<Rightarrow> [] | Some ip \<Rightarrow> [ip])) (sn_Members (snapshotLocked s)))"

text \<open>The relay's way into the host's tunnel, and its socket.\<close>

definition relay_inject :: "'w outside \<Rightarrow> manager \<Rightarrow> bytes \<Rightarrow> 'w core \<Rightarrow> goerror option \<times> 'w core" where
  "relay_inject out m packet s =
     (let (err, w) = InjectDiscovery (ow_inject out) packet m (rt_world (r_net s))
      in (err, s\<lparr>r_net := (r_net s)\<lparr>rt_world := w\<rparr>\<rparr>))"

definition relay_write :: "'w outside \<Rightarrow> addr \<times> u16 \<Rightarrow> bytes \<Rightarrow> 'w core \<Rightarrow> goerror option \<times> 'w core" where
  "relay_write out target payload s =
     (let (err, w) = ow_udpWrite out target payload (rt_world (r_net s))
      in (err, s\<lparr>r_net := (r_net s)\<lparr>rt_world := w\<rparr>\<rparr>))"

definition start_relay ::
  "'w outside \<Rightarrow> u16 \<Rightarrow> manager \<Rightarrow> int \<Rightarrow> 'w runtime \<Rightarrow> ('w core relay_config \<times> relayCore) result \<times> 'w runtime" where
  "start_relay out port m now r =
     (let (listen, r) = on_world (ow_relayListen out) r
      in (StartHostRelay port True (Some (relay_inject out m)) (Some memberIPs) listen (relay_write out) now, r))"

text \<open>\<open>startNetwork\<close>; the mutex is held to its end.\<close>

definition net_failed :: "goerror \<Rightarrow> 'w runtime \<Rightarrow> goerror option \<times> 'w runtime" where
  "net_failed e r = (Some e, setLifecycle ''faulted'' (setMode ''idle'' r))"

definition net_start :: "'w outside \<Rightarrow> int \<Rightarrow> NetworkConfig \<Rightarrow> 'w runtime \<Rightarrow> goerror option \<times> 'w runtime" where
  "net_start out now config r =
     (if rt_manager r \<noteq> None then (Some (ErrTag (Other ''WireGuard is already running'')), r)
      else if rt_session r then (Some (ErrTag (Other ''client room is already running'')), r)
      else if rt_ordinary r then (Some errNetworkActive, r)
      else
        (let r = setLifecycle ''starting_openp2p'' (setMode ''host'' r);
             (err, r) = in_files (ClearInternal (rt_configPath r)) r
         in if err \<noteq> None then net_failed errNotReady r
            else
              (let (err, r) = engine_Start out r
               in if err \<noteq> None then net_failed errNotReady r
                  else
                    (let r = setLifecycle ''starting_wireguard'' r;
                         (m, r) = on_world (wg_Start (ow_wg out) \<lparr>so_PrivateKey = nc_PrivateKey config,
                            so_LocalIP = nc_LocalIP config, so_ListenPort = nc_ListenPort config,
                            so_RelayPort = nc_RelayPort config, so_Host = True, so_OnDiscovery = True\<rparr>) r
                     in (case m of
                           Inl e \<Rightarrow> net_failed errWireGuardFailed (snd (engine_Stop out r))
                         | Inr m \<Rightarrow>
                             (let (relay, r) = start_relay out (nc_RelayPort config) m now r
                              in (case relay of
                                    Inl e \<Rightarrow>
                                      (let (_, w) = (case wg_Close (ow_wg out) m (rt_world r) of (err, _, w) \<Rightarrow> (err, w))
                                       in net_failed errWireGuardFailed (snd (engine_Stop out (r\<lparr>rt_world := w\<rparr>))))
                                  | Inr (_, relay) \<Rightarrow>
                                      (None, setLifecycle ''listening'' (r\<lparr>rt_manager := Some m, rt_relay := Some relay\<rparr>)))))))))"

text \<open>\<open>manager.Close\<close> of a manager the runtime has taken out of its state.\<close>

definition close_manager :: "'w outside \<Rightarrow> manager option \<Rightarrow> 'w runtime \<Rightarrow> goerror option \<times> 'w runtime" where
  "close_manager out m r =
     (case m of
        None \<Rightarrow> (None, r)
      | Some m \<Rightarrow> (case wg_Close (ow_wg out) m (rt_world r) of (err, _, w) \<Rightarrow> (err, r\<lparr>rt_world := w\<rparr>)))"

definition settle :: "goerror option list \<Rightarrow> 'w runtime \<Rightarrow> goerror option \<times> 'w runtime" where
  "settle errs r =
     (let err = errors_join errs; r = setMode ''idle'' r
      in (err, setLifecycle (if err \<noteq> None then ''faulted'' else ''idle'') r))"

definition net_stop :: "'w outside \<Rightarrow> 'w runtime \<Rightarrow> goerror option \<times> 'w runtime" where
  "net_stop out r =
     (let r = setLifecycle ''stopping'' r; manager = rt_manager r; relay = rt_relay r;
          r = r\<lparr>rt_manager := None, rt_relay := None\<rparr>;
          (relayErr, r) = (if relay = None then (None, r)
             else (let (err, r) = on_world (ow_relayClose out) r in (fst (relay_close err False), r)));
          (managerErr, r) = close_manager out manager r;
          (apps, r) = in_files (UserApps (rt_configPath r)) r;
          configErr = (case apps of Inl e \<Rightarrow> Some e | Inr _ \<Rightarrow> None);
          (processErr, r) = (if configErr \<noteq> None \<or> \<not> rt_ordinary r then engine_Stop out r else (None, r))
      in settle [relayErr, managerErr, configErr, processErr] r)"

definition net_applyPeer :: "'w outside \<Rightarrow> lease \<Rightarrow> arr32 \<Rightarrow> 'w runtime \<Rightarrow> goerror option \<times> 'w runtime" where
  "net_applyPeer out item psk r =
     (case rt_manager r of
        None \<Rightarrow> (Some errNotRunning, r)
      | Some m \<Rightarrow>
          (let (err, r) = on_world (SetPeer (ow_wg out) \<lparr>pe_PublicKey = lease_key item, pe_PSK = psk, pe_IP = lease_IP item,
                 pe_Endpoint = (AddrZero, 0)\<rparr> False m) r
           in (if err \<noteq> None then Some errWireGuardUpdate else None, r)))"

definition net_removePeer :: "'w outside \<Rightarrow> arr32 \<Rightarrow> 'w runtime \<Rightarrow> goerror option \<times> 'w runtime" where
  "net_removePeer out publicKey r =
     (case rt_manager r of
        None \<Rightarrow> (Some errNotRunning, r)
      | Some m \<Rightarrow>
          (let (err, r) = on_world (RemovePeer (ow_wg out) publicKey m) r
           in (if err \<noteq> None then Some errWireGuardUpdate else None, r)))"

definition runtime_callbacks :: "'w outside \<Rightarrow> int \<Rightarrow> 'w runtime callbacks" where
  "runtime_callbacks out now = \<lparr>cb_startNetwork = Some (net_start out now), cb_stopNetwork = Some (net_stop out),
     cb_applyPeer = Some (net_applyPeer out), cb_removePeer = Some (net_removePeer out)\<rparr>"

text \<open>\<open>refreshHostStats\<close>: the manager's statistics go to the room at most once a second.\<close>

definition member_stats :: "PeerStat list \<Rightarrow> (arr32, MemberStats) fmap" where
  "member_stats stats = foldl (\<lambda>m stat. fmupd (ps_PublicKey stat) \<lparr>mt_LastHandshake = Some (ps_LastHandshake stat),
       mt_RxBytes = ps_RxBytes stat, mt_TxBytes = ps_TxBytes stat, mt_LatencyMS = 0\<rparr> m) fmempty stats"

definition refreshHostStats :: "'w outside \<Rightarrow> int \<Rightarrow> 'w core \<Rightarrow> 'w core" where
  "refreshHostStats out now s =
     (let r = r_net s in
      (case rt_manager r of
         None \<Rightarrow> s
       | Some m \<Rightarrow>
           if now - rt_statsAt r < 10 ^ 9 then s
           else
             (let (stats, r) = on_world (PeerStats (ow_wg out) m) (r\<lparr>rt_statsAt := now\<rparr>); s = s\<lparr>r_net := r\<rparr>
              in (case stats of Inl _ \<Rightarrow> s | Inr stats \<Rightarrow> UpdateMemberStats now (member_stats stats) s))))"

end
