(* ===== verification/Core_Session.thy ===== *)
theory Core_Session
  imports Core_Runtime
begin

text \<open>
  The client's side of \<open>internal/core/runtime.go\<close>: \<open>Join\<close>, \<open>Leave\<close> and the goroutine \<open>syncDevices\<close>,
  as the pieces between which other calls of the runtime can run.
\<close>

section \<open>Joining\<close>

record JoinOptions =
  jo_Invite :: string
  jo_Name :: string
  jo_FixedDeviceKey :: bool

record JoinResult =
  jr_HostUID :: string
  jr_AssignedIP :: string
  jr_PrefixLength :: byte
  jr_WireGuardPort :: u16
  jr_RelayPort :: u16

text \<open>What \<open>Join\<close> gets from the system: random bytes and the two free ports.\<close>

record join_env =
  je_random :: "arr32 result"
  je_pairPort :: "u16 result"
  je_wgPort :: "u16 result"

text \<open>The variables of \<open>Join\<close> that live across its loop; \<open>jd_ctx\<close> is its context.\<close>

record join_data =
  jd_options :: JoinOptions
  jd_invite :: invite
  jd_node :: string
  jd_identity :: KeyPair
  jd_path :: string
  jd_psk :: arr32
  jd_membership :: bool
  jd_pairApp :: App
  jd_wgPort :: u16
  jd_configured :: bool
  jd_ctx :: nat

definition client_path :: "string \<Rightarrow> string \<Rightarrow> string \<Rightarrow> string" where
  "client_path dataDir uid suffix = dataDir @ ''/client-'' @ uid @ suffix"

definition loadMembershipKey :: "string \<Rightarrow> bool \<Rightarrow> disk \<Rightarrow> (arr32 \<times> bool) result \<times> disk" where
  "loadMembershipKey path fixed d =
     (if \<not> fixed then (Inr (0, False), d)
      else
        (let (data, d) = secret_Load path d in
         (case data of
            Inl e \<Rightarrow> if errors_is e OsErrNotExist then (Inr (0, False), d) else (Inl e, d)
          | Inr data \<Rightarrow>
              if length data \<noteq> 32 then (Inl (ErrWrap [ErrTag SecretErrStore]), d) else (Inr (be_word data, True), d))))"

definition terminalPairError :: "goerror option \<Rightarrow> bool" where
  "terminalPairError err =
     (case err of
        None \<Rightarrow> True
      | Some e \<Rightarrow> errors_is e PairErrAuthFailed \<or> errors_is e PairErrJoinPaused \<or> errors_is e PairErrRoomFull
          \<or> errors_is e PairErrMemberDisabled)"

text \<open>The first critical section, after \<open>rooms.Snapshot().Running\<close> has been false.\<close>

definition join_enter :: "nat \<Rightarrow> 'w runtime \<Rightarrow> goerror option \<times> 'w runtime" where
  "join_enter ctx r =
     (if rt_session r \<or> rt_ordinary r then (Some errNetworkActive, r)
      else (None, setLifecycle ''joining'' (setMode ''client''
             (r\<lparr>rt_session := True, rt_joinCancel := Some ctx, rt_joinError := None\<rparr>))))"

text \<open>From the decoding of the invite to the start of the engine.\<close>

definition join_prepare ::
  "'w outside \<Rightarrow> join_env \<Rightarrow> JoinOptions \<Rightarrow> nat \<Rightarrow> 'w runtime \<Rightarrow> join_data result \<times> 'w runtime" where
  "join_prepare out env options ctx r =
     (case Decode (jo_Invite options) of
        Inl e \<Rightarrow> (Inl e, r)
      | Inr invitation \<Rightarrow>
     (let (config, r) = in_files (p2p_load (rt_configPath r)) r in
     (case config of
        Inl e \<Rightarrow> (Inl e, r)
      | Inr config \<Rightarrow>
     (let (identity, r) = in_files (LoadOrCreate (client_path (rt_dataDir r) (HostUID invitation) ''.secret'')
            (jo_FixedDeviceKey options) (je_random env)) r in
     (case identity of
        Inl e \<Rightarrow> (Inl e, r)
      | Inr identity \<Rightarrow>
     (let membershipPath = client_path (rt_dataDir r) (HostUID invitation) ''.membership.secret'';
          (member, r) = in_files (loadMembershipKey membershipPath (jo_FixedDeviceKey options)) r in
     (case member of
        Inl e \<Rightarrow> (Inl e, r)
      | Inr (memberPSK, hasMembership) \<Rightarrow>
     (case je_pairPort env of
        Inl e \<Rightarrow> (Inl e, r)
      | Inr pairPort \<Rightarrow>
     (case je_wgPort env of
        Inl e \<Rightarrow> (Inl e, r)
      | Inr wgPort \<Rightarrow>
     (let pairApp = PairingApp (HostUID invitation) (PairPort invitation) pairPort;
          (err, r) = in_files (SetInternal (rt_configPath r) [pairApp]) r in
     (case err of
        Some _ \<Rightarrow> (Inl errNotReady, r)
      | None \<Rightarrow>
     (let (err, r) = restartOpenP2P out r in
     (case err of
        Some _ \<Rightarrow> (Inl errNotReady, snd (in_files (ClearInternal (rt_configPath r)) r))
      | None \<Rightarrow>
          (Inr \<lparr>jd_options = options, jd_invite = invitation, jd_node = np_Node (cf_Network config),
                jd_identity = identity, jd_path = membershipPath, jd_psk = memberPSK, jd_membership = hasMembership,
                jd_pairApp = pairApp, jd_wgPort = wgPort, jd_configured = False, jd_ctx = ctx\<rparr>, r))))))))))))))"

definition loopback :: addr where "loopback = AddrFrom4 [127, 0, 0, 1]"

text \<open>The closure \<open>configure\<close>.\<close>

definition host_peer :: "PairResult \<Rightarrow> arr32 \<Rightarrow> u16 \<Rightarrow> Peer" where
  "host_peer result psk wgPort = \<lparr>pe_PublicKey = pr_HostPublicKey result, pe_PSK = psk, pe_IP = host_ip,
     pe_Endpoint = (loopback, wgPort)\<rparr>"

definition install_client :: "'w outside \<Rightarrow> PairResult \<Rightarrow> manager \<Rightarrow> join_data \<times> 'w runtime \<Rightarrow> goerror option \<times> join_data \<times> 'w runtime" where
  "install_client out result m jr =
     (let (j, r) = jr in
      if \<not> rt_session r then (Some (ErrTag CtxCanceled), j, snd (close_manager out (Some m) r))
      else (None, j\<lparr>jd_configured := True\<rparr>, r\<lparr>rt_client := Some m, rt_clientIP := pr_AssignedIP result\<rparr>))"

definition join_configure ::
  "'w outside \<Rightarrow> PairResult \<Rightarrow> join_data \<times> 'w runtime \<Rightarrow> goerror option \<times> join_data \<times> 'w runtime" where
  "join_configure out result jr =
     (let (j, r) = jr;
          wireGuardApp = WireGuardApp (HostUID (jd_invite j)) (pr_WireGuardPort result) (jd_wgPort j);
          (err, r) = in_files (SetInternal (rt_configPath r) [jd_pairApp j, wireGuardApp]) r in
     (case err of
        Some e \<Rightarrow> (Some e, j, r)
      | None \<Rightarrow>
     (let (err, r) = engine_AddApp out wireGuardApp r in
     (case err of
        Some _ \<Rightarrow> (Some errNotReady, j, r)
      | None \<Rightarrow>
     (let (m, r) = on_world (wg_Start (ow_wg out) \<lparr>so_PrivateKey = kp_Private (jd_identity j), so_LocalIP = pr_AssignedIP result,
            so_ListenPort = 0, so_RelayPort = pr_DiscoveryRelayPort result, so_Host = False, so_OnDiscovery = False\<rparr>) r in
     (case m of
        Inl _ \<Rightarrow> (Some errWireGuardFailed, j, r)
      | Inr m \<Rightarrow>
     (let j = (if jd_membership j then j
               else j\<lparr>jd_psk := DerivePSK (RoomKey (jd_invite j)) (pr_HostPublicKey result) (kp_Public (jd_identity j))\<rparr>);
          (err, r) = on_world (SetPeer (ow_wg out) (host_peer result (jd_psk j) (jd_wgPort j)) True m) r in
     (case err of
        Some _ \<Rightarrow> (Some errWireGuardUpdate, j, snd (close_manager out (Some m) r))
      | None \<Rightarrow> install_client out result m (j, r)))))))))"

text \<open>
  A pairing with a callback that changes a state: the result of \<open>pairWithSession\<close>, with the effect the
  callback had on the way.
\<close>

definition run_pairing ::
  "client_env \<Rightarrow> bytes \<Rightarrow> arr32 \<Rightarrow> string \<Rightarrow> string \<Rightarrow> (PairResult \<Rightarrow> 's \<Rightarrow> goerror option \<times> 's) \<Rightarrow> 's \<Rightarrow> PairResult result \<times> 's" where
  "run_pairing env authKey key uid name configure s =
     (case snd (pairWithSession (env\<lparr>ce_configure := None, ce_ack_sent := None\<rparr>) authKey key uid name) of
        Inl e \<Rightarrow> (Inl e, s)
      | Inr result \<Rightarrow>
          (case ce_deadline env of
             Some e \<Rightarrow> (Inl e, s)
           | None \<Rightarrow>
               (let (err, s) = configure result s in
                (case err of
                   Some e \<Rightarrow> (Inl e, s)
                 | None \<Rightarrow> (case ce_ack_sent env of Some e \<Rightarrow> (Inl e, s) | None \<Rightarrow> (Inr result, s))))))"

text \<open>
  The loop: an attempt either goes on at once (the membership key was refused), ends the loop, or waits
  for the timer and the context.
\<close>

datatype turn = Again | Wait goerror | LoopDone "PairResult result"

definition error_of :: "'a result \<Rightarrow> goerror option" where
  "error_of v = (case v of Inl e \<Rightarrow> Some e | Inr _ \<Rightarrow> None)"

definition join_attempt :: "'w outside \<Rightarrow> client_env \<Rightarrow> join_data \<times> 'w runtime \<Rightarrow> turn \<times> join_data \<times> 'w runtime" where
  "join_attempt out env jr =
     (let j = fst jr;
          authKey = (if jd_membership j then be_bytes (jd_psk j) else be_bytes (RoomKey (jd_invite j)));
          (paired, j', r) = run_pairing env authKey (kp_Public (jd_identity j)) (jd_node j) (jo_Name (jd_options j))
             (join_configure out) jr
      in (case paired of
            Inr result \<Rightarrow> (LoopDone paired, j', r)
          | Inl e \<Rightarrow>
              if jd_membership j \<and> errors_is e PairErrAuthFailed then (Again, j'\<lparr>jd_membership := False\<rparr>, r)
              else if jd_configured j' \<or> terminalPairError (Some e) \<or> jd_ctx j |\<in>| rt_cancelled r then (LoopDone paired, j', r)
              else (Wait e, j', r\<lparr>rt_joinError := Some e\<rparr>)))"

text \<open>The end: the membership key is kept, then the last critical section takes the control session.\<close>

definition join_save :: "join_data \<Rightarrow> PairResult result \<Rightarrow> 'w runtime \<Rightarrow> PairResult result \<times> 'w runtime" where
  "join_save j paired r =
     (case paired of
        Inl e \<Rightarrow> (Inl e, r\<lparr>rt_joinError := Some e\<rparr>)
      | Inr result \<Rightarrow>
          if jo_FixedDeviceKey (jd_options j) \<and> \<not> jd_membership j then
            (let (err, r) = in_files (secret_Save (jd_path j) (be_bytes (jd_psk j))) r
             in (case err of Some e \<Rightarrow> (Inl e, r) | None \<Rightarrow> (Inr result, r)))
          else (Inr result, r))"

definition join_online ::
  "join_data \<Rightarrow> PairResult \<Rightarrow> nat \<Rightarrow> nat \<Rightarrow> 'w runtime \<Rightarrow> JoinResult result \<times> 'w runtime" where
  "join_online j paired control controlCtx r =
     (if \<not> rt_session r
      then (Inl (ErrTag CtxCanceled), r\<lparr>rt_cancelled := finsert controlCtx (rt_cancelled r), rt_closed := finsert control (rt_closed r)\<rparr>)
      else
        (Inr \<lparr>jr_HostUID = HostUID (jd_invite j), jr_AssignedIP = addr_string (pr_AssignedIP paired),
              jr_PrefixLength = pr_PrefixLength paired, jr_WireGuardPort = pr_WireGuardPort paired,
              jr_RelayPort = pr_DiscoveryRelayPort paired\<rparr>,
         setLifecycle ''online'' (r\<lparr>rt_control := Some control, rt_clientCancel := Some controlCtx, rt_joinCancel := None,
           rt_joinError := None, rt_cancelled := finsert (jd_ctx j) (rt_cancelled r)\<rparr>)))"

section \<open>Leaving\<close>

text \<open>What the first critical section of \<open>Leave\<close> takes out of the runtime.\<close>

record leave_data =
  ld_client :: "manager option"
  ld_control :: "nat option"
  ld_cancelControl :: "nat option"
  ld_cancelJoin :: "nat option"
  ld_active :: bool

definition leave_take :: "'w runtime \<Rightarrow> leave_data \<times> 'w runtime" where
  "leave_take r =
     (\<lparr>ld_client = rt_client r, ld_control = rt_control r, ld_cancelControl = rt_clientCancel r,
       ld_cancelJoin = rt_joinCancel r, ld_active = rt_session r\<rparr>,
      r\<lparr>rt_client := None, rt_control := None, rt_clientCancel := None, rt_joinCancel := None, rt_clientDevices := [],
        rt_clientIP := AddrZero, rt_session := False\<rparr>)"

definition finsert_opt :: "nat option \<Rightarrow> nat fset \<Rightarrow> nat fset" where
  "finsert_opt x A = (case x of None \<Rightarrow> A | Some y \<Rightarrow> finsert y A)"

definition drop_missing :: "goerror option \<Rightarrow> goerror option" where
  "drop_missing err = (case err of Some e \<Rightarrow> if errors_is e OsErrNotExist then None else Some e | None \<Rightarrow> None)"

definition leave_finish :: "'w outside \<Rightarrow> leave_data \<Rightarrow> 'w runtime \<Rightarrow> goerror option \<times> 'w runtime" where
  "leave_finish out l r =
     (if \<not> ld_active l then (None, r)
      else
        (let r = setLifecycle ''stopping'' r;
             r = r\<lparr>rt_cancelled := finsert_opt (ld_cancelControl l) (finsert_opt (ld_cancelJoin l) (rt_cancelled r)),
                   rt_closed := finsert_opt (ld_control l) (rt_closed r)\<rparr>;
             (deviceErr, r) = close_manager out (ld_client l) r;
             (configErr, r) = in_files (ClearInternal (rt_configPath r)) r;
             (apps, r) = in_files (UserApps (rt_configPath r)) r;
             listErr = drop_missing (error_of apps);
             (processErr, r) = (if listErr = None \<and> rt_ordinary r then restartOpenP2P out r else engine_Stop out r)
         in settle [deviceErr, drop_missing configErr, listErr, processErr] r))"

definition Leave :: "'w outside \<Rightarrow> 'w runtime \<Rightarrow> goerror option \<times> 'w runtime" where
  "Leave out r = (let (l, r) = leave_take r in leave_finish out l r)"

text \<open>The deferred calls of a \<open>Join\<close> that has not succeeded.\<close>

definition join_undo :: "'w outside \<Rightarrow> nat \<Rightarrow> 'w runtime \<Rightarrow> 'w runtime" where
  "join_undo out ctx r = (let r = snd (Leave out r) in r\<lparr>rt_cancelled := finsert ctx (rt_cancelled r)\<rparr>)"

section \<open>A Join that nothing interrupts\<close>

text \<open>
  The turns: the world of each attempt, and whether the wait after it ended with the context. \<open>None\<close>
  means that the loop still waits when the turns given are used up.
\<close>

fun join_loop :: "'w outside \<Rightarrow> (client_env \<times> bool) list \<Rightarrow> join_data \<times> 'w runtime \<Rightarrow> (PairResult result \<times> join_data \<times> 'w runtime) option" where
  "join_loop out [] jr = None"
| "join_loop out ((env, stopped) # turns) jr =
     (let (t, jr) = join_attempt out env jr in
      (case t of
         LoopDone paired \<Rightarrow> Some (paired, jr)
       | Again \<Rightarrow> join_loop out turns jr
       | Wait e \<Rightarrow> if stopped then Some (Inl (ErrTag CtxCanceled), jr) else join_loop out turns jr))"

definition join_body ::
  "'w outside \<Rightarrow> join_env \<Rightarrow> JoinOptions \<Rightarrow> nat \<Rightarrow> (client_env \<times> bool) list \<Rightarrow> nat \<Rightarrow> nat \<Rightarrow> 'w runtime
     \<Rightarrow> (JoinResult result \<times> 'w runtime) option" where
  "join_body out env options ctx turns control controlCtx r =
     (let (j, r) = join_prepare out env options ctx r in
      (case j of
         Inl e \<Rightarrow> Some (Inl e, r)
       | Inr j \<Rightarrow>
           (case join_loop out turns (j, r) of
              None \<Rightarrow> None
            | Some (paired, j, r) \<Rightarrow>
                (let (paired, r) = join_save j paired r in
                 (case paired of
                    Inl e \<Rightarrow> Some (Inl e, r)
                  | Inr paired \<Rightarrow> Some (join_online j paired control controlCtx r))))))"

definition Join ::
  "'w outside \<Rightarrow> join_env \<Rightarrow> JoinOptions \<Rightarrow> nat \<Rightarrow> (client_env \<times> bool) list \<Rightarrow> nat \<Rightarrow> nat \<Rightarrow> 'w core
     \<Rightarrow> (JoinResult result \<times> 'w core) option" where
  "Join out env options ctx turns control controlCtx s =
     (if r_running s then Some (Inl (ErrTag (Other ''host room is running'')), s)
      else
        (let (err, r) = join_enter ctx (r_net s) in
         (case err of
            Some e \<Rightarrow> Some (Inl e, s\<lparr>r_net := r\<rparr>)
          | None \<Rightarrow>
              (case join_body out env options ctx turns control controlCtx r of
                 None \<Rightarrow> None
               | Some (Inl e, r) \<Rightarrow> Some (Inl e, s\<lparr>r_net := join_undo out ctx r\<rparr>)
               | Some (Inr v, r) \<Rightarrow> Some (Inr v, s\<lparr>r_net := r\<rparr>)))))"

section \<open>The control session\<close>

record sync_data =
  sy_ctx :: nat
  sy_session :: nat
  sy_psk :: arr32
  sy_key :: arr32
  sy_name :: string
  sy_uid :: string

text \<open>The traffic it reports: the sums over the peers of the client's manager, with wrap-around.\<close>

definition sync_report :: "'w outside \<Rightarrow> string \<Rightarrow> 'w runtime \<Rightarrow> StatsReport \<times> 'w runtime" where
  "sync_report out uid r =
     (let (stats, r) = (case rt_client r of None \<Rightarrow> (Inr [], r) | Some m \<Rightarrow> on_world (PeerStats (ow_wg out) m) r);
          items = (case stats of Inl _ \<Rightarrow> [] | Inr stats \<Rightarrow> stats)
      in (\<lparr>st_TimestampMS = 0, st_UID = uid, st_RxBytes = sum_list (map ps_RxBytes items),
           st_TxBytes = sum_list (map ps_TxBytes items)\<rparr>, r))"

text \<open>What a turn of the loop does after \<open>Sync\<close>: it ends, leaves, goes on or waits for its ticker to pair again.\<close>

datatype sync_next = SyncEnd | SyncLeave | SyncOn | SyncPair

definition sync_done :: "sync_data \<Rightarrow> Device list result \<Rightarrow> 'w runtime \<Rightarrow> sync_next \<times> 'w runtime" where
  "sync_done y devices r =
     (case devices of
        Inl e \<Rightarrow>
          (let r = r\<lparr>rt_control := (if rt_control r = Some (sy_session y) then None else rt_control r), rt_joinError := Some e,
                     rt_closed := finsert (sy_session y) (rt_closed r)\<rparr>
           in if sy_ctx y |\<in>| rt_cancelled r then (SyncEnd, r)
              else if errors_is e PairErrMemberDisabled then (SyncLeave, r)
              else (SyncPair, setLifecycle ''joining'' r))
      | Inr devices \<Rightarrow> if \<not> rt_session r then (SyncEnd, r) else (SyncOn, r\<lparr>rt_clientDevices := devices\<rparr>))"

definition sync_paired :: "sync_data \<Rightarrow> goerror option \<Rightarrow> nat \<Rightarrow> 'w runtime \<Rightarrow> sync_next \<times> sync_data \<times> 'w runtime" where
  "sync_paired y err session r =
     (case err of
        Some e \<Rightarrow> (if terminalPairError err then SyncLeave else SyncOn, y, r\<lparr>rt_joinError := Some e\<rparr>)
      | None \<Rightarrow>
          (let y = y\<lparr>sy_session := session\<rparr> in
           if \<not> rt_session r then (SyncEnd, y, r\<lparr>rt_closed := finsert session (rt_closed r)\<rparr>)
           else (SyncOn, y, setLifecycle ''online'' (r\<lparr>rt_control := Some session, rt_joinError := None\<rparr>))))"

section \<open>The other calls\<close>

text \<open>
  \<open>roomRunning\<close> is what \<open>rooms.Snapshot().Running\<close> gave before the critical section.
\<close>

definition StartOpenP2P :: "'w outside \<Rightarrow> bool \<Rightarrow> 'w runtime \<Rightarrow> goerror option \<times> 'w runtime" where
  "StartOpenP2P out roomRunning r =
     (if roomRunning \<or> rt_session r \<or> rt_ordinary r then (Some errNetworkActive, r)
      else
        (let (err, r) = engine_Start out (setLifecycle ''starting_openp2p'' (setMode ''ordinary'' (r\<lparr>rt_ordinary := True\<rparr>)))
         in (case err of
               Some _ \<Rightarrow> (Some errNotReady, setLifecycle ''faulted'' (setMode ''idle'' (r\<lparr>rt_ordinary := False\<rparr>)))
             | None \<Rightarrow> (None, r))))"

definition StopOpenP2P :: "'w outside \<Rightarrow> bool \<Rightarrow> 'w runtime \<Rightarrow> goerror option \<times> 'w runtime" where
  "StopOpenP2P out roomRunning r =
     (if roomRunning \<or> rt_session r then (Some errNetworkActive, r)
      else if \<not> rt_ordinary r then (None, r)
      else
        (let (err, r) = engine_Stop out (setLifecycle ''stopping'' r)
         in (case err of
               Some e \<Rightarrow> (Some e, setLifecycle ''faulted'' r)
             | None \<Rightarrow> (None, setLifecycle ''idle'' (setMode ''idle'' (r\<lparr>rt_ordinary := False\<rparr>))))))"

definition ReplaceConfig :: "'w outside \<Rightarrow> Config \<Rightarrow> bool \<Rightarrow> 'w runtime \<Rightarrow> goerror option \<times> 'w runtime" where
  "ReplaceConfig out config roomRunning r =
     (let active = roomRunning \<or> rt_session r; running = rt_ordinary r;
          (refused, r) = (if active then
             (let (current, r) = in_files (p2p_load (rt_configPath r)) r
              in (case current of
                    Inl e \<Rightarrow> (Some e, r)
                  | Inr current \<Rightarrow> (if cf_Network current \<noteq> cf_Network config then Some errNetworkActive else None, r)))
             else (None, r))
      in (case refused of
            Some e \<Rightarrow> (Some e, r)
          | None \<Rightarrow>
              (let (err, r) = in_files (Replace (rt_configPath r) config) r
               in (case err of
                     Some e \<Rightarrow> (Some e, r)
                   | None \<Rightarrow> if running \<or> active then restartOpenP2P out r else (None, r)))))"

definition ReplaceTunnels :: "'w outside \<Rightarrow> App list \<Rightarrow> bool \<Rightarrow> 'w runtime \<Rightarrow> goerror option \<times> 'w runtime" where
  "ReplaceTunnels out apps roomRunning r =
     (let (err, r) = in_files (ReplaceUserApps (rt_configPath r) apps) r
      in (case err of
            Some e \<Rightarrow> (Some e, r)
          | None \<Rightarrow>
              (let (err, r) = engine_Stop out r
               in (case err of
                     Some e \<Rightarrow> (Some e, r)
                   | None \<Rightarrow> if roomRunning \<or> rt_ordinary r \<or> rt_session r then engine_Start out r else (None, r)))))"

definition core_Close :: "'w outside \<Rightarrow> int \<Rightarrow> goerror option \<Rightarrow> 'w core \<Rightarrow> goerror option \<times> 'w core" where
  "core_Close out now listenerErr s =
     (let (leaveErr, r) = Leave out (setLifecycle ''stopping'' (r_net s));
          (roomErr, s) = room_Stop (runtime_callbacks out now) listenerErr (s\<lparr>r_net := r\<rparr>);
          r = r_net s;
          (configErr, r) = in_files (ClearInternal (rt_configPath r)) r;
          (processErr, r) = engine_Stop out r;
          (err, r) = settle [leaveErr, roomErr, drop_missing configErr, processErr] r
      in (err, s\<lparr>r_net := r\<rparr>))"

text \<open>\<open>State\<close>; the refresh of the host's statistics comes first.\<close>

record core_state =
  cs_Lifecycle :: string
  cs_Room :: room_snapshot
  cs_Joined :: bool
  cs_JoinState :: string
  cs_JoinError :: "goerror option"
  cs_Tunnels :: "App list"
  cs_OpenP2PRunning :: bool
  cs_OpenP2PState :: string
  cs_TunnelStates :: "AppStatus list"
  cs_Devices :: "Device list"
  cs_VirtualIP :: string
  cs_Discovery :: "u64 \<times> u64 \<times> u64"

definition join_state :: "'w runtime \<Rightarrow> string" where
  "join_state r =
     (let joined = (rt_control r \<noteq> None); failed = (rt_joinError r \<noteq> None) in
      if rt_session r then (if joined then ''connected'' else if failed then ''retrying'' else ''connecting'')
      else if failed then ''failed'' else ''idle'')"

definition core_State :: "'w outside \<Rightarrow> int \<Rightarrow> 'w core \<Rightarrow> core_state \<times> goerror option \<times> 'w core" where
  "core_State out now s =
     (let s = refreshHostStats out now s; r = r_net s;
          (apps, r') = in_files (UserApps (rt_configPath r)) r; s = s\<lparr>r_net := r'\<rparr>;
          err = drop_missing (error_of apps)
      in (\<lparr>cs_Lifecycle = rt_lifecycle r, cs_Room = snapshotLocked s, cs_Joined = (rt_control r \<noteq> None),
            cs_JoinState = join_state r, cs_JoinError = rt_joinError r,
            cs_Tunnels = (case apps of Inl _ \<Rightarrow> [] | Inr tunnels \<Rightarrow> tunnels), cs_OpenP2PRunning = rt_ordinary r,
            cs_OpenP2PState = rt_process r, cs_TunnelStates = ow_statuses out (rt_world r), cs_Devices = rt_clientDevices r,
            cs_VirtualIP = (if rt_clientIP r = AddrZero then [] else addr_string (rt_clientIP r)),
            cs_Discovery = (case rt_relay r of None \<Rightarrow> (0, 0, 0) | Some relay \<Rightarrow> relay_stats relay)\<rparr>, err, s))"

section \<open>The start of the program\<close>

definition defaultConfig :: "string \<Rightarrow> Config" where
  "defaultConfig uid = \<lparr>cf_Network = \<lparr>np_Token = 11602319472897248650, np_Node = uid, np_User = ''gldoffice'',
       np_ShareBandwidth = 10, np_ServerHost = ''api.openp2p.cn'', np_ServerPort = 27183, np_PublicIPPort = 0\<rparr>,
     cf_Apps = [], cf_LogLevel = 1\<rparr>"

text \<open>
  \<open>New\<close> with its directories given: \<open>verified\<close> is the outcome of the check of the release's components,
  \<open>random\<close> that of reading the eight bytes of a new UID.
\<close>

definition core_New ::
  "string \<Rightarrow> string \<Rightarrow> string \<Rightarrow> goerror option \<Rightarrow> bytes result \<Rightarrow> disk \<Rightarrow> disk \<Rightarrow> 'w \<Rightarrow> 'w core result \<times> disk" where
  "core_New dataDir hostUID configPath verified random roomDisk d w =
     (case verified of
        Some e \<Rightarrow> (Inl e, d)
      | None \<Rightarrow>
          (let (config, d) = p2p_load configPath d;
               (err, d) = (case config of
                  Inr _ \<Rightarrow> (None, d)
                | Inl e \<Rightarrow>
                    if \<not> errors_is e OsErrNotExist then (Some (ErrWrap [e]), d)
                    else (case random of
                            Inl e \<Rightarrow> (Some e, d)
                          | Inr uid \<Rightarrow> Replace configPath (defaultConfig (hex_encode uid)) d))
           in (case err of
                 Some e \<Rightarrow> (Inl e, d)
               | None \<Rightarrow>
                   (let (err, d) = ClearInternal configPath d
                    in (case err of
                          Some e \<Rightarrow> (Inl (ErrWrap [e]), d)
                        | None \<Rightarrow>
                            (let (hostUID, d) = (if hostUID \<noteq> [] then (hostUID, d)
                                else (let (config, d) = p2p_load configPath d
                                      in (case config of Inl _ \<Rightarrow> [] | Inr config \<Rightarrow> np_Node (cf_Network config), d)))
                             in (Inr (room_New dataDir hostUID 0 0 roomDisk
                                   \<lparr>rt_world = w, rt_disk = d, rt_dataDir = dataDir, rt_configPath = configPath,
                                    rt_moduleRun = False, rt_moduleID = 0, rt_manager = None, rt_relay = None, rt_client = None,
                                    rt_control = None, rt_clientCancel = None, rt_joinCancel = None, rt_joinError = None,
                                    rt_clientDevices = [], rt_clientIP = AddrZero, rt_session = False, rt_statsAt = 0,
                                    rt_ordinary = False, rt_process = ''stopped'', rt_lifecycle = ''idle'', rt_mode = ''idle'',
                                    rt_cancelled = {||}, rt_closed = {||}\<rparr>), d)))))))"

end
