(* ===== verification/Openp2p_Laws.thy ===== *)
theory Openp2p_Laws
  imports Openp2p_Config
begin

text \<open>
  Laws of the configuration store: the file it writes is read back as it was, an operation that fails
  leaves the file, and one that succeeds replaces its own part of the list of applications and keeps the
  other. The last section states the store as an interface for its clients.
\<close>

section \<open>Integers\<close>

lemma dec_int_enc [simp]: "- (2 ^ 63) \<le> i \<Longrightarrow> i < 2 ^ 63 \<Longrightarrow> dec_int (enc_int i) = Some i"
proof -
  assume i: "- (2 ^ 63) \<le> i" "i < 2 ^ 63"
  obtain d t where h: "dec_string (nat i) = digit_char d # t" "d < 10" using dec_string_head by blast
  have "digit_char d \<noteq> CHR ''-''" using digit_char_facts(3) [OF h(2)] by auto
  moreover have "dec_digits (digit_char d # t) 0 = Some (nat i)" using dec_digits_dec_string [of "nat i"] unfolding h(1) .
  ultimately show ?thesis using i h(1) by (auto simp: enc_int_def dec_int_def dec_nat_def)
qed

lemma enc_int_simps [simp]: "json_ok (enc_int i)" "enc_int i \<noteq> JNull"
  by (simp_all add: enc_int_def)

section \<open>Fields that keep what was there\<close>

lemma dec_into_skip: "\<forall>(k, v)\<in>set ms. \<not> names_field f k \<Longrightarrow> dec_into f dec start ms = Some start"
  unfolding dec_into_def by (induction ms rule: rev_induct) auto

lemma dec_into_first:
  assumes "names_field f k" "\<forall>(k, v)\<in>set ms. \<not> names_field f k"
  shows "dec_into f dec start ((k, v) # ms) = dec start v"
proof -
  have "foldl (\<lambda>acc (k, v). if \<not> names_field f k then acc else Option.bind acc (\<lambda>old. dec old v)) a ms = a" for a
    using assms(2) by (induction ms) auto
  then show ?thesis using assms(1) by (simp add: dec_into_def)
qed

section \<open>The JSON form\<close>

lemma plain_app_fields: "plain_fields app_fields"
  by (simp add: plain_fields_def app_fields_def ascii_def fold_rune_def)

lemma plain_network_fields: "plain_fields network_fields"
  by (simp add: plain_fields_def network_fields_def ascii_def fold_rune_def)

lemma plain_config_fields: "plain_fields config_fields"
  by (simp add: plain_fields_def config_fields_def ascii_def fold_rune_def)

abbreviation int64 :: "int \<Rightarrow> bool" where
  "int64 i \<equiv> - (2 ^ 63) \<le> i \<and> i < 2 ^ 63"

definition app_text_ok :: "App \<Rightarrow> bool" where
  "app_text_ok a \<longleftrightarrow> list_all utf8_valid [ap_AppName a, ap_Protocol a, ap_UnderlayProtocol a, ap_Whitelist a, ap_PeerNode a,
       ap_DstHost a, ap_PeerUser a, ap_RelayNode a]
     \<and> list_all int64 [ap_PunchPriority a, ap_SrcPort a, ap_DstPort a, ap_ForceRelay a, ap_Enabled a]"

definition config_text_ok :: "Config \<Rightarrow> bool" where
  "config_text_ok c \<longleftrightarrow> list_all utf8_valid [np_Node (cf_Network c), np_User (cf_Network c), np_ServerHost (cf_Network c)]
     \<and> list_all int64 [np_ShareBandwidth (cf_Network c), np_ServerPort (cf_Network c), np_PublicIPPort (cf_Network c), cf_LogLevel c]
     \<and> list_all app_text_ok (cf_Apps c)"

lemma config_text_apps: "config_text_ok (c\<lparr>cf_Apps := apps\<rparr>) \<longleftrightarrow> config_text_ok (c\<lparr>cf_Apps := []\<rparr>) \<and> list_all app_text_ok apps"
  by (auto simp: config_text_ok_def)

lemma dec_app_enc:
  assumes "app_text_ok a"
  shows "dec_app (enc_app a) = Some a"
proof -
  let ?ms = "app_members a"
  have sub: "fst ` set ?ms \<subseteq> set app_fields" by (auto simp: app_members_def app_fields_def omit_str_def omit_int_def)
  have dist: "distinct (map fst ?ms)" by (simp add: app_members_def omit_str_def omit_int_def)
  note F = dec_field_plain [OF plain_app_fields sub dist]
  have lookups: "map_of ?ms ''AppName'' = Some (JStr (ap_AppName a))" "map_of ?ms ''Protocol'' = Some (JStr (ap_Protocol a))"
    "map_of ?ms ''UnderlayProtocol'' = (if ap_UnderlayProtocol a = [] then None else Some (JStr (ap_UnderlayProtocol a)))"
    "map_of ?ms ''PunchPriority'' = (if ap_PunchPriority a = 0 then None else Some (enc_int (ap_PunchPriority a)))"
    "map_of ?ms ''Whitelist'' = Some (JStr (ap_Whitelist a))" "map_of ?ms ''SrcPort'' = Some (enc_int (ap_SrcPort a))"
    "map_of ?ms ''PeerNode'' = Some (JStr (ap_PeerNode a))" "map_of ?ms ''DstPort'' = Some (enc_int (ap_DstPort a))"
    "map_of ?ms ''DstHost'' = Some (JStr (ap_DstHost a))" "map_of ?ms ''PeerUser'' = Some (JStr (ap_PeerUser a))"
    "map_of ?ms ''RelayNode'' = Some (JStr (ap_RelayNode a))"
    "map_of ?ms ''ForceRelay'' = (if ap_ForceRelay a = 0 then None else Some (enc_int (ap_ForceRelay a)))"
    "map_of ?ms ''Enabled'' = Some (enc_int (ap_Enabled a))"
    by (simp_all add: app_members_def omit_str_def omit_int_def)
  show ?thesis
    using assms unfolding enc_app_def dec_app_def json.case
    by (simp add: F app_fields_def lookups app_text_ok_def) (simp add: dec_str_def)
qed

lemma json_ok_app:
  assumes "app_text_ok a"
  shows "json_ok (enc_app a)"
proof -
  have "utf8_valid k" if "k \<in> set app_fields" for k
    using plain_fields_utf8 [OF plain_app_fields] that by (simp add: list_all_iff)
  then show ?thesis
    using assms by (auto simp: enc_app_def app_members_def omit_str_def omit_int_def app_fields_def app_text_ok_def)
qed

lemma dec_token_enc: "dec_token (enc_word w) = Some w"
  using dec_word_enc [of w] by (simp add: enc_word_def dec_token_def)

lemma dec_network_enc:
  assumes "int64 (np_ShareBandwidth n)" "int64 (np_ServerPort n)" "int64 (np_PublicIPPort n)"
  shows "dec_network zero_network (enc_network n) = Some n"
proof -
  obtain ms where E: "enc_network n = JObj ((''Token'', enc_word (np_Token n)) # ms)"
    and ms: "ms = [(''Node'', JStr (np_Node n)), (''User'', JStr (np_User n)),
     (''ShareBandwidth'', enc_int (np_ShareBandwidth n)), (''ServerHost'', JStr (np_ServerHost n)),
     (''ServerPort'', enc_int (np_ServerPort n)), (''PublicIPPort'', enc_int (np_PublicIPPort n))]" by (simp add: enc_network_def)
  let ?ms = "(''Token'', enc_word (np_Token n)) # ms"
  have sub: "fst ` set ?ms \<subseteq> set network_fields" and d: "distinct (map fst ?ms)" by (simp_all add: ms network_fields_def)
  note F = dec_field_plain [OF plain_network_fields sub d]
  have T: "dec_into ''Token'' (\<lambda>_. dec_token) z ?ms = dec_token (enc_word (np_Token n))" for z
  proof (rule dec_into_first)
    show "\<forall>(k, v)\<in>set ms. \<not> names_field ''Token'' k"
      using plain_fields_names [OF plain_network_fields] by (auto simp: ms network_fields_def)
  qed (simp add: names_field_def)
  show ?thesis
    using assms unfolding E dec_network_def json.case
    by (simp add: T dec_token_enc F network_fields_def) (simp add: ms dec_str_def)
qed

lemma dec_config_enc:
  assumes "config_text_ok c"
  shows "dec_config (enc_config nil c) = Some c"
proof -
  let ?n = "enc_network (cf_Network c)"
  let ?a = "if nil \<and> cf_Apps c = [] then JNull else JArr (map enc_app (cf_Apps c))"
  let ?ms = "[(''Network'', ?n), (''Apps'', ?a), (''LogLevel'', enc_int (cf_LogLevel c))]"
  have sub: "fst ` set ?ms \<subseteq> set config_fields" and d: "distinct (map fst ?ms)" by (simp_all add: config_fields_def)
  note F = dec_field_plain [OF plain_config_fields sub d]
  have N: "dec_into ''Network'' dec_network zero_network ?ms = dec_network zero_network ?n"
  proof (rule dec_into_first)
    show "\<forall>(k, v)\<in>set [(''Apps'', ?a), (''LogLevel'', enc_int (cf_LogLevel c))]. \<not> names_field ''Network'' k"
      using plain_fields_names [OF plain_config_fields] by (auto simp: config_fields_def)
  qed (simp add: names_field_def)
  have A: "dec_slice zero_app dec_app (JArr (map enc_app (cf_Apps c))) = Some (cf_Apps c)"
  proof (rule dec_slice_map)
    show "dec_app (enc_app a) = Some a" if "a \<in> set (cf_Apps c)" for a
      using assms that by (intro dec_app_enc) (simp add: config_text_ok_def list_all_iff)
  qed (simp add: enc_app_def)
  have "dec_field ''Apps'' (dec_slice zero_app dec_app) [] ?ms = Some (cf_Apps c)"
    by (subst F) (simp_all add: config_fields_def A)
  moreover have "dec_field ''LogLevel'' dec_int 0 ?ms = Some (cf_LogLevel c)"
    using assms by (subst F) (simp_all add: config_fields_def config_text_ok_def)
  ultimately show ?thesis
    using assms unfolding enc_config_def dec_config_def json.case
    by (simp add: N dec_network_enc config_text_ok_def)
qed

lemma json_ok_config:
  assumes "config_text_ok c"
  shows "json_ok (enc_config nil c)"
proof -
  have "utf8_valid k" if "k \<in> set network_fields \<union> set config_fields" for k
    using plain_fields_utf8 [OF plain_network_fields] plain_fields_utf8 [OF plain_config_fields] that by (auto simp: list_all_iff)
  then show ?thesis
    using assms by (auto simp: enc_config_def enc_network_def network_fields_def config_fields_def config_text_ok_def
        list_all_iff json_ok_app)
qed

section \<open>Load and save\<close>

text \<open>The configuration a file holds for \<open>load\<close>.\<close>

definition file_config :: "(string, bytes) fmap \<Rightarrow> string \<Rightarrow> Config option" where
  "file_config files path = Option.bind (fmlookup files path) (\<lambda>data.
     (case Option.bind (json_parse (string_of data)) dec_config of None \<Rightarrow> None
      | Some c \<Rightarrow> if validateConfig c = None then Some c else None))"

lemma p2p_load_file:
  assumes "p2p_load path d = (r, d')"
  shows "d_files d' = d_files d" "r = Inr c \<Longrightarrow> file_config (d_files d) path = Some c"
    "file_config (d_files d) path = Some c \<Longrightarrow> r = Inr c \<or> (\<exists>e. r = Inl e)"
proof -
  obtain data d1 where rd: "ReadFile path d = (data, d1)" by fastforce
  have f: "d_files d1 = d_files d" "\<And>b. data = Inr b \<Longrightarrow> fmlookup (d_files d) path = Some b"
    using rd by (auto simp: ReadFile_def Let_def dest!: os_call_files split: prod.splits option.splits)
  show "d_files d' = d_files d" "r = Inr c \<Longrightarrow> file_config (d_files d) path = Some c"
    "file_config (d_files d) path = Some c \<Longrightarrow> r = Inr c \<or> (\<exists>e. r = Inl e)"
    using assms f by (auto simp: p2p_load_def rd file_config_def split: sum.splits option.splits if_splits)
qed

lemma p2p_save_file:
  assumes "p2p_save path nil c d = (err, d')" "config_text_ok c"
  shows "file_config (d_files d') path = (if err = None then Some c else file_config (d_files d) path)"
    "err = None \<Longrightarrow> validateConfig c = None"
proof -
  let ?data = "bytes_of (json_print True 0 (enc_config nil c) @ [CHR 0x0A])"
  have P: "json_parse (json_print True 0 (enc_config nil c) @ [CHR 0x0A]) = Some (enc_config nil c)"
    by (rule json_parse_print [OF json_ok_config [OF assms(2)]]) (simp add: is_ws_def json_ws_def)
  have f: "file_config files path = Some c" if "fmlookup files path = Some ?data" "validateConfig c = None" for files
    using that by (simp add: file_config_def P dec_config_enc [OF assms(2)])
  have "file_config (d_files d') path = (if err = None then Some c else file_config (d_files d) path)
    \<and> (err = None \<longrightarrow> validateConfig c = None)"
  proof (cases "validateConfig c")
    case None
    then have w: "writeAtomic path ?data d = (err, d')" using assms(1) by (simp add: p2p_save_def)
    with None f [of "d_files d'"] writeAtomic_written [OF w] show ?thesis by (simp add: written_def file_config_def)
  qed (use assms(1) in \<open>auto simp: p2p_save_def\<close>)
  then show "file_config (d_files d') path = (if err = None then Some c else file_config (d_files d) path)"
    "err = None \<Longrightarrow> validateConfig c = None" by blast+
qed

section \<open>The two parts of the list\<close>

lemma parts_of_append [simp]:
  "userApps (xs @ ys) = userApps xs @ userApps ys" "internalApps (xs @ ys) = internalApps xs @ internalApps ys"
  by (simp_all add: userApps_def internalApps_def)

lemma parts_of_user [simp]:
  "\<forall>a\<in>set xs. \<not> isInternal a \<Longrightarrow> userApps xs = xs" "\<forall>a\<in>set xs. \<not> isInternal a \<Longrightarrow> internalApps xs = []"
  by (simp_all add: userApps_def internalApps_def)

lemma parts_of_internal [simp]:
  "\<forall>a\<in>set xs. isInternal a \<Longrightarrow> userApps xs = []" "\<forall>a\<in>set xs. isInternal a \<Longrightarrow> internalApps xs = xs"
  by (simp_all add: userApps_def internalApps_def)

lemma parts_of_parts [simp]:
  "userApps (userApps xs) = userApps xs" "internalApps (internalApps xs) = internalApps xs"
  "userApps (internalApps xs) = []" "internalApps (userApps xs) = []"
  by (simp_all add: userApps_def internalApps_def)

lemma parts_text_ok:
  "list_all app_text_ok xs \<Longrightarrow> list_all app_text_ok (userApps xs) \<and> list_all app_text_ok (internalApps xs)"
  by (auto simp: userApps_def internalApps_def list_all_iff)

lemma ReplaceUserApps_file:
  assumes "ReplaceUserApps path apps d = (err, d')" "file_config (d_files d) path = Some c" "config_text_ok c" "list_all app_text_ok apps"
  shows "file_config (d_files d') path = (if err = None then Some (c\<lparr>cf_Apps := apps @ internalApps (cf_Apps c)\<rparr>) else Some c)"
    "err = None \<Longrightarrow> \<forall>a\<in>set apps. \<not> isInternal a"
proof -
  obtain r d1 where l: "p2p_load path d = (r, d1)" by fastforce
  note L = p2p_load_file [OF l]
  have ok: "config_text_ok (c\<lparr>cf_Apps := apps @ internalApps (cf_Apps c)\<rparr>)"
    using assms(3,4) parts_text_ok [of "cf_Apps c"] by (simp add: config_text_ok_def)
  note S = p2p_save_file [of path True _ d1 err d', OF _ ok]
  show "file_config (d_files d') path = (if err = None then Some (c\<lparr>cf_Apps := apps @ internalApps (cf_Apps c)\<rparr>) else Some c)"
    "err = None \<Longrightarrow> \<forall>a\<in>set apps. \<not> isInternal a"
    using assms(1,2) L S by (auto simp: ReplaceUserApps_def l list_ex_iff split: if_splits sum.splits)
qed

lemma SetInternal_file:
  assumes "SetInternal path apps d = (err, d')" "file_config (d_files d) path = Some c" "config_text_ok c" "list_all app_text_ok apps"
  shows "file_config (d_files d') path = (if err = None then Some (c\<lparr>cf_Apps := userApps (cf_Apps c) @ apps\<rparr>) else Some c)"
    "err = None \<Longrightarrow> \<forall>a\<in>set apps. isInternal a"
proof -
  obtain r d1 where l: "p2p_load path d = (r, d1)" by fastforce
  note L = p2p_load_file [OF l]
  have ok: "config_text_ok (c\<lparr>cf_Apps := userApps (cf_Apps c) @ apps\<rparr>)"
    using assms(3,4) parts_text_ok [of "cf_Apps c"] by (simp add: config_text_ok_def)
  note S = p2p_save_file [of path False _ d1 err d', OF _ ok]
  show "file_config (d_files d') path = (if err = None then Some (c\<lparr>cf_Apps := userApps (cf_Apps c) @ apps\<rparr>) else Some c)"
    "err = None \<Longrightarrow> \<forall>a\<in>set apps. isInternal a"
    using assms(1,2) L S by (auto simp: SetInternal_def l list_ex_iff split: if_splits sum.splits)
qed

lemma Replace_file:
  assumes "Replace path new d = (err, d')" "file_config (d_files d) path = Some c" "config_text_ok c" "config_text_ok new"
    and there: "\<And>e. fst (p2p_load path d) = Inl e \<Longrightarrow> \<not> errors_is e OsErrNotExist"
  shows "file_config (d_files d') path =
      (if err = None then Some (new\<lparr>cf_Apps := cf_Apps new @ internalApps (cf_Apps c)\<rparr>) else Some c)"
    "err = None \<Longrightarrow> \<forall>a\<in>set (cf_Apps new). \<not> isInternal a"
proof -
  obtain r d1 where l: "p2p_load path d = (r, d1)" by fastforce
  note L = p2p_load_file [OF l]
  have ok: "config_text_ok (new\<lparr>cf_Apps := cf_Apps new @ internalApps (cf_Apps c)\<rparr>)"
    using assms(3,4) parts_text_ok [of "cf_Apps c"] by (simp add: config_text_ok_def)
  have ne: "r \<noteq> Inl e" if "errors_is e OsErrNotExist" for e using there that by (auto simp: l)
  note S = p2p_save_file [of path True _ d1 err d', OF _ ok]
  show "file_config (d_files d') path =
      (if err = None then Some (new\<lparr>cf_Apps := cf_Apps new @ internalApps (cf_Apps c)\<rparr>) else Some c)"
    "err = None \<Longrightarrow> \<forall>a\<in>set (cf_Apps new). \<not> isInternal a"
    using assms(1,2) L S ne by (auto simp: Replace_def l list_ex_iff split: if_splits sum.splits option.splits)
qed

section \<open>Histories\<close>

text \<open>An operation of the store, its effect on the disk, and what it means for the two parts of the list.\<close>

datatype store_op = OpUser "App list" | OpInternal "App list" | OpClear | OpReplace Config

fun store_run :: "string \<Rightarrow> store_op \<Rightarrow> disk \<Rightarrow> goerror option \<times> disk" where
  "store_run path (OpUser apps) d = ReplaceUserApps path apps d"
| "store_run path (OpInternal apps) d = SetInternal path apps d"
| "store_run path OpClear d = ClearInternal path d"
| "store_run path (OpReplace c) d = Replace path c d"

fun op_text_ok :: "store_op \<Rightarrow> bool" where
  "op_text_ok (OpUser apps) = list_all app_text_ok apps"
| "op_text_ok (OpInternal apps) = list_all app_text_ok apps"
| "op_text_ok OpClear = True"
| "op_text_ok (OpReplace c) = config_text_ok c"

fun abstract_op :: "store_op \<Rightarrow> App list \<times> App list \<Rightarrow> App list \<times> App list" where
  "abstract_op (OpUser apps) (user, internal) = (apps, internal)"
| "abstract_op (OpInternal apps) (user, internal) = (user, apps)"
| "abstract_op OpClear (user, internal) = (user, [])"
| "abstract_op (OpReplace c) (user, internal) = (cf_Apps c, internal)"

definition parts :: "Config \<Rightarrow> App list \<times> App list" where
  "parts c = (userApps (cf_Apps c), internalApps (cf_Apps c))"

text \<open>The file is never reported missing while it is there.\<close>

definition honest :: "string \<Rightarrow> disk \<Rightarrow> bool" where
  "honest path d \<longleftrightarrow> (\<forall>e. fst (p2p_load path d) = Inl e \<longrightarrow> \<not> errors_is e OsErrNotExist)"

lemma store_run_parts:
  assumes r: "store_run path op d = (err, d')" and c: "file_config (d_files d) path = Some c" "config_text_ok c" "op_text_ok op"
    and h: "honest path d"
  shows "\<exists>c'. file_config (d_files d') path = Some c' \<and> config_text_ok c'
    \<and> (if err = None then parts c' = abstract_op op (parts c) else c' = c)"
proof (cases op)
  case (OpUser apps)
  then show ?thesis using ReplaceUserApps_file [of path apps d err d' c] r c
    by (auto simp: parts_def config_text_ok_def parts_text_ok)
next
  case (OpInternal apps)
  then show ?thesis using SetInternal_file [of path apps d err d' c] r c
    by (auto simp: parts_def config_text_ok_def parts_text_ok)
next
  case OpClear
  then show ?thesis using SetInternal_file [of path "[]" d err d' c] r c
    by (auto simp: parts_def ClearInternal_def config_text_ok_def parts_text_ok)
next
  case (OpReplace new)
  then show ?thesis using Replace_file [of path new d err d' c] r c h
    by (auto simp: parts_def honest_def config_text_ok_def parts_text_ok)
qed

text \<open>A run: the operations with their outcomes, every disk on the way honest.\<close>

inductive store_history :: "string \<Rightarrow> disk \<Rightarrow> (store_op \<times> goerror option) list \<Rightarrow> disk \<Rightarrow> bool" for path where
  start: "store_history path d [] d"
| step: "store_history path d ops d1 \<Longrightarrow> honest path d1 \<Longrightarrow> op_text_ok op \<Longrightarrow> store_run path op d1 = (err, d2)
    \<Longrightarrow> store_history path d (ops @ [(op, err)]) d2"

definition successful :: "(store_op \<times> goerror option) list \<Rightarrow> store_op list" where
  "successful ops = map fst (filter (\<lambda>(_, err). err = None) ops)"

lemma store_history_parts:
  assumes "store_history path d ops d'" "file_config (d_files d) path = Some c" "config_text_ok c"
  shows "\<exists>c'. file_config (d_files d') path = Some c' \<and> config_text_ok c' \<and> parts c' = fold abstract_op (successful ops) (parts c)"
  using assms
proof (induction rule: store_history.induct)
  case (start d)
  then show ?case by (auto simp: successful_def)
next
  case (step d ops d1 op err d2)
  then obtain c1 where c1: "file_config (d_files d1) path = Some c1" "config_text_ok c1"
    "parts c1 = fold abstract_op (successful ops) (parts c)" by blast
  from store_run_parts [OF step(4) c1(1,2) step(3,2)] c1(3) show ?case by (auto simp: successful_def split: if_splits)
qed

section \<open>The store as an interface\<close>

text \<open>
  What a session of the program relies on: it sets its own forwardings and clears them, the user's are
  never touched.
\<close>

locale parted_store =
  fixes set_own :: "'a list \<Rightarrow> 'd \<Rightarrow> goerror option \<times> 'd" and user own :: "'d \<Rightarrow> 'a list" and ok :: "'d \<Rightarrow> bool"
    and ok_apps :: "'a list \<Rightarrow> bool"
  assumes set_own: "ok d \<Longrightarrow> ok_apps apps \<Longrightarrow> set_own apps d = (err, d') \<Longrightarrow>
      ok d' \<and> user d' = user d \<and> own d' = (if err = None then apps else own d)"
    and ok_none: "ok_apps []"
begin

lemma user_kept: "ok d \<Longrightarrow> list_all ok_apps ops \<Longrightarrow> user (fold (\<lambda>apps d. snd (set_own apps d)) ops d) = user d
    \<and> ok (fold (\<lambda>apps d. snd (set_own apps d)) ops d)"
proof (induction ops arbitrary: d)
  case (Cons apps ops)
  obtain err d' where s: "set_own apps d = (err, d')" by fastforce
  from set_own [OF Cons.prems(1) _ s] Cons show ?case by (simp add: s)
qed simp

lemma cleared: "ok d \<Longrightarrow> set_own [] d = (None, d') \<Longrightarrow> own d' = [] \<and> user d' = user d"
  using set_own [OF _ ok_none, of d None d'] by simp

end

definition disk_parts :: "string \<Rightarrow> disk \<Rightarrow> App list \<times> App list" where
  "disk_parts path d = (case file_config (d_files d) path of None \<Rightarrow> ([], []) | Some c \<Rightarrow> parts c)"

definition disk_ok :: "string \<Rightarrow> disk \<Rightarrow> bool" where
  "disk_ok path d = (case file_config (d_files d) path of None \<Rightarrow> False | Some c \<Rightarrow> config_text_ok c)"

interpretation p2p_store: parted_store "SetInternal path" "\<lambda>d. fst (disk_parts path d)" "\<lambda>d. snd (disk_parts path d)" "disk_ok path"
  "list_all app_text_ok" for path
proof
  show "disk_ok path d' \<and> fst (disk_parts path d') = fst (disk_parts path d)
      \<and> snd (disk_parts path d') = (if err = None then apps else snd (disk_parts path d))"
    if a: "disk_ok path d" "list_all app_text_ok apps" "SetInternal path apps d = (err, d')" for d d' err apps
  proof -
    obtain c where c: "file_config (d_files d) path = Some c" "config_text_ok c"
      using a(1) by (cases "file_config (d_files d) path") (simp_all add: disk_ok_def)
    show ?thesis
      using SetInternal_file [OF a(3) c a(2)] c a(2)
      by (auto simp: disk_ok_def disk_parts_def parts_def config_text_ok_def parts_text_ok)
  qed
qed simp

section \<open>Duplicate ports\<close>

text \<open>
  \<open>validateApp\<close> folds the case of the protocol and the key of the duplicate check does not: two enabled
  applications on one port pass when one is TCP and the other tcp.
\<close>

definition tcp_app :: "string \<Rightarrow> App" where
  "tcp_app protocol = zero_app\<lparr>ap_AppName := ''a'', ap_Protocol := protocol, ap_SrcPort := 8080, ap_DstPort := 80,
     ap_DstHost := ''h'', ap_Enabled := 1\<rparr>"

lemma duplicate_port_passes:
  "valid_apps [tcp_app ''TCP'', tcp_app ''tcp''] [] \<and> \<not> valid_apps [tcp_app ''tcp'', tcp_app ''tcp''] []
   \<and> to_lower (ap_Protocol (tcp_app ''TCP'')) = to_lower (ap_Protocol (tcp_app ''tcp''))"
  by (simp add: tcp_app_def zero_app_def validateApp_def app_key_def to_lower_def lower_char_def Let_def char_of_def bit_iff_odd_drop_bit)

end
