(* ===== verification/Room_Laws.thy ===== *)
theory Room_Laws
  imports Room_Ops
begin

text \<open>
  The laws of the room service: the invariant of its state and that every operation keeps it, what a
  pairing attempt and a removal do on each outcome, and that a failed operation leaves the members as
  they were.
\<close>

section \<open>Frames\<close>

definition env_step :: "'n room \<Rightarrow> 'n room \<Rightarrow> bool" where
  "env_step s s' \<longleftrightarrow> (\<exists>d n. s' = s\<lparr>r_disk := d, r_net := n\<rparr>)"

lemma env_step_refl [simp]: "env_step s s"
  unfolding env_step_def by (intro exI [of _ "r_disk s"] exI [of _ "r_net s"]) simp

lemma env_step_trans [trans]: "env_step s t \<Longrightarrow> env_step t u \<Longrightarrow> env_step s u"
  unfolding env_step_def by (elim exE, intro exI, simp)

lemma env_step_disk [simp]: "env_step s (s\<lparr>r_disk := d\<rparr>)" and env_step_net [simp]: "env_step s (s\<lparr>r_net := n\<rparr>)"
  unfolding env_step_def
  by (rule exI [of _ d], rule exI [of _ "r_net s"], simp) (rule exI [of _ "r_disk s"], rule exI [of _ n], simp)

lemma env_step_on_disk: "env_step s (snd (on_disk f s))"
  by (simp add: on_disk_def split: prod.split)

lemma env_step_call_net: "env_step s (snd (call_net f s))"
  by (simp add: call_net_def split: option.split prod.split)

lemma env_step_secret: "env_step s (snd (persistRoomSecretLocked s))"
  by (simp add: persistRoomSecretLocked_def env_step_on_disk)

lemma env_step_let: "env_step s (snd p) \<Longrightarrow> (\<And>x t. env_step s t \<Longrightarrow> env_step s (snd (f x t))) \<Longrightarrow> env_step s (snd (let (x, t) = p in f x t))"
  by (simp add: case_prod_beta)

lemma env_step_persist: "env_step s (snd (persist_fixed s))"
proof -
  have d: "env_step s t \<Longrightarrow> env_step s (snd (on_disk f t))" for t and f :: "disk \<Rightarrow> 'x \<times> disk"
    using env_step_trans env_step_on_disk by blast
  have p: "env_step s t \<Longrightarrow> env_step s (snd (persistRoomSecretLocked t))" for t
    using env_step_trans env_step_secret by blast
  show ?thesis
    by (simp add: persist_fixed_def persistLocked_def case_prod_beta Let_def d p split: sum.split)
qed


text \<open>What does not depend on the file system and the network is the same after such a step.\<close>

lemma env_stepD:
  assumes "env_step s t"
  shows "r_running t = r_running s" "r_fixedRoom t = r_fixedRoom s" "r_joinEnabled t = r_joinEnabled s"
    "r_allocator t = r_allocator s" "r_memberStates t = r_memberStates s" "r_memberPSKs t = r_memberPSKs s"
    "r_blockedUIDs t = r_blockedUIDs s" "r_memberUIDs t = r_memberUIDs s" "r_pending t = r_pending s"
    "r_timers t = r_timers s" "r_fired t = r_fired s" "r_roomKey t = r_roomKey s" "r_hostPublic t = r_hostPublic s"
    "r_hostUID t = r_hostUID s" "r_pairPort t = r_pairPort s" "r_pairAttempt t = r_pairAttempt s"
    "r_server t = r_server s" "r_cmds t = r_cmds s" "the_alloc t = the_alloc s"
  using assms by (auto simp: env_step_def the_alloc_def)

section \<open>The members of a room\<close>

text \<open>What the service keeps of its members, as partial functions.\<close>

definition leases_of :: "'n room \<Rightarrow> arr32 \<Rightarrow> lease option" where
  "leases_of s = fmlookup (byKey (the_alloc s))"

definition alloc_ok :: "allocator \<Rightarrow> bool" where
  "alloc_ok a \<longleftrightarrow> alloc_inv a \<and> (\<forall>k l. fmlookup (byKey a) k = Some l \<longrightarrow> lease_Revision l \<noteq> 0)"

definition room_inv :: "'n room \<Rightarrow> bool" where
  "room_inv s \<longleftrightarrow>
     (r_allocator s = None \<longrightarrow> \<not> r_running s \<and> r_pending s = fmempty)
     \<and> (\<forall>a. r_allocator s = Some a \<longrightarrow> alloc_ok a)
     \<and> (\<forall>u. fmlookup (r_blockedUIDs s) u \<noteq> Some False)"

lemma alloc_ok_empty: "alloc_ok allocator_empty"
  by (simp add: alloc_ok_def alloc_inv_empty) (simp add: allocator_empty_def)

lemma room_inv_alloc: "room_inv s \<Longrightarrow> alloc_ok (the_alloc s)"
  by (auto simp: room_inv_def the_alloc_def alloc_ok_empty split: option.splits)

lemma room_inv_running: "room_inv s \<Longrightarrow> r_running s \<Longrightarrow> r_allocator s = Some (the_alloc s)"
  by (auto simp: room_inv_def the_alloc_def split: option.splits)

lemma room_inv_env: "env_step s t \<Longrightarrow> room_inv t = room_inv s"
  by (simp add: room_inv_def env_stepD)

lemma room_lease_of:
  assumes inv: "alloc_inv (the_alloc s)"
  shows "room_lease s k = leases_of s k"
proof -
  note d = alloc_invD(4) [OF inv]
  let ?f = "find (\<lambda>l. lease_key l = k) (Snapshot (the_alloc s))"
  have "?f = fmlookup (byKey (the_alloc s)) k"
  proof (cases ?f)
    case None
    then have n: "\<forall>l\<in>set (Snapshot (the_alloc s)). lease_key l \<noteq> k" by (simp add: find_None_iff)
    show ?thesis
    proof (cases "fmlookup (byKey (the_alloc s)) k")
      case (Some l)
      then show ?thesis using n d [OF Some] by (auto simp: set_Snapshot)
    qed (simp add: None)
  next
    case (Some m)
    then have "m \<in> set (Snapshot (the_alloc s))" "lease_key m = k" unfolding find_Some_iff by auto
    then obtain k' where "fmlookup (byKey (the_alloc s)) k' = Some m" by (auto simp: set_Snapshot)
    with d [OF this] \<open>lease_key m = k\<close> Some show ?thesis by simp
  qed
  then show ?thesis by (simp add: room_lease_def findLease_def leases_of_def)
qed

lemma alloc_okD: "alloc_ok a \<Longrightarrow> alloc_inv a" by (simp add: alloc_ok_def)

lemma Assign_ok:
  assumes "alloc_ok a" "revision a < revision a + 1"
  shows "alloc_ok (snd (Assign k n a))"
proof -
  have r: "revision a + 1 \<noteq> 0" using assms(2) by auto
  have i: "alloc_inv (snd (Assign k n a))" by (rule Assign_inv [OF alloc_okD [OF assms(1)] assms(2)])
  show ?thesis
  proof (cases "fst (Assign k n a)")
    case (Inl e)
    then show ?thesis using Assign_error assms(1) by metis
  next
    case (Inr p)
    obtain item c where p: "Assign k n a = (Inr (item, c), snd (Assign k n a))" using Inr by (metis prod.collapse surj_pair)
    then show ?thesis
      using assms(1) i r
      by (cases rule: Assign_cases) (auto simp: alloc_ok_def split: if_splits)
  qed
qed

lemma Remove_ok: "alloc_ok a \<Longrightarrow> alloc_ok (snd (Remove k a))"
  using Remove_inv [of a k] by (auto simp: alloc_ok_def Remove_def split: option.splits if_splits)

lemma RemoveIfRevision_ok: "alloc_ok a \<Longrightarrow> alloc_ok (snd (RemoveIfRevision k r a))"
  using RemoveIfRevision_inv [of a k r] by (auto simp: alloc_ok_def RemoveIfRevision_def split: option.splits if_splits)

lemma Restore_ok: "alloc_ok a \<Longrightarrow> alloc_ok (snd (Restore item a))"
  using Restore_inv [of a item]
  by (auto simp: alloc_ok_def Restore_def Let_def split: option.splits if_splits prod.splits)

lemmas alloc_ok_intros = Assign_ok Remove_ok RemoveIfRevision_ok Restore_ok

text \<open>The lemma collection for states that differ in fields the invariant reads.\<close>

lemma the_alloc_set [simp]: "the_alloc (set_alloc s a) = a" "r_allocator (set_alloc s a) = Some a"
  "r_running (set_alloc s a) = r_running s" "r_pending (set_alloc s a) = r_pending s"
  "r_blockedUIDs (set_alloc s a) = r_blockedUIDs s"
  by (simp_all add: the_alloc_def set_alloc_def)

lemma room_invI: "alloc_ok a \<Longrightarrow> r_allocator s = Some a \<Longrightarrow> (\<And>u. fmlookup (r_blockedUIDs s) u \<noteq> Some False) \<Longrightarrow> room_inv s"
  by (simp add: room_inv_def)

lemma room_inv_blocked: "room_inv s \<Longrightarrow> fmlookup (r_blockedUIDs s) u \<noteq> Some False"
  by (simp add: room_inv_def)

text \<open>The invariant looks only at four fields.\<close>

lemma room_inv_same:
  "room_inv s \<Longrightarrow> r_allocator t = r_allocator s \<Longrightarrow> r_running t = r_running s \<Longrightarrow> r_pending t = r_pending s
     \<Longrightarrow> r_blockedUIDs t = r_blockedUIDs s \<Longrightarrow> room_inv t"
  by (simp add: room_inv_def)

lemma env_step_applyPeer: "env_step s (snd (applyPeer cb item psk s))"
  and env_step_removePeer: "env_step s (snd (removePeer cb key s))"
  and env_step_stopNetwork: "env_step s (snd (stopNetwork cb s))"
  by (simp_all add: applyPeer_def removePeer_def stopNetwork_def env_step_call_net)

lemmas env_steps = env_step_on_disk env_step_call_net env_step_secret env_step_persist env_step_applyPeer
  env_step_removePeer env_step_stopNetwork

text \<open>Undoing a pairing attempt.\<close>

lemma rollback_fields:
  defines "undone \<equiv> \<lambda>key pending a. if pp_existed pending then snd (Restore (pp_previous pending) a) else snd (Remove key a)"
  shows "r_allocator (rollbackPairLocked cb key pending s) = Some (undone key pending (the_alloc s))"
    "r_pending (rollbackPairLocked cb key pending s) = fmdrop key (r_pending s)"
    "r_memberPSKs (rollbackPairLocked cb key pending s) =
       (if pp_hadPSK pending then fmupd key (pp_previousPSK pending) (r_memberPSKs s) else fmdrop key (r_memberPSKs s))"
    "r_memberStates (rollbackPairLocked cb key pending s) =
       (if pp_state pending = [] then fmdrop key (r_memberStates s) else fmupd key (pp_state pending) (r_memberStates s))"
    "r_running (rollbackPairLocked cb key pending s) = r_running s"
    "r_blockedUIDs (rollbackPairLocked cb key pending s) = r_blockedUIDs s"
    "r_joinEnabled (rollbackPairLocked cb key pending s) = r_joinEnabled s"
    "r_memberUIDs (rollbackPairLocked cb key pending s) = r_memberUIDs s"
    "r_roomKey (rollbackPairLocked cb key pending s) = r_roomKey s"
    "r_timers (rollbackPairLocked cb key pending s) = r_timers s"
  unfolding rollbackPairLocked_def Let_def undone_def
  by (simp_all add: env_stepD [OF env_step_applyPeer] env_stepD [OF env_step_removePeer] set_alloc_def)

lemma rollback_alloc:
  "the_alloc (rollbackPairLocked cb key pending s) =
     (if pp_existed pending then snd (Restore (pp_previous pending) (the_alloc s)) else snd (Remove key (the_alloc s)))"
  using rollback_fields(1) [of cb key pending s] by (simp add: the_alloc_def [of "rollbackPairLocked cb key pending s"])

lemma rollback_inv: "room_inv s \<Longrightarrow> room_inv (rollbackPairLocked cb key pending s)"
  by (rule room_invI [OF _ rollback_fields(1)])
    (auto simp: rollback_fields room_inv_alloc dest: room_inv_blocked intro: alloc_ok_intros)

section \<open>The outcomes of a pairing attempt\<close>

text \<open>What \<open>assign\<close> notes down to undo the attempt, and the state while the attempt is open.\<close>

definition attempt :: "'n room \<Rightarrow> arr32 \<Rightarrow> pendingPair" where
  "attempt s key = \<lparr>pp_token = r_pairAttempt s + 1,
     pp_previous = (case leases_of s key of None \<Rightarrow> zeroLease | Some l \<Rightarrow> l), pp_existed = (leases_of s key \<noteq> None),
     pp_previousPSK = lookup_or 0 (r_memberPSKs s) key, pp_hadPSK = (fmlookup (r_memberPSKs s) key \<noteq> None),
     pp_state = lookup_or [] (r_memberStates s) key\<rparr>"

definition attempt_psk :: "'n room \<Rightarrow> arr32 \<Rightarrow> arr12 \<Rightarrow> bool \<Rightarrow> arr32" where
  "attempt_psk s key roomKey auth = (if auth then lookup_or 0 (r_memberPSKs s) key else DerivePSK roomKey (r_hostPublic s) key)"

definition attempted :: "'n room \<Rightarrow> arr32 \<Rightarrow> arr12 \<Rightarrow> bool \<Rightarrow> allocator \<Rightarrow> (arr32, string) fmap \<Rightarrow> 'n room" where
  "attempted s key roomKey auth a states = (set_alloc s a)\<lparr>r_pairAttempt := r_pairAttempt s + 1,
     r_pending := fmupd key (attempt s key) (r_pending s),
     r_memberPSKs := fmupd key (attempt_psk s key roomKey auth) (r_memberPSKs s), r_memberStates := states\<rparr>"

lemma set_alloc_same: "r_allocator s = Some a \<Longrightarrow> set_alloc s a = s"
  by (simp add: set_alloc_def)

lemma env_step_states: "env_step s t \<Longrightarrow> env_step (s\<lparr>r_memberStates := x\<rparr>) (t\<lparr>r_memberStates := x\<rparr>)"
  unfolding env_step_def by (elim exE, intro exI) (cases s, simp)

lemma attempted_fields: "r_memberStates (set_alloc s a) = r_memberStates s"
  "r_memberStates (attempted s key roomKey auth a states) = states"
  by (simp_all add: attempted_def set_alloc_def)

lemma attempted_states: "(attempted s key roomKey auth a states)\<lparr>r_memberStates := st\<rparr> = attempted s key roomKey auth a st"
  by (simp add: attempted_def)

lemma assign_cases:
  assumes inv: "room_inv s" and r: "assign cb key name roomKey auth s = (r, s')"
  obtains (refused) e where "r = Inl e" "s' = s"
  | (undone) e item created a t states where "r = Inl e" "r_running s" "Assign key name (the_alloc s) = (Inr (item, created), a)"
      "fmlookup (r_pending s) key = None" "env_step (attempted s key roomKey auth a states) t"
      "states = r_memberStates s \<or> states = fmupd key ''pairing'' (r_memberStates s)"
      "s' = rollbackPairLocked cb key (attempt s key) t"
  | (granted) item created a where "r = Inr \<lparr>as_IP = lease_IP item, as_Revision = lease_Revision item,
        as_Created = created, as_Token = r_pairAttempt s + 1\<rparr>"
      "r_running s" "r_joinEnabled s \<or> leases_of s key \<noteq> None"
      "auth \<longrightarrow> (\<exists>l. leases_of s key = Some l \<and> lease_Enabled l) \<and> fmlookup (r_memberPSKs s) key \<noteq> None"
      "Assign key name (the_alloc s) = (Inr (item, created), a)" "fmlookup (r_pending s) key = None"
      "env_step (attempted s key roomKey auth a (fmupd key ''pairing'' (r_memberStates s))) s'"
proof (cases "r_running s")
  case False
  with r show ?thesis by (intro refused) (auto simp: assign_def)
next
  case run: True
  have al: "r_allocator s = Some (the_alloc s)" by (rule room_inv_running [OF inv run])
  have rl: "room_lease s key = leases_of s key" by (rule room_lease_of) (use room_inv_alloc [OF inv] in \<open>simp add: alloc_ok_def\<close>)
  let ?lease = "leases_of s key"
  obtain q a where A: "Assign key name (the_alloc s) = (q, a)" by fastforce
  note R = r [unfolded assign_def Let_def rl A, folded attempt_def, simplified run]
  consider (paused) "\<not> r_joinEnabled s \<and> ?lease = None" | (pairing) "fmlookup (r_pending s) key \<noteq> None"
    | (disabled) "auth \<and> (?lease = None \<or> \<not> lease_Enabled (case ?lease of None \<Rightarrow> zeroLease | Some l \<Rightarrow> l) \<or> fmlookup (r_memberPSKs s) key = None)"
    | (ok) "\<not> (\<not> r_joinEnabled s \<and> ?lease = None)" "\<not> fmlookup (r_pending s) key \<noteq> None"
        "\<not> (auth \<and> (?lease = None \<or> \<not> lease_Enabled (case ?lease of None \<Rightarrow> zeroLease | Some l \<Rightarrow> l) \<or> fmlookup (r_memberPSKs s) key = None))"
    by argo
  then show ?thesis
  proof cases
    case ok
    show ?thesis
    proof (cases q)
      case (Inl e)
      then have "a = the_alloc s" using A Assign_error [of key name "the_alloc s" e] by simp
      with R Inl ok set_alloc_same [OF al] show ?thesis by (intro refused) auto
    next
      case (Inr p)
      obtain item created where p: "p = (item, created)" by fastforce
      let ?s1 = "attempted s key roomKey auth a (r_memberStates s)"
      have S1: "(set_alloc s a)\<lparr>r_pairAttempt := r_pairAttempt s + 1, r_pending := fmupd key (attempt s key) (r_pending s),
          r_memberPSKs := fmupd key psk (r_memberPSKs s)\<rparr> = ?s1" if "psk = attempt_psk s key roomKey auth" for psk
        using that by (simp add: attempted_def set_alloc_def)
      obtain e2 s2 where s2: "(if \<not> auth then applyPeer cb item (attempt_psk s key roomKey auth) ?s1 else (None, ?s1)) = (e2, s2)"
        by fastforce
      have f2: "env_step ?s1 s2"
        using s2 env_step_applyPeer [of ?s1 cb item "attempt_psk s key roomKey auth"] by (auto split: if_splits)
      obtain e3 s3 where s3: "persist_fixed (s2\<lparr>r_memberStates := fmupd key ''pairing'' (r_memberStates s2)\<rparr>) = (e3, s3)"
        by fastforce
      let ?s3 = "attempted s key roomKey auth a (fmupd key ''pairing'' (r_memberStates s))"
      have "env_step ?s3 (s2\<lparr>r_memberStates := fmupd key ''pairing'' (r_memberStates s2)\<rparr>)"
        using env_step_states [OF f2, of "fmupd key ''pairing'' (r_memberStates s2)"] env_stepD(5) [OF f2]
        by (simp add: attempted_states) (simp add: attempted_def)
      then have f3: "env_step ?s3 s3"
        using env_step_trans env_step_persist [of "s2\<lparr>r_memberStates := fmupd key ''pairing'' (r_memberStates s2)\<rparr>"] s3 by fastforce
      have K: "(r, s') = (case e2 of Some e \<Rightarrow> (Inl e, rollbackPairLocked cb key (attempt s key) s2)
        | None \<Rightarrow> (case e3 of Some e \<Rightarrow> (Inl e, rollbackPairLocked cb key (attempt s key) s3)
              | None \<Rightarrow> (Inr \<lparr>as_IP = lease_IP item, as_Revision = lease_Revision item, as_Created = created,
                  as_Token = r_pairAttempt s + 1\<rparr>, s3)))"
        using R Inr ok s2 s3 by (cases auth) (auto simp: p S1 attempt_psk_def attempted_fields split: option.splits)
      show ?thesis
        using K f2 f3 run A Inr p ok by (cases e2; cases e3) (auto intro: undone granted)
    qed
  next
    case paused
    with R show ?thesis by (intro refused) auto
  next
    case pairing
    with R show ?thesis by (auto split: if_splits intro: refused)
  next
    case disabled
    with R show ?thesis by (auto split: if_splits intro: refused)
  qed
qed

lemma attempted_more: "the_alloc (attempted s key roomKey auth a states) = a"
  "r_allocator (attempted s key roomKey auth a states) = Some a"
  "r_pending (attempted s key roomKey auth a states) = fmupd key (attempt s key) (r_pending s)"
  "r_memberPSKs (attempted s key roomKey auth a states) = fmupd key (attempt_psk s key roomKey auth) (r_memberPSKs s)"
  "r_running (attempted s key roomKey auth a states) = r_running s"
  "r_blockedUIDs (attempted s key roomKey auth a states) = r_blockedUIDs s"
  "r_joinEnabled (attempted s key roomKey auth a states) = r_joinEnabled s"
  "r_memberUIDs (attempted s key roomKey auth a states) = r_memberUIDs s"
  "r_pairAttempt (attempted s key roomKey auth a states) = r_pairAttempt s + 1"
  "r_timers (attempted s key roomKey auth a states) = r_timers s"
  "r_roomKey (attempted s key roomKey auth a states) = r_roomKey s"
  by (simp_all add: attempted_def set_alloc_def the_alloc_def)

lemma attempted_inv:
  assumes "room_inv s" "alloc_ok a" "env_step (attempted s key roomKey auth a states) t"
  shows "room_inv t"
  unfolding room_inv_env [OF assms(3)]
  by (rule room_invI [OF assms(2) attempted_more(2)]) (simp add: attempted_more room_inv_blocked [OF assms(1)])

lemma assign_inv:
  assumes inv: "room_inv s" and ov: "revision (the_alloc s) < revision (the_alloc s) + 1"
  shows "room_inv (snd (assign cb key name roomKey auth s))"
proof -
  obtain r s' where r: "assign cb key name roomKey auth s = (r, s')" by fastforce
  have a: "alloc_ok a" if "Assign key name (the_alloc s) = (q, a)" for q a
    using Assign_ok [OF room_inv_alloc [OF inv] ov, of key name] that by simp
  from inv r have "room_inv s'"
    by (cases rule: assign_cases) (auto intro: rollback_inv attempted_inv a inv)
  with r show ?thesis by simp
qed

text \<open>The part of the state a failed operation must leave alone.\<close>

definition same_members :: "'n room \<Rightarrow> 'n room \<Rightarrow> bool" where
  "same_members s t \<longleftrightarrow> leases_of t = leases_of s \<and> r_memberPSKs t = r_memberPSKs s
     \<and> (\<forall>k. lookup_or [] (r_memberStates t) k = lookup_or [] (r_memberStates s) k)
     \<and> (\<forall>k. lookup_or [] (r_memberUIDs t) k = lookup_or [] (r_memberUIDs s) k)
     \<and> r_blockedUIDs t = r_blockedUIDs s \<and> r_running t = r_running s \<and> r_joinEnabled t = r_joinEnabled s
     \<and> r_roomKey t = r_roomKey s"

lemma same_members_refl [simp]: "same_members s s"
  by (simp add: same_members_def)

lemma same_members_env: "env_step s t \<Longrightarrow> same_members s t"
  by (simp add: same_members_def leases_of_def env_stepD)

lemma lookup_or_upd [simp]: "lookup_or d (fmupd k v m) j = (if j = k then v else lookup_or d m j)"
  "lookup_or d (fmdrop k m) j = (if j = k then d else lookup_or d m j)"
  by (simp_all add: lookup_or_def)

text \<open>The leases before an attempt come back when it is undone.\<close>

lemma leases_undo:
  assumes inv: "room_inv s" and A: "Assign key name (the_alloc s) = (Inr (item, created), a)"
    and t: "the_alloc t = a"
  shows "leases_of (rollbackPairLocked cb key (attempt s key) t) = leases_of s"
proof -
  have ok: "alloc_ok (the_alloc s)" by (rule room_inv_alloc [OF inv])
  have "lookup_lease (leases.undo key (lookup_lease (the_alloc s) key) a) = lookup_lease (the_alloc s)"
    by (rule leases.undo_assign [OF alloc_okD [OF ok] A]) (use ok in \<open>auto simp: alloc_ok_def lookup_lease_def\<close>)
  moreover have "the_alloc (rollbackPairLocked cb key (attempt s key) t) = leases.undo key (lookup_lease (the_alloc s) key) a"
    by (auto simp: rollback_alloc t attempt_def leases.undo_def leases_of_def lookup_lease_def split: option.split)
  ultimately show ?thesis by (simp add: leases_of_def lookup_lease_def fun_eq_iff)
qed

lemma assign_error:
  assumes inv: "room_inv s" and r: "assign cb key name roomKey auth s = (Inl e, s')"
  shows "same_members s s' \<and> r_pending s' = r_pending s"
  using inv r
proof (cases rule: assign_cases)
  case (undone e' item created a t states)
  note t = env_stepD [OF undone(5)]
  have L: "leases_of s' = leases_of s"
    unfolding undone(7) by (rule leases_undo [OF inv undone(3)]) (simp add: t attempted_more)
  have P: "r_memberPSKs s' = r_memberPSKs s"
    by (intro fmap_ext) (auto simp: undone(7) rollback_fields t attempted_more attempt_def lookup_or_def)
  have D: "r_pending s' = r_pending s"
    using undone(4) by (simp add: undone(7) rollback_fields t attempted_more fmdrop_fmupd_new)
  have S: "lookup_or [] (r_memberStates s') k = lookup_or [] (r_memberStates s) k" for k
    using undone(6) by (auto simp: undone(7) rollback_fields t attempted_fields attempt_def)
  show ?thesis
    using L P D S by (simp add: same_members_def undone(7) rollback_fields t attempted_more)
qed auto

text \<open>A granted attempt: the member has the lease it was told, the key derived for it, and the attempt is noted.\<close>

lemma assign_granted:
  assumes inv: "room_inv s" and r: "assign cb key name roomKey auth s = (Inr g, s')"
  shows "r_running s \<and> (r_joinEnabled s \<or> leases_of s key \<noteq> None)
    \<and> (\<exists>l. leases_of s' = (leases_of s)(key \<mapsto> l) \<and> lease_IP l = as_IP g \<and> lease_Revision l = as_Revision g
        \<and> (as_Created g \<longleftrightarrow> leases_of s key = None))
    \<and> r_memberPSKs s' = fmupd key (attempt_psk s key roomKey auth) (r_memberPSKs s)
    \<and> fmlookup (r_pending s') key = Some (attempt s key) \<and> as_Token g = r_pairAttempt s'"
  using inv r
proof (cases rule: assign_cases)
  case (granted item created a)
  note t = env_stepD [OF granted(7)]
  have "lookup_lease a = (lookup_lease (the_alloc s))(key \<mapsto> item) \<and> (created \<longleftrightarrow> lookup_lease (the_alloc s) key = None)"
    by (rule leases.assign_look [OF alloc_okD [OF room_inv_alloc [OF inv]] granted(5)])
  then have "leases_of s' = (leases_of s)(key \<mapsto> item)" "created \<longleftrightarrow> leases_of s key = None"
    by (simp_all add: leases_of_def t attempted_more lookup_lease_def fun_eq_iff)
  with granted show ?thesis by (auto simp: t attempted_more intro!: exI [of _ item])
qed auto

section \<open>Every operation keeps the invariant\<close>

lemma room_inv_persist: "room_inv s \<Longrightarrow> room_inv (snd (persist_fixed s))"
  by (simp add: room_inv_env [OF env_step_persist])

lemma room_inv_net: "room_inv s \<Longrightarrow> room_inv (snd (removePeer cb key s))" "room_inv s \<Longrightarrow> room_inv (snd (applyPeer cb item psk s))"
  "room_inv s \<Longrightarrow> room_inv (snd (stopNetwork cb s))" "room_inv s \<Longrightarrow> room_inv (snd (call_net f s))"
  "room_inv s \<Longrightarrow> room_inv (snd (on_disk g s))" "room_inv s \<Longrightarrow> room_inv (snd (persistRoomSecretLocked s))"
  by (simp_all add: room_inv_env [OF env_step_removePeer] room_inv_env [OF env_step_applyPeer]
      room_inv_env [OF env_step_stopNetwork] room_inv_env [OF env_step_call_net] room_inv_env [OF env_step_on_disk]
      room_inv_env [OF env_step_secret])

text \<open>Updates of fields the invariant does not read, and of those it reads.\<close>

lemma room_inv_upd [simp]:
  "room_inv (s\<lparr>r_memberStates := a\<rparr>) = room_inv s" "room_inv (s\<lparr>r_memberPSKs := b\<rparr>) = room_inv s"
  "room_inv (s\<lparr>r_memberUIDs := c\<rparr>) = room_inv s" "room_inv (s\<lparr>r_runtimeStats := d\<rparr>) = room_inv s"
  "room_inv (s\<lparr>r_reportedStats := d\<rparr>) = room_inv s" "room_inv (s\<lparr>r_timers := e\<rparr>) = room_inv s"
  "room_inv (s\<lparr>r_fired := f\<rparr>) = room_inv s" "room_inv (s\<lparr>r_joinEnabled := g\<rparr>) = room_inv s"
  "room_inv (s\<lparr>r_roomKey := h\<rparr>) = room_inv s" "room_inv (s\<lparr>r_cmds := i\<rparr>) = room_inv s"
  "room_inv (s\<lparr>r_server := j\<rparr>) = room_inv s"
  by (simp_all add: room_inv_def)

lemma room_inv_dropped: "room_inv s \<Longrightarrow> room_inv (s\<lparr>r_pending := fmdrop k (r_pending s)\<rparr>)"
  by (simp add: room_inv_def)

lemma room_inv_alloc_upd: "room_inv s \<Longrightarrow> alloc_ok a \<Longrightarrow> room_inv (set_alloc s a)"
  by (simp add: room_inv_def)

lemma room_inv_block: "room_inv s \<Longrightarrow> room_inv (s\<lparr>r_blockedUIDs := fmupd u True (r_blockedUIDs s)\<rparr>)"
  "room_inv s \<Longrightarrow> room_inv (s\<lparr>r_blockedUIDs := fmdrop u (r_blockedUIDs s)\<rparr>)"
  by (simp_all add: room_inv_def)

lemma room_inv_cleared [simp]: "room_inv (clearLocked s)"
  by (simp add: room_inv_def clearLocked_def)

lemma pairingFailed_inv: "room_inv s \<Longrightarrow> room_inv (pairingFailed cb key g s)"
  by (auto simp: pairingFailed_def Let_def intro!: room_inv_persist rollback_inv room_inv_dropped split: option.split)

lemma fire_timer_inv: "room_inv s \<Longrightarrow> room_inv (fire_timer key s)"
  by (auto simp: fire_timer_def room_inv_upd(6) split: option.split bool.split)

lemma expired_inv: "room_inv s \<Longrightarrow> room_inv (unacked_expired cb key rev' s)"
proof -
  assume inv: "room_inv s"
  let ?t = "s\<lparr>r_timers := fmdrop key (r_timers s)\<rparr>"
  have a: "alloc_ok (snd (RemoveIfRevision key rev' (the_alloc ?t)))"
    using inv by (intro RemoveIfRevision_ok room_inv_alloc) simp
  have "room_inv (set_alloc ?t (snd (RemoveIfRevision key rev' (the_alloc ?t))))"
    by (rule room_inv_alloc_upd [OF _ a]) (simp add: inv)
  then show ?thesis
    unfolding unacked_expired_def Let_def case_prod_beta
    using inv by (auto simp: set_alloc_def intro!: room_inv_persist room_inv_net split: option.split)
qed

lemma acknowledged_inv: "room_inv s \<Longrightarrow> room_inv (pairingAcknowledged key g s)"
  unfolding pairingAcknowledged_def using room_inv_dropped [of s key]
  by (auto simp: room_inv_def split: option.splits)

lemma reportStats_inv: "room_inv s \<Longrightarrow> room_inv (reportStats key dev s)"
  by (simp add: reportStats_def split: option.split)

lemma SetJoinEnabled_inv: "room_inv s \<Longrightarrow> room_inv (snd (SetJoinEnabled e s))"
  using room_inv_persist [of "s\<lparr>r_joinEnabled := e\<rparr>"]
  by (auto simp: SetJoinEnabled_def Let_def split: prod.split option.split)

lemma UpdateMemberStats_inv: "room_inv s \<Longrightarrow> room_inv (UpdateMemberStats now stats s)"
proof -
  have "room_inv s \<Longrightarrow> room_inv (foldl (update_stat now stats) s ls)" for ls
    by (induction ls arbitrary: s) (simp_all add: update_stat_def split: option.split)
  then show "room_inv s \<Longrightarrow> ?thesis" by (simp add: UpdateMemberStats_def split: option.split)
qed

lemma forget_inv: "room_inv s \<Longrightarrow> room_inv (forget_member key s)"
  unfolding forget_member_def
  by (rule room_invI [of "snd (Remove key (the_alloc s))"])
    (simp_all add: set_alloc_def room_inv_blocked Remove_ok room_inv_alloc)

lemma undo_remove_inv: "room_inv s \<Longrightarrow> room_inv (undo_remove block pb uid prev st psk s)"
proof -
  assume inv: "room_inv s"
  let ?s = "if block \<and> \<not> pb then s\<lparr>r_blockedUIDs := fmdrop uid (r_blockedUIDs s)\<rparr> else s"
  have i: "room_inv ?s" using inv by (simp add: room_inv_block)
  then have "room_inv (set_alloc ?s (snd (Restore prev (the_alloc ?s))))"
    by (intro room_inv_alloc_upd Restore_ok room_inv_alloc)
  then show ?thesis unfolding undo_remove_def Let_def by simp
qed

lemma room_inv_command [simp]: "room_inv (command c s) = room_inv s"
  by (simp add: command_def)

lemma removeMember_inv: "room_inv s \<Longrightarrow> room_inv (snd (removeMember cb k block s))"
  unfolding removeMember_def Let_def case_prod_beta
  by (auto intro!: undo_remove_inv room_inv_net room_inv_persist forget_inv room_inv_block split: sum.split option.split)

lemma UnblockUID_inv: "room_inv s \<Longrightarrow> room_inv (snd (UnblockUID uid s))"
  unfolding UnblockUID_def Let_def case_prod_beta
  by (auto intro!: room_inv_block room_inv_persist split: option.split)


lemma RenameMember_inv:
  assumes inv: "room_inv s" and ov: "revision (the_alloc s) < revision (the_alloc s) + 1"
  shows "room_inv (snd (RenameMember k name s))"
proof -
  have a: "alloc_ok (snd (Assign key name (the_alloc s)))" for key
    by (rule Assign_ok [OF room_inv_alloc [OF inv] ov])
  have i: "room_inv (snd (persist_fixed (set_alloc s a)))" if "Assign key name (the_alloc s) = (q, a)" for key q a
    using a [of key] that by (intro room_inv_persist room_inv_alloc_upd inv) simp
  obtain a0 where a0: "New (Snapshot (the_alloc s)) = Inr a0" "byKey a0 = byKey (the_alloc s)"
    using New_Snapshot [OF alloc_okD [OF room_inv_alloc [OF inv]]] by blast
  have ok0: "alloc_ok a0" using New_inv [OF a0(1)] a0(2) room_inv_alloc [OF inv] by (simp add: alloc_ok_def)
  have j: "room_inv (t\<lparr>r_allocator := Some a0\<rparr>)" if "room_inv t" for t :: "'a room"
    using room_inv_alloc_upd [OF that ok0] by (simp add: set_alloc_def)
  show ?thesis
    unfolding RenameMember_def Let_def
    using i j inv a0(1) a by (auto split: sum.split option.split prod.split) (metis snd_conv room_inv_alloc_upd inv)+
qed

lemma RotateKey_inv: "room_inv s \<Longrightarrow> room_inv (snd (RotateKey random s))"
  unfolding RotateKey_def Let_def case_prod_beta
  by (auto intro!: room_inv_net split: sum.split option.split)

lemma start_network_inv: "room_inv s \<Longrightarrow> room_inv (snd (start_network cb s))"
  unfolding start_network_def Let_def case_prod_beta by (auto intro!: room_inv_net)

lemma listenLocked_inv: "room_inv s \<Longrightarrow> room_inv (snd (listenLocked cb e s))"
  by (simp add: listenLocked_def split: sum.split)

lemma room_inv_run: "room_inv s \<Longrightarrow> r_allocator s \<noteq> None \<Longrightarrow> room_inv (s\<lparr>r_running := True\<rparr>)"
  by (simp add: room_inv_def)

lemma alloc_kept: "r_allocator (snd (persist_fixed s)) = r_allocator s" "r_allocator (snd (on_disk f s)) = r_allocator s"
  "r_allocator (snd (listenLocked cb e s)) = r_allocator s" "r_allocator (snd (persistRoomSecretLocked s)) = r_allocator s"
  "fst (start_network cb s) = None \<Longrightarrow> r_allocator (snd (start_network cb s)) = r_allocator s"
  by (simp_all add: env_stepD [OF env_step_persist] env_stepD [OF env_step_on_disk] env_stepD [OF env_step_secret]
      listenLocked_def start_network_def Let_def case_prod_beta env_stepD [OF env_step_call_net] split: sum.split)

text \<open>The two shapes of a step that may fail, as they follow one another in \<open>Create\<close> and \<open>Start\<close>.\<close>

lemma try_step:
  assumes "P (snd p)" "\<And>e t. P t \<Longrightarrow> P (f e t)" "\<And>t. p = (None, t) \<Longrightarrow> P t \<Longrightarrow> P (snd (g t))"
  shows "P (snd (let (err, s) = p in case err of Some e \<Rightarrow> (Inl e, f e s) | None \<Rightarrow> g s))"
  using assms by (cases p) (auto split: option.split)

lemma try_result:
  assumes "P (snd p)" "\<And>x t. p = (Inr x, t) \<Longrightarrow> P t \<Longrightarrow> P (snd (g x t))"
  shows "P (snd (case p of (Inl e, s) \<Rightarrow> (Inl (h e), s) | (Inr x, s) \<Rightarrow> g x s))"
  using assms by (cases p) (auto split: sum.split)

lemma try_value:
  assumes "P s" "\<And>x. v = Inr x \<Longrightarrow> P (snd (g x))"
  shows "P (snd (case v of Inl e \<Rightarrow> (Inl (h e), s) | Inr x \<Rightarrow> g x))"
  using assms by (auto split: sum.split)

lemma try_guard:
  assumes "P s" "\<not> c \<Longrightarrow> P (snd g)"
  shows "P (snd (if c then (Inl e, s) else g))"
  using assms by simp

lemma Create_tail:
  assumes "room_inv s" "r_allocator s \<noteq> None"
  shows "room_inv (snd (let (err, s) = start_network cb s in
     (case err of
        Some e \<Rightarrow> (Inl e, s)
      | None \<Rightarrow>
     (let (err, s) = listenLocked cb le s in
     (case err of
        Some e \<Rightarrow> (Inl e, snd (stopNetwork cb (clearLocked s)))
      | None \<Rightarrow>
     (let (err, s) = persist_fixed s in
     (case err of
        Some e \<Rightarrow> (Inl e, snd (stopNetwork cb (command CmdClose (clearLocked s))))
      | None \<Rightarrow>
     (let s = s\<lparr>r_running := True\<rparr> in (Inr (snapshotLocked s), s)))))))))"
proof (rule try_step, goal_cases)
  case 1
  show ?case by (rule start_network_inv [OF assms(1)])
next
  case (3 t)
  then have t: "r_allocator t \<noteq> None" using alloc_kept(5) [of cb s] assms(2) by simp
  show ?case
  proof (rule try_step, goal_cases)
    case 1
    show ?case by (rule listenLocked_inv) fact
  next
    case (3 u)
    then have u: "r_allocator u \<noteq> None" using alloc_kept(3) [of cb le t] t by simp
    show ?case
    proof (rule try_step, goal_cases)
      case 1
      show ?case by (rule room_inv_persist) fact
    next
      case (3 v)
      then have "r_allocator v \<noteq> None" using alloc_kept(1) [of u] u by simp
      then show ?case using 3 by (simp add: room_inv_run Let_def)
    qed (simp add: room_inv_net)
  qed (simp add: room_inv_net)
qed

lemma Create_inv: "room_inv s \<Longrightarrow> room_inv (snd (room_Create cb env options s))"
proof (cases "r_running s")
  case False
  assume inv: "room_inv s"
  have al: "r_allocator (reset_members t) = r_allocator t" "r_blockedUIDs (reset_members t) = fmempty" for t :: "'a room"
    by (simp_all add: reset_members_def)
  show ?thesis
    unfolding room_Create_def if_not_P [OF False]
    apply (rule try_value, rule inv)
    apply (rule try_value, rule inv)
    apply (subst Let_def)
    apply (rule try_value, rule inv)
    apply (rule try_guard, rule inv)
    apply (rule try_value, rule inv)
    apply (simp only: split_paired_all prod.case)
    apply (rule try_result, rule room_inv_net, rule inv)
    apply (subst Let_def)
    apply (rule Create_tail)
     apply (rule room_invI [OF alloc_ok_empty])
      apply (simp_all add: al)
    done
qed (simp add: room_Create_def)

text \<open>A state that was loaded has been validated, so its leases have revisions.\<close>

lemma Load_valid: "Load path d = (Inr r, d') \<Longrightarrow> validate r = None"
  by (auto simp: Load_def loadOne_def Let_def split: prod.splits sum.splits option.splits if_splits)

lemma valid_members_revisions: "valid_members ms keys ips = Some ks \<Longrightarrow> \<forall>m\<in>set ms. ms_LeaseRevision m \<noteq> 0"
  by (induction ms arbitrary: keys ips) (auto split: option.splits if_splits)

lemma validate_revisions: "validate r = None \<Longrightarrow> \<forall>m\<in>set (rs_Members r). ms_LeaseRevision m \<noteq> 0"
  by (auto simp: validate_def dest: valid_members_revisions split: if_splits option.splits)

lemma leasesFromState_revisions: "leasesFromState ms = Inr ls \<Longrightarrow> map lease_Revision ls = map ms_LeaseRevision ms"
  by (induction ms arbitrary: ls) (auto simp: bind_result_Inr split: sum.splits option.splits)

lemma new_loop_leases:
  "new_loop items a = Inr a' \<Longrightarrow> fmlookup (byKey a') k = Some l \<Longrightarrow> l \<in> set items \<or> fmlookup (byKey a) k = Some l"
proof (induction items arbitrary: a)
  case (Cons i items)
  then obtain b where "new_item i a = Inr b" "new_loop items b = Inr a'" by (auto simp: bind_result_Inr)
  with Cons show ?case by (fastforce simp: new_item_def Let_def split: prod.splits if_splits)
qed simp

lemma loaded_ok:
  assumes "Load path d = (Inr r, d')" "leasesFromState (rs_Members r) = Inr ls" "New ls = Inr a"
  shows "alloc_ok a"
proof -
  have "set (map lease_Revision ls) = set (map ms_LeaseRevision (rs_Members r))"
    using leasesFromState_revisions [OF assms(2)] by simp
  then have "\<forall>l\<in>set ls. lease_Revision l \<noteq> 0" using validate_revisions [OF Load_valid [OF assms(1)]] by force
  moreover have "fmlookup (byKey a) k = Some l \<Longrightarrow> l \<in> set ls" for k l
    using new_loop_leases [of ls allocator_empty a k l] assms(3) by (simp add: New_def allocator_empty_def)
  ultimately show ?thesis using New_inv [OF assms(3)] by (auto simp: alloc_ok_def)
qed

lemma stringSet_True: "fmlookup (stringSet items) u \<noteq> Some False"
proof -
  have "fmlookup m u \<noteq> Some False \<Longrightarrow> fmlookup (foldl (\<lambda>m item. fmupd item True m) m items) u \<noteq> Some False" for m
    by (induction items arbitrary: m) auto
  then show ?thesis by (simp add: stringSet_def)
qed

lemma apply_members_kept:
  "room_inv s \<Longrightarrow> room_inv (snd (apply_members cb ls s)) \<and> r_allocator (snd (apply_members cb ls s)) = r_allocator s"
proof (induction ls arbitrary: s)
  case (Cons l ls)
  show ?case
  proof (cases "lease_Enabled l \<and> cb_applyPeer cb \<noteq> None")
    case True
    let ?psk = "case fmlookup (r_memberPSKs s) (lease_key l) of Some psk \<Rightarrow> psk | None \<Rightarrow> DerivePSK (r_roomKey s) (r_hostPublic s) (lease_key l)"
    let ?s = "s\<lparr>r_memberPSKs := fmupd (lease_key l) ?psk (r_memberPSKs s)\<rparr>"
    obtain e t where a: "applyPeer cb l ?psk ?s = (e, t)" by fastforce
    have "room_inv t" "r_allocator t = r_allocator s"
      using env_step_applyPeer [of ?s cb l ?psk] a Cons.prems by (simp_all add: env_stepD room_inv_env)
    then show ?thesis using Cons.IH [of t] True a by (auto simp: Let_def split: option.split)
  next
    case False
    then show ?thesis using Cons by auto
  qed
qed simp

lemma Start_tail:
  assumes "room_inv s" "r_allocator s \<noteq> None"
  shows "room_inv (snd (let (err, s) = start_network cb s in
     (case err of
        Some e \<Rightarrow> (Inl e, s)
      | None \<Rightarrow>
     (let (err, s) = apply_members cb leasing s in
     (case err of
        Some e \<Rightarrow> (Inl e, snd (stopNetwork cb (clearLocked s)))
      | None \<Rightarrow>
     (let (err, s) = persistRoomSecretLocked s in
     (case err of
        Some e \<Rightarrow> (Inl e, snd (stopNetwork cb (clearLocked s)))
      | None \<Rightarrow>
     (let (err, s) = listenLocked cb le s in
     (case err of
        Some e \<Rightarrow> (Inl e, snd (stopNetwork cb (clearLocked s)))
      | None \<Rightarrow>
     (let s = s\<lparr>r_running := True\<rparr> in (Inr (snapshotLocked s), s)))))))))))"
proof (rule try_step, goal_cases)
  case 1
  show ?case by (rule start_network_inv [OF assms(1)])
next
  case (3 t)
  then have t: "r_allocator t \<noteq> None" using alloc_kept(5) [of cb s] assms(2) by simp
  show ?case
  proof (rule try_step, goal_cases)
    case 1
    show ?case using apply_members_kept 3 by blast
  next
    case (3 u)
    then have u: "r_allocator u \<noteq> None" using apply_members_kept [of t cb leasing] t \<open>room_inv t\<close> by simp
    show ?case
    proof (rule try_step, goal_cases)
      case 1
      show ?case by (rule room_inv_net) fact
    next
      case (3 v)
      then have v: "r_allocator v \<noteq> None" using alloc_kept(4) [of u] u by simp
      show ?case
      proof (rule try_step, goal_cases)
        case 1
        show ?case by (rule listenLocked_inv) fact
      next
        case (3 x)
        then have "r_allocator x \<noteq> None" using alloc_kept(3) [of cb le v] v by simp
        then show ?case using 3 by (simp add: room_inv_run Let_def)
      qed (simp add: room_inv_net)
    qed (simp add: room_inv_net)
  qed (simp add: room_inv_net)
qed

lemma loaded_room:
  "on_disk (Load p) s = (Inr r, t) \<Longrightarrow> leasesFromState (rs_Members r) = Inr ls \<Longrightarrow> New ls = Inr a \<Longrightarrow> alloc_ok a"
  by (auto simp: on_disk_def split: prod.splits intro: loaded_ok)

lemma Start_inv: "room_inv s \<Longrightarrow> room_inv (snd (room_Start cb random le s))"
proof (cases "r_running s")
  case False
  assume inv: "room_inv s"
  show ?thesis
    unfolding room_Start_def if_not_P [OF False]
    apply (rule try_result, rule room_inv_net, rule inv)
    apply (rule try_result, rule room_inv_net, assumption)
    apply (rule try_value, assumption)
    apply (simp only: split_paired_all prod.case)
    apply (rule try_result, rule room_inv_net, assumption)
    apply (rule try_value, assumption)
    apply (rule try_value, assumption)
    apply (subst Let_def)
    apply (rule Start_tail)
     apply (rule room_invI [of "_ :: allocator"])
       apply (rule loaded_room; assumption)
      apply (simp_all add: stringSet_True)
    done
qed (simp add: room_Start_def)

lemma Stop_inv: "room_inv s \<Longrightarrow> room_inv (snd (room_Stop cb e s))"
proof -
  assume inv: "room_inv s"
  have "room_inv (s\<lparr>r_server := False, r_running := False, r_timers := fmempty\<rparr>)" using inv by (simp add: room_inv_def)
  then show ?thesis
    using inv by (auto simp: room_Stop_def Let_def case_prod_beta intro!: room_inv_net)
qed

lemma StartOrCreate_inv: "room_inv s \<Longrightarrow> room_inv (snd (StartOrCreate cb env options s))"
  unfolding StartOrCreate_def Let_def case_prod_beta
  by (auto intro!: Start_inv Create_inv room_inv_net split: option.split)

section \<open>The room as a transition system\<close>

text \<open>
  Every step a running program can take: the callbacks of the pairing server, with any arguments, the
  timers, the commands of the host, and whatever happens to the file system and the network outside.
\<close>

inductive room_step :: "'n callbacks \<Rightarrow> 'n room \<Rightarrow> 'n room \<Rightarrow> bool" for cb where
  assigning: "room_step cb s (snd (assign cb key name roomKey auth s))"
| failing: "room_step cb s (pairingFailed cb key g s)"
| acknowledging: "room_step cb s (pairingAcknowledged key g s)"
| reporting: "room_step cb s (reportStats key dev s)"
| firing: "room_step cb s (fire_timer key s)"
| expiring: "(key, rev') \<in> set (r_fired s) \<Longrightarrow>
    room_step cb s (unacked_expired cb key rev' (s\<lparr>r_fired := remove1 (key, rev') (r_fired s)\<rparr>))"
| joining: "room_step cb s (snd (SetJoinEnabled enabled s))"
| updating: "room_step cb s (UpdateMemberStats now stats s)"
| removing: "room_step cb s (snd (removeMember cb encoded block s))"
| unblocking: "room_step cb s (snd (UnblockUID uid s))"
| renaming: "room_step cb s (snd (RenameMember encoded name s))"
| rotating: "room_step cb s (snd (RotateKey random s))"
| creating: "room_step cb s (snd (room_Create cb env options s))"
| starting: "room_step cb s (snd (room_Start cb random err s))"
| start_or_create: "room_step cb s (snd (StartOrCreate cb env options s))"
| stopping: "room_step cb s (snd (room_Stop cb err s))"
| outside: "env_step s t \<Longrightarrow> room_step cb s t"

lemma room_step_inv:
  assumes "room_step cb s t" "room_inv s" "revision (the_alloc s) < revision (the_alloc s) + 1"
  shows "room_inv t"
  using assms
  by cases (simp_all add: assign_inv pairingFailed_inv acknowledged_inv reportStats_inv fire_timer_inv expired_inv
      SetJoinEnabled_inv UpdateMemberStats_inv removeMember_inv UnblockUID_inv RenameMember_inv RotateKey_inv Create_inv
      Start_inv StartOrCreate_inv Stop_inv room_inv_env)

text \<open>
  The states a service can reach, as long as the 64-bit counter of lease revisions has not come to its
  end (a hand-made state file could bring it there).
\<close>

inductive room_reach :: "'n callbacks \<Rightarrow> 'n room \<Rightarrow> bool" for cb where
  new: "room_reach cb (room_New dataDir uid wgPort relayPort disk net)"
| step: "room_reach cb s \<Longrightarrow> revision (the_alloc s) < revision (the_alloc s) + 1 \<Longrightarrow> room_step cb s t \<Longrightarrow> room_reach cb t"

lemma room_reach_inv: "room_reach cb s \<Longrightarrow> room_inv s"
proof (induction rule: room_reach.induct)
  case new
  then show ?case by (simp add: room_New_def room_inv_def)
next
  case step
  then show ?case using room_step_inv by blast
qed

section \<open>Removing and blocking a member\<close>

definition blocking :: "bool \<Rightarrow> string \<Rightarrow> 'n room \<Rightarrow> 'n room" where
  "blocking block uid s = (if block then s\<lparr>r_blockedUIDs := fmupd uid True (r_blockedUIDs s)\<rparr> else s)"

lemma removeMember_cases:
  assumes inv: "room_inv s" and r: "removeMember cb encoded block s = (r, s')"
  obtains (refused) e where "r = Inl e" "s' = s"
  | (undone) e key uid l t where "r = Inl e" "leases_of s key = Some l" "uid = lookup_or [] (r_memberUIDs s) key"
      "env_step (forget_member key (blocking block uid s)) t"
      "env_step (undo_remove block (lookup_or False (r_blockedUIDs s) uid) uid l (lookup_or [] (r_memberStates s) key)
         (fmlookup (r_memberPSKs s) key) t) s'"
  | (removed) key uid l t where "r = Inr (snapshotLocked s')" "decodePublicKey encoded = Inr key" "r_running s"
      "leases_of s key = Some l" "uid = lookup_or [] (r_memberUIDs s) key" "block \<longrightarrow> room_validUID uid"
      "env_step (forget_member key (blocking block uid s)) t" "s' = command (CmdRemoveMember key) t"
proof (cases "\<exists>e. r = Inl e \<and> s' = s")
  case True
  then show ?thesis using refused by blast
next
  case acted: False
  have rl: "room_lease s key = leases_of s key" for key
    by (rule room_lease_of) (use room_inv_alloc [OF inv] in \<open>simp add: alloc_ok_def\<close>)
  obtain key l where k: "decodePublicKey encoded = Inr key" "r_running s" "leases_of s key = Some l"
    using r acted by (auto simp: removeMember_def rl split: sum.splits option.splits if_splits)
  define uid where "uid = lookup_or [] (r_memberUIDs s) key"
  let ?undo = "undo_remove block (lookup_or False (r_blockedUIDs s) uid) uid l (lookup_or [] (r_memberStates s) key)
         (fmlookup (r_memberPSKs s) key)"
  have v: "block \<longrightarrow> room_validUID uid"
    using r acted k by (auto simp: removeMember_def rl uid_def Let_def split: if_splits)
  obtain e1 s1 where s1: "removePeer cb key (forget_member key (blocking block uid s)) = (e1, s1)" by fastforce
  obtain e2 s2 where s2: "persist_fixed s1 = (e2, s2)" by fastforce
  have f1: "env_step (forget_member key (blocking block uid s)) s1"
    using env_step_removePeer [of "forget_member key (blocking block uid s)" cb key] s1 by simp
  have f2: "env_step (forget_member key (blocking block uid s)) s2"
    using env_step_trans [OF f1, of s2] env_step_persist [of s1] s2 by simp
  have R: "(r, s') = (case e1 of Some e \<Rightarrow> (Inl e, ?undo s1)
      | None \<Rightarrow> (case e2 of
          Some e \<Rightarrow> (Inl e, (case fmlookup (r_memberPSKs s) key of None \<Rightarrow> ?undo s2 | Some psk \<Rightarrow> snd (applyPeer cb l psk (?undo s2))))
        | None \<Rightarrow> (Inr (snapshotLocked (command (CmdRemoveMember key) s2)), command (CmdRemoveMember key) s2)))"
    using r k v s1 s2 unfolding removeMember_def rl
    by (auto simp: Let_def uid_def [symmetric] blocking_def split: option.splits)
  have a: "env_step (?undo s2) (case fmlookup (r_memberPSKs s) key of None \<Rightarrow> ?undo s2 | Some psk \<Rightarrow> snd (applyPeer cb l psk (?undo s2)))"
    by (simp add: env_step_applyPeer split: option.split)
  show ?thesis
  proof (cases e1)
    case (Some e)
    with R show ?thesis by (intro undone [OF _ k(3) uid_def f1]) auto
  next
    case none: None
    show ?thesis
    proof (cases e2)
      case (Some e)
      with R none a show ?thesis by (intro undone [OF _ k(3) uid_def f2]) auto
    next
      case None
      with R none k v f2 show ?thesis by (intro removed [OF _ k uid_def v f2]) auto
    qed
  qed
qed

lemma forget_fields:
  "the_alloc (forget_member key s) = snd (Remove key (the_alloc s))"
  "r_memberPSKs (forget_member key s) = fmdrop key (r_memberPSKs s)"
  "r_memberStates (forget_member key s) = fmdrop key (r_memberStates s)"
  "r_memberUIDs (forget_member key s) = fmdrop key (r_memberUIDs s)"
  "r_pending (forget_member key s) = fmdrop key (r_pending s)"
  "r_timers (forget_member key s) = fmdrop key (r_timers s)"
  "r_blockedUIDs (forget_member key s) = r_blockedUIDs s" "r_running (forget_member key s) = r_running s"
  "r_joinEnabled (forget_member key s) = r_joinEnabled s" "r_roomKey (forget_member key s) = r_roomKey s"
  "r_cmds (forget_member key s) = r_cmds s"
  by (simp_all add: forget_member_def set_alloc_def the_alloc_def)

lemma blocking_fields:
  "the_alloc (blocking block uid s) = the_alloc s" "r_memberPSKs (blocking block uid s) = r_memberPSKs s"
  "r_memberStates (blocking block uid s) = r_memberStates s" "r_memberUIDs (blocking block uid s) = r_memberUIDs s"
  "r_pending (blocking block uid s) = r_pending s" "r_timers (blocking block uid s) = r_timers s"
  "r_blockedUIDs (blocking block uid s) = (if block then fmupd uid True (r_blockedUIDs s) else r_blockedUIDs s)"
  "r_running (blocking block uid s) = r_running s"
  "r_joinEnabled (blocking block uid s) = r_joinEnabled s" "r_roomKey (blocking block uid s) = r_roomKey s"
  "r_cmds (blocking block uid s) = r_cmds s"
  by (simp_all add: blocking_def the_alloc_def)

lemma undo_fields:
  "the_alloc (undo_remove block pb uid l st psk s) = snd (Restore l (the_alloc s))"
  "r_memberPSKs (undo_remove block pb uid l st psk s) =
     (case psk of None \<Rightarrow> r_memberPSKs s | Some p \<Rightarrow> fmupd (lease_key l) p (r_memberPSKs s))"
  "r_memberStates (undo_remove block pb uid l st psk s) = fmupd (lease_key l) st (r_memberStates s)"
  "r_memberUIDs (undo_remove block pb uid l st psk s) = fmupd (lease_key l) uid (r_memberUIDs s)"
  "r_blockedUIDs (undo_remove block pb uid l st psk s) =
     (if block \<and> \<not> pb then fmdrop uid (r_blockedUIDs s) else r_blockedUIDs s)"
  "r_running (undo_remove block pb uid l st psk s) = r_running s"
  "r_joinEnabled (undo_remove block pb uid l st psk s) = r_joinEnabled s"
  "r_roomKey (undo_remove block pb uid l st psk s) = r_roomKey s"
  "r_pending (undo_remove block pb uid l st psk s) = r_pending s"
  "r_timers (undo_remove block pb uid l st psk s) = r_timers s"
  by (simp_all add: undo_remove_def Let_def set_alloc_def the_alloc_def split: option.split)

lemma remove_error:
  assumes inv: "room_inv s" and r: "removeMember cb encoded block s = (Inl e, s')"
  shows "same_members s s'"
  using inv r
proof (cases rule: removeMember_cases)
  case (undone e' key uid l t)
  note t = env_stepD [OF undone(4)] note s' = env_stepD [OF undone(5)]
  have ok: "alloc_ok (the_alloc s)" by (rule room_inv_alloc [OF inv])
  have l: "fmlookup (byKey (the_alloc s)) key = Some l" using undone(2) by (simp add: leases_of_def)
  have key: "lease_key l = key" "lease_Revision l \<noteq> 0" using ok l alloc_invD(4) by (auto simp: alloc_ok_def)
  have "Restore l (snd (Remove key (the_alloc s))) = (None, the_alloc s)"
    by (rule leases.remove_undo) (use ok l key in \<open>auto simp: alloc_ok_def lookup_lease_def\<close>)
  then have L: "leases_of s' = leases_of s" by (simp add: leases_of_def s' undo_fields t forget_fields blocking_fields)
  have P: "r_memberPSKs s' = r_memberPSKs s"
    by (intro fmap_ext) (auto simp: s' undo_fields t forget_fields blocking_fields key split: option.split)
  have B: "r_blockedUIDs s' = r_blockedUIDs s"
    using room_inv_blocked [OF inv, of uid]
    by (intro fmap_ext) (auto simp: s' undo_fields t forget_fields blocking_fields key lookup_or_def split: option.splits)
  show ?thesis
    using L P B undone(3) by (auto simp: same_members_def s' undo_fields t forget_fields blocking_fields key)
qed auto

lemma remove_success:
  assumes inv: "room_inv s" and r: "removeMember cb encoded block s = (Inr snap, s')"
  shows "\<exists>key. decodePublicKey encoded = Inr key \<and> leases_of s key \<noteq> None \<and> leases_of s' = (leases_of s)(key := None)
    \<and> r_memberPSKs s' = fmdrop key (r_memberPSKs s) \<and> fmlookup (r_pending s') key = None
    \<and> fmlookup (r_timers s') key = None \<and> last (r_cmds s') = CmdRemoveMember key
    \<and> (block \<longrightarrow> lookup_or False (r_blockedUIDs s') (lookup_or [] (r_memberUIDs s) key))"
  using inv r
proof (cases rule: removeMember_cases)
  case (removed key uid l t)
  note t = env_stepD [OF removed(7)]
  have "lookup_lease (snd (Remove key (the_alloc s))) = (lookup_lease (the_alloc s))(key := None)"
    by (rule leases.remove_look) (use room_inv_alloc [OF inv] in \<open>simp add: alloc_ok_def\<close>)
  moreover have "the_alloc s' = snd (Remove key (the_alloc s))"
    by (simp add: removed(8) command_def the_alloc_def) (simp add: t forget_fields blocking_fields flip: the_alloc_def)
  ultimately have "leases_of s' = (leases_of s)(key := None)" by (simp add: leases_of_def lookup_lease_def fun_eq_iff)
  with removed show ?thesis by (auto simp: command_def t forget_fields blocking_fields)
qed auto

section \<open>The other commands\<close>

lemma SetJoinEnabled_error: "SetJoinEnabled b s = (Inl e, s') \<Longrightarrow> same_members s s'"
  using env_stepD [OF env_step_persist [of "s\<lparr>r_joinEnabled := b\<rparr>"]]
  by (auto simp: SetJoinEnabled_def same_members_def leases_of_def the_alloc_def case_prod_beta Let_def
      split: if_splits option.splits)

lemma UnblockUID_error: "room_inv s \<Longrightarrow> UnblockUID uid s = (Inl e, s') \<Longrightarrow> same_members s s'"
proof -
  assume inv: "room_inv s" and r: "UnblockUID uid s = (Inl e, s')"
  note p = env_stepD [OF env_step_persist [of "s\<lparr>r_blockedUIDs := fmdrop uid (r_blockedUIDs s)\<rparr>"]]
  have b: "fmupd uid True (fmdrop uid (r_blockedUIDs s)) = r_blockedUIDs s" if "lookup_or False (r_blockedUIDs s) uid"
    using that by (intro fmap_ext) (auto simp: lookup_or_def split: option.splits)
  from r show ?thesis
    by (auto simp: UnblockUID_def same_members_def leases_of_def the_alloc_def case_prod_beta Let_def p b
        split: if_splits option.splits)
qed

lemma RotateKey_error: "RotateKey random s = (Inl e, s') \<Longrightarrow> same_members s s'"
  by (auto simp: RotateKey_def same_members_def leases_of_def the_alloc_def case_prod_beta Let_def
      env_stepD [OF env_step_secret] split: if_splits option.splits sum.splits)

lemma RenameMember_error:
  assumes inv: "room_inv s" and r: "RenameMember k name s = (Inl e, s')"
  shows "same_members s s'"
proof -
  have al: "r_running s \<Longrightarrow> set_alloc s (the_alloc s) = s" using room_inv_running [OF inv] set_alloc_same by blast
  obtain a0 where a0: "New (Snapshot (the_alloc s)) = Inr a0" "byKey a0 = byKey (the_alloc s)"
    using New_Snapshot [OF alloc_okD [OF room_inv_alloc [OF inv]]] by blast
  have p: "same_members s ((snd (persist_fixed (set_alloc s a)))\<lparr>r_allocator := Some a0\<rparr>)" for a
    using a0 by (simp add: same_members_def leases_of_def the_alloc_def env_stepD [OF env_step_persist] set_alloc_def)
  have q: "same_members s (set_alloc s a)" if "fst (Assign key name (the_alloc s)) = Inl e'" "r_running s" "a = snd (Assign key name (the_alloc s))" for key e' a
    using that al Assign_error [of key name "the_alloc s" e'] by simp
  show ?thesis
    using r a0 p q by (auto simp: RenameMember_def Let_def case_prod_beta split: if_splits option.splits sum.splits prod.splits)
qed

text \<open>\<open>SetJoinEnabled\<close>, \<open>RotateKey\<close> and \<open>RenameMember\<close> when they succeed.\<close>

lemma RotateKey_success:
  "RotateKey random s = (Inr code, s') \<Longrightarrow> \<exists>key. random = Inr key \<and> r_roomKey s' = key \<and> r_memberPSKs s' = r_memberPSKs s
     \<and> leases_of s' = leases_of s \<and> r_cmds s' = r_cmds s @ [CmdSetRoomKey key]"
  by (auto simp: RotateKey_def leases_of_def the_alloc_def case_prod_beta Let_def command_def
      env_stepD [OF env_step_secret] split: if_splits option.splits sum.splits)

end
