(* ===== verification/Room_Pairing.thy ===== *)
theory Room_Pairing
  imports Room_Laws
begin

text \<open>
  The pairing server with the room behind it: a client with the invite gets the lease the room gives
  it, both sides with the same key; and how an old timer undermines a later attempt.
\<close>

section \<open>From the invite to the lease\<close>

text \<open>
  A client that has the room's invite and reaches the pairing server of an open room: both sides end
  with the same lease and the same preshared key, and the member is configured after the acknowledgement.
\<close>

lemma join_room:
  assumes inv: "room_inv s" and ov: "revision (the_alloc s) < revision (the_alloc s) + 1"
    and code: "GetInvite s = Inr code" and joinable: "r_joinEnabled s"
    and challenge: "challenge_ok challenge" "sc_HostPublicKey challenge = r_hostPublic s"
    and request: "newClientRequest challenge key uid name (be_bytes (r_roomKey s)) (Inr nonce) = Inr request"
    and free: "uid = [] \<or> \<not> blockedUID s uid"
    and granted: "assign cb key name (r_roomKey s) False s = (Inr g, s')"
    and ports: "r_wgPort s \<noteq> 0" "r_relayPort s \<noteq> 0"
  shows "\<exists>inv result ack l.
      Decode code = Inr inv \<and> RoomKey inv = r_roomKey s \<and> HostUID inv = r_hostUID s \<and> PairPort inv = r_pairPort s
      \<and> pr_WireGuardPort result = r_wgPort s \<and> pr_DiscoveryRelayPort result = r_relayPort s
      \<and> pr_HostPublicKey result = r_hostPublic s
      \<and> pairWithSession (connected (room_config cb s) challenge (r_roomKey s) s nonce) (be_bytes (RoomKey inv)) key uid name =
        ([(FrameClientRequest, request_bytes request), (FramePairAck, ack)], Inr result)
      \<and> leases_of s' key = Some l \<and> lease_IP l = pr_AssignedIP result \<and> lease_Revision l = pr_LeaseRevision result
      \<and> fmlookup (r_memberPSKs s') key = Some (DerivePSK (RoomKey inv) (pr_HostPublicKey result) key)
      \<and> pair_ack (room_config cb s) request (be_bytes (r_roomKey s)) g (Inr (FramePairAck, ack)) s' =
        (True, pairingAcknowledged key g s')
      \<and> fmlookup (r_memberStates (pairingAcknowledged key g s')) key = Some ''configured''"
proof -
  have run: "r_running s" using code by (auto simp: GetInvite_def split: if_splits)
  obtain invite where iv: "Decode code = Inr invite" "RoomKey invite = r_roomKey s" "HostUID invite = r_hostUID s"
      "PairPort invite = r_pairPort s"
    using code by (auto simp: GetInvite_def dest!: Decode_Encode split: if_splits)
  from assign_granted [OF inv granted] obtain l where l: "leases_of s' = (leases_of s)(key \<mapsto> l)" "lease_IP l = as_IP g"
      "lease_Revision l = as_Revision g"
    and psk: "r_memberPSKs s' = fmupd key (attempt_psk s key (r_roomKey s) False) (r_memberPSKs s)"
    and pend: "fmlookup (r_pending s') key = Some (attempt s key)" "as_Token g = r_pairAttempt s'" by blast
  have inv': "room_inv s'" using assign_inv [OF inv ov, of cb key name "r_roomKey s" False] granted by simp
  have ip: "Is4 (as_IP g)"
    using alloc_invD(7) [OF alloc_okD [OF room_inv_alloc [OF inv']], of key l] l by (auto simp: leases_of_def fun_eq_iff)
  have c: "sv_JoinEnabled (room_config cb s) s" "sv_Assign (room_config cb s) key name (r_roomKey s) False s = (Inr g, s')"
    "sv_WireGuardPort (room_config cb s) \<noteq> 0" "sv_DiscoveryRelayPort (room_config cb s) \<noteq> 0"
    "uid = '''' \<or> \<not> (case sv_BlockedUID (room_config cb s) of None \<Rightarrow> False | Some blocked \<Rightarrow> blocked s uid)"
    using run joinable granted ports free by (simp_all add: room_config_def)
  have key: "cr_ClientPublicKey request = key" using request
    by (auto simp: newClientRequest_def Let_def split: if_splits sum.splits)
  from handshake_agrees [OF challenge(1) request c(5,1,2) ip c(3,4), of s'] obtain result ack where
    h: "pairWithSession (connected (room_config cb s) challenge (r_roomKey s) s nonce) (be_bytes (r_roomKey s)) key uid name =
        ([(FrameClientRequest, request_bytes request), (FramePairAck, ack)], Inr result)"
      "fst (pair_ack (room_config cb s) request (be_bytes (r_roomKey s)) g (Inr (FramePairAck, ack)) s')"
      "pr_AssignedIP result = as_IP g" "pr_LeaseRevision result = as_Revision g"
      "pr_HostPublicKey result = sc_HostPublicKey challenge"
      "pr_WireGuardPort result = sv_WireGuardPort (room_config cb s)"
      "pr_DiscoveryRelayPort result = sv_DiscoveryRelayPort (room_config cb s)" by blast
  have p: "pr_WireGuardPort result = r_wgPort s" "pr_DiscoveryRelayPort result = r_relayPort s"
    using h(6,7) by (simp_all add: room_config_def)
  have a: "pair_ack (room_config cb s) request (be_bytes (r_roomKey s)) g (Inr (FramePairAck, ack)) s' =
      (True, pairingAcknowledged key g s')"
    using h(2) key by (auto simp: pair_ack_def Let_def room_config_def split: if_splits)
  have run': "r_running s'" "r_allocator s' \<noteq> None"
    using inv granted by (cases rule: assign_cases; auto simp: env_stepD attempted_more)+
  have "pp_token (attempt s key) = as_Token g"
    using inv granted by (cases rule: assign_cases) (auto simp: attempt_def)
  then have "fmlookup (r_memberStates (pairingAcknowledged key g s')) key = Some ''configured''"
    using run' pend room_inv_running [OF inv' run'(1)] by (simp add: pairingAcknowledged_def)
  with iv h(1-5) p l psk a challenge(2) show ?thesis by (auto simp: attempt_psk_def)
qed

section \<open>A second attempt is undermined by the first one's timer\<close>

text \<open>
  The acknowledgement of a first attempt is lost, the client pairs again, and the timer of the first
  attempt expires before the second acknowledgement: the lease is removed, and the acknowledgement
  makes the client a configured member without a lease and without a key.
\<close>

lemma expired_removes:
  assumes inv: "room_inv s" and run: "r_running s" and l: "leases_of s key = Some l" "lease_Revision l = rev'"
    and st: "fmlookup (r_memberStates s) key \<noteq> Some ''configured''"
  shows "leases_of (unacked_expired cb key rev' s) = (leases_of s)(key := None)"
    "fmlookup (r_memberPSKs (unacked_expired cb key rev' s)) key = None"
    "r_pending (unacked_expired cb key rev' s) = r_pending s" "r_running (unacked_expired cb key rev' s)"
    "r_allocator (unacked_expired cb key rev' s) \<noteq> None"
proof -
  have al: "r_allocator s = Some (the_alloc s)" by (rule room_inv_running [OF inv run])
  let ?t = "s\<lparr>r_timers := fmdrop key (r_timers s)\<rparr>"
  have ta: "the_alloc ?t = the_alloc s" "leases_of ?t = leases_of s" by (simp_all add: the_alloc_def leases_of_def)
  have rl: "room_lease ?t key = Some l"
    using room_lease_of [of ?t key] room_inv_alloc [OF inv] l ta by (simp add: alloc_ok_def)
  obtain a where a: "RemoveIfRevision key rev' (the_alloc s) = (True, a)" "fmlookup (byKey a) = (fmlookup (byKey (the_alloc s)))(key := None)"
    using l by (auto simp: RemoveIfRevision_def leases_of_def fun_eq_iff)
  let ?u = "(set_alloc ?t a)\<lparr>r_memberStates := fmdrop key (r_memberStates s), r_memberPSKs := fmdrop key (r_memberPSKs s)\<rparr>"
  have "unacked_expired cb key rev' s = snd (persist_fixed (snd (removePeer cb key ?u)))"
    using run al rl l st a(1) by (simp add: unacked_expired_def Let_def ta set_alloc_def)
  moreover have "env_step ?u (snd (persist_fixed (snd (removePeer cb key ?u))))"
    using env_step_trans [OF env_step_removePeer env_step_persist] .
  ultimately have e: "env_step ?u (unacked_expired cb key rev' s)" by simp
  have u: "the_alloc ?u = a" by (simp add: the_alloc_def set_alloc_def)
  show "leases_of (unacked_expired cb key rev' s) = (leases_of s)(key := None)"
    by (simp add: leases_of_def env_stepD [OF e] u a(2))
  show "fmlookup (r_memberPSKs (unacked_expired cb key rev' s)) key = None"
    "r_pending (unacked_expired cb key rev' s) = r_pending s" "r_running (unacked_expired cb key rev' s)"
    "r_allocator (unacked_expired cb key rev' s) \<noteq> None"
    using run by (simp_all add: env_stepD [OF e] set_alloc_def)
qed

lemma fire_fields: "r_running (fire_timer key s) = r_running s" "r_memberStates (fire_timer key s) = r_memberStates s"
  "r_pending (fire_timer key s) = r_pending s" "the_alloc (fire_timer key s) = the_alloc s"
  by (simp_all add: fire_timer_def the_alloc_def split: option.split prod.split bool.split)

lemma second_attempt_lost:
  assumes inv: "room_inv s" and ov: "revision (the_alloc s) < revision (the_alloc s) + 1"
      "revision (the_alloc s1) < revision (the_alloc s1) + 1"
    and new: "leases_of s key = None"
    and first: "assign cb key name roomKey False s = (Inr g1, s1)"
    and second: "assign cb key name roomKey False (pairingFailed cb key g1 s1) = (Inr g2, s2)"
    and expired: "s3 = unacked_expired cb key (as_Revision g1) (fire_timer key s2)"
  shows "leases_of (pairingAcknowledged key g2 s3) key = None
    \<and> fmlookup (r_memberPSKs (pairingAcknowledged key g2 s3)) key = None
    \<and> fmlookup (r_memberStates (pairingAcknowledged key g2 s3)) key = Some ''configured''"
proof -
  have i1: "room_inv s1" using assign_inv [OF inv ov(1), of cb key name roomKey False] first by simp
  let ?f = "pairingFailed cb key g1 s1"
  from assign_granted [OF inv first] new obtain l where l: "leases_of s1 = (leases_of s)(key \<mapsto> l)"
      "lease_Revision l = as_Revision g1" "as_Created g1"
    and p1: "fmlookup (r_pending s1) key = Some (attempt s key)" "as_Token g1 = r_pairAttempt s1" by auto
  have tok: "pp_token (attempt s key) = as_Token g1"
    using inv first by (cases rule: assign_cases) (auto simp: attempt_def)
  have f: "?f = s1\<lparr>r_pending := fmdrop key (r_pending s1), r_timers := fmupd key (as_Revision g1, False) (r_timers s1)\<rparr>"
    using p1 tok l(3) by (simp add: pairingFailed_def Let_def)
  have fi: "room_inv ?f" by (rule pairingFailed_inv [OF i1])
  have fa: "the_alloc ?f = the_alloc s1" by (simp add: f the_alloc_def)
  have fl: "leases_of ?f key = Some l" using l by (simp add: leases_of_def fa)
  have i2: "room_inv s2" using assign_inv [OF fi, of cb key name roomKey False] ov(2) second fa by simp
  from fi second have "\<exists>l2. leases_of s2 key = Some l2 \<and> lease_Revision l2 = as_Revision g1
    \<and> r_running s2 \<and> fmlookup (r_memberStates s2) key = Some ''pairing''
    \<and> fmlookup (r_pending s2) key = Some (attempt ?f key) \<and> pp_token (attempt ?f key) = as_Token g2"
  proof (cases rule: assign_cases)
    case (granted item created a)
    note t = env_stepD [OF granted(7)]
    have "lookup_lease a = (lookup_lease (the_alloc ?f))(key \<mapsto> item)"
      using leases.assign_look [OF alloc_okD [OF room_inv_alloc [OF fi]] granted(5)] by blast
    then have "leases_of s2 key = Some item" by (simp add: leases_of_def t attempted_more lookup_lease_def fun_eq_iff)
    moreover have "lease_Revision item = lease_Revision l"
      using granted(5) fl by (cases rule: Assign_cases) (auto simp: leases_of_def)
    moreover have "r_running s2" "fmlookup (r_memberStates s2) key = Some ''pairing''"
      "fmlookup (r_pending s2) key = Some (attempt ?f key)" "pp_token (attempt ?f key) = as_Token g2"
      using granted(1,2) by (simp_all add: t attempted_more attempted_fields) (simp add: attempt_def)
    ultimately show ?thesis using l(2) by (intro exI [of _ item]) simp
  qed simp_all
  then obtain l2 where l2: "leases_of s2 key = Some l2" "lease_Revision l2 = as_Revision g1"
    and S: "r_running s2" "fmlookup (r_memberStates s2) key = Some ''pairing''"
      "fmlookup (r_pending s2) key = Some (attempt ?f key)" "pp_token (attempt ?f key) = as_Token g2" by blast
  have F: "room_inv (fire_timer key s2)" "r_running (fire_timer key s2)" "leases_of (fire_timer key s2) = leases_of s2"
    "fmlookup (r_memberStates (fire_timer key s2)) key \<noteq> Some ''configured''" "r_pending (fire_timer key s2) = r_pending s2"
    using i2 S(1,2) by (simp_all add: fire_fields fire_timer_inv leases_of_def)
  note X = expired_removes [OF F(1,2), unfolded F(3), OF l2 F(4), of cb, folded expired]
  have "pairingAcknowledged key g2 s3 = s3\<lparr>r_pending := fmdrop key (r_pending s3), r_timers := fmdrop key (r_timers s3),
      r_memberStates := fmupd key ''configured'' (r_memberStates s3)\<rparr>"
    using X(3,4,5) F(5) S(3,4) by (auto simp: pairingAcknowledged_def)
  with X(1,2) show ?thesis by (simp add: leases_of_def the_alloc_def)
qed

end
