(* ===== verification/Room_Restart.thy ===== *)
theory Room_Restart
  imports Room_Laws
begin

text \<open>
  A restart of a fixed room: what \<open>persistLocked\<close> writes is what \<open>Start\<close> of a new service on the same
  directory reads, and when nothing outside fails \<open>Start\<close> does start.
\<close>

section \<open>The room secret\<close>

lemma sort_key_map: "sort_key f (map g xs) = map g (sort_key (\<lambda>x. f (g x)) xs)"
proof -
  have "insort_key f (g x) (map g ys) = map g (insort_key (\<lambda>x. f (g x)) x ys)" for x ys
    by (induction ys) auto
  then show ?thesis by (induction xs) auto
qed

abbreviation key_text :: "'a::len word \<Rightarrow> string" where
  "key_text k \<equiv> std_encode (be_bytes k)"

lemma alphabet_ascii: "i < 64 \<Longrightarrow> (of_char (b64_std ! i) :: nat) < 0x80"
proof -
  have "\<forall>i<64. (of_char (b64_std ! i) :: nat) < 0x80"
    unfolding all_below_64 all_below_4 all_below_16 by (simp add: b64_std_def)
  then show "i < 64 \<Longrightarrow> ?thesis" by blast
qed

lemma ascii_std: "ascii (std_encode bs)"
proof -
  have "al = b64_std \<Longrightarrow> pad \<Longrightarrow> ascii (b64_encode al pad bs)" for al pad
    by (induction al pad bs rule: b64_encode.induct) (simp_all add: ascii_def alphabet_ascii)
  then show ?thesis by simp
qed

lemma enc_psks_map: "\<exists>ks. set ks = fset (fmdom m) \<and> distinct ks
    \<and> enc_psks m = map (\<lambda>k. (key_text k, JStr (key_text (the (fmlookup m k))))) ks"
  unfolding enc_psks_def sort_key_map
  by (rule exI [of _ "sort_key (\<lambda>k. fst (key_text k, JStr (key_text (the (fmlookup m k))))) (sorted_list_of_fset (fmdom m))"])
    (simp add: sorted_list_of_fset.rep_eq)

lemma dec_string_map_texts:
  "distinct (map fst ps) \<Longrightarrow> dec_string_map (map (\<lambda>(k, p). (k, JStr p)) ps) = Some ps"
  by (induction ps) (auto simp: dec_str_def)

lemma parse_psks_texts:
  "parse_psks (map (\<lambda>k. (key_text k, key_text (f k))) ks) m = Inr (foldl (\<lambda>m k. fmupd k (f k) m) m ks)"
  for f :: "arr32 \<Rightarrow> arr32"
  by (induction ks arbitrary: m) (simp_all add: decodePublicKey_def)

lemma foldl_upd: "fmlookup (foldl (\<lambda>m k. fmupd k (f k) m) m ks) k = (if k \<in> set ks then Some (f k) else fmlookup m k)"
  by (induction ks arbitrary: m) auto

lemma parseRoomSecret_made: "parseRoomSecret (roomSecret key psks) = Inr (key, psks)"
proof -
  obtain ks where ks: "set ks = fset (fmdom psks)" "distinct ks"
    "enc_psks psks = map (\<lambda>k. (key_text k, JStr (key_text (the (fmlookup psks k))))) ks" using enc_psks_map by blast
  define ms where "ms = [(''version'', enc_int 1), (''roomKey'', JStr (key_text key)), (''memberPsks'', JObj (enc_psks psks))]"
  have "json_ok (JObj ms)"
    by (auto simp: ms_def ks(3) enc_int_def list_all_iff intro!: utf8_ascii simp: ascii_std) (auto simp: ascii_def)
  from json_parse_print [OF this, of "[]" False 0] have P: "json_parse (json_print False 0 (JObj ms)) = Some (JObj ms)"
    by simp
  have plain: "plain_fields [''version'', ''roomKey'', ''memberPsks'']"
    by (simp add: plain_fields_def ascii_def fold_rune_def)
  have F: "f \<in> {''version'', ''roomKey'', ''memberPsks''} \<Longrightarrow> dec_field f dec dflt ms =
      (case map_of ms f of None \<Rightarrow> Some dflt | Some v \<Rightarrow> if v = JNull then Some dflt else dec v)"
    for f dec and dflt :: 'x
    by (rule dec_field_plain [OF plain]) (auto simp: ms_def)
  let ?ps = "map (\<lambda>k. (key_text k, key_text (the (fmlookup psks k)))) ks"
  have "dec_string_map (map (\<lambda>(k, p). (k, JStr p)) ?ps) = Some ?ps"
    by (rule dec_string_map_texts) (use ks(2) in \<open>simp add: distinct_map inj_on_def\<close>)
  then have d: "dec_string_map (enc_psks psks) = Some ?ps" by (simp add: ks(3) comp_def)
  have m: "foldl (\<lambda>m k. fmupd k (the (fmlookup psks k)) m) fmempty ks = psks"
    by (rule fmap_ext) (auto simp: foldl_upd ks(1) fmlookup_dom_iff)
  have v: "dec_int (enc_int 1) = Some 1" "enc_int 1 \<noteq> JNull"
    by (simp_all add: enc_int_def dec_int_def dec_nat_def dec_string_small digit_char_def digit_value_def)
  show ?thesis
    unfolding parseRoomSecret_def roomSecret_def string_of_bytes_of ms_def [symmetric] P option.case json.case
    by (simp add: F) (simp add: ms_def v dec_str_def d parse_psks_texts m)
qed

section \<open>The persisted room\<close>

lemma leasesFromState_made:
  "\<forall>l\<in>set ls. Is4 (lease_IP l) \<Longrightarrow> leasesFromState (stateFromLeases ls) = Inr ls"
  by (induction ls) (simp_all add: stateFromLeases_def decodePublicKey_def)

lemma sortedStrings_set: "set (sortedStrings m) = {u. fmlookup m u = Some True}"
  by (auto simp: sortedStrings_def sorted_list_of_fset.rep_eq fmlookup_dom_iff)

lemma stringSet_sorted: "(\<And>u. fmlookup m u \<noteq> Some False) \<Longrightarrow> stringSet (sortedStrings m) = m"
proof (rule fmap_ext)
  assume t: "\<And>u. fmlookup m u \<noteq> Some False"
  have f: "fmlookup (foldl (\<lambda>m item. fmupd item True m) m0 items) u = (if u \<in> set items then Some True else fmlookup m0 u)"
    for m0 items u by (induction items arbitrary: m0) auto
  show "fmlookup (stringSet (sortedStrings m)) u = fmlookup m u" for u
    using t [of u] by (cases "fmlookup m u") (auto simp: stringSet_def f sortedStrings_set)
qed

lemma room_paths:
  "statePath s \<noteq> roomSecretPath s" "roomSecretPath s \<noteq> bak (statePath s)"
  "statePath s \<noteq> temp_path (roomSecretPath s) n" "roomSecretPath s \<noteq> temp_path (statePath s) n"
  "roomSecretPath s \<noteq> temp_path (bak (statePath s)) n"
  by (simp_all add: statePath_def roomSecretPath_def bak_def temp_path_def)

text \<open>After a successful \<open>persistLocked\<close> both files hold the room.\<close>

lemma persist_files:
  assumes p: "persistLocked s = (None, s')" and utf: "room_text_ok (room_record s)"
  shows "file_room (d_files (r_disk s')) (statePath s) = Some (room_record s)"
    "file_secret (d_files (r_disk s')) (roomSecretPath s) = Some (roomSecret (r_roomKey s) (r_memberPSKs s))"
    "validate (room_record s) = None"
proof -
  obtain pr d1 where 1: "secret_Load (roomSecretPath s) (r_disk s) = (pr, d1)" by fastforce
  obtain e2 d2 where 2: "secret_Save (roomSecretPath s) (roomSecret (r_roomKey s) (r_memberPSKs s)) d1 = (e2, d2)" by fastforce
  obtain e3 d3 where 3: "Save (statePath s) (room_record s) d2 = (e3, d3)" by fastforce
  have r: "room_record (s\<lparr>r_disk := d\<rparr>) = room_record s" "statePath (s\<lparr>r_disk := d\<rparr>) = statePath s"
    "roomSecretPath (s\<lparr>r_disk := d\<rparr>) = roomSecretPath s" for d
    by (simp_all add: room_record_def statePath_def roomSecretPath_def the_alloc_def)
  have "e2 = None \<and> e3 = None \<and> s' = s\<lparr>r_disk := d3\<rparr>"
    using p by (auto simp: persistLocked_def persistRoomSecretLocked_def on_disk_def 1 2 3 Let_def r errors_join_def
        split: if_splits sum.splits prod.splits)
  then have e: "e2 = None" "e3 = None" "s' = s\<lparr>r_disk := d3\<rparr>" by blast+
  show v: "validate (room_record s) = None" using 3 e(2) by (auto simp: Save_def split: option.splits)
  note F = Save_files [OF 3 v]
  have m: "fmlookup (d_files d3) (statePath s) = Some (marshal_room (room_record s))" using F(1) e(2) by simp
  then show "file_room (d_files (r_disk s')) (statePath s) = Some (room_record s)"
    unfolding e(3) by (simp add: file_room_marshal [OF utf v])
  have "fmlookup (d_files d3) (roomSecretPath s) = fmlookup (d_files d2) (roomSecretPath s)"
    by (rule F(3)) (rule room_paths(1) [symmetric] room_paths(2,4,5))+
  then show "file_secret (d_files (r_disk s')) (roomSecretPath s) = Some (roomSecret (r_roomKey s) (r_memberPSKs s))"
    using secret_Save_files [OF 2] e by (simp add: file_secret_def)
qed

text \<open>A disk on which nothing fails takes every record that \<open>validate\<close> accepts.\<close>

lemma Save_succeeds:
  assumes "d_script d = []" "validate v = None"
  shows "\<exists>d'. Save path v d = (None, d') \<and> d_script d' = []"
proof -
  obtain old where r: "ReadFile path d = (old, d)" using assms(1) by (simp add: ReadFile_def os_call_no_script)
  obtain d1 where b: "writeAtomic (bak path) (case old of Inr x \<Rightarrow> x) d = (None, d1)" "d_script d1 = []"
    using writeAtomic_ok [OF assms(1)] by blast
  obtain d2 where w: "writeAtomic path (marshal_room v) d1 = (None, d2)" "d_script d2 = []" using writeAtomic_ok [OF b(2)] by blast
  obtain d3 where w': "writeAtomic path (marshal_room v) d = (None, d3)" "d_script d3 = []" using writeAtomic_ok [OF assms(1)] by blast
  show ?thesis
    using b w w' by (cases old) (auto simp: Save_def assms r Let_def split: option.split)
qed

lemma persist_succeeds:
  assumes "d_script (r_disk s) = []" "validate (room_record s) = None"
  shows "\<exists>d'. persistLocked s = (None, s\<lparr>r_disk := d'\<rparr>)"
proof -
  have "snd (secret_Load (roomSecretPath s) (r_disk s)) = r_disk s"
    using assms(1) by (simp add: secret_Load_def ReadFile_def os_call_no_script split: option.split sum.split)
  then obtain pr where 1: "secret_Load (roomSecretPath s) (r_disk s) = (pr, r_disk s)" by (metis prod.collapse)
  have ne: "roomSecret (r_roomKey s) (r_memberPSKs s) \<noteq> []" by (simp add: roomSecret_def bytes_of_def json_items_def)
  obtain d2 where 2: "secret_Save (roomSecretPath s) (roomSecret (r_roomKey s) (r_memberPSKs s)) (r_disk s) = (None, d2)" "d_script d2 = []"
    using secret_Save_ok [OF assms(1) ne] by blast
  obtain d3 where 3: "Save (statePath s) (room_record s) d2 = (None, d3)" using Save_succeeds [OF 2(2) assms(2)] by blast
  have r: "room_record (s\<lparr>r_disk := d\<rparr>) = room_record s" "statePath (s\<lparr>r_disk := d\<rparr>) = statePath s"
    "roomSecretPath (s\<lparr>r_disk := d\<rparr>) = roomSecretPath s" for d
    by (simp_all add: room_record_def statePath_def roomSecretPath_def the_alloc_def)
  show ?thesis
    by (rule exI [of _ d3]) (simp add: persistLocked_def persistRoomSecretLocked_def on_disk_def 1 2 3 Let_def r)
qed

lemma persist_keeps_host:
  assumes "persistLocked s = (None, s')" "validate (room_record s) = None"
  shows "fmlookup (d_files (r_disk s')) (hostSecretPath s) = fmlookup (d_files (r_disk s)) (hostSecretPath s)"
proof -
  obtain pr d1 where 1: "secret_Load (roomSecretPath s) (r_disk s) = (pr, d1)" by fastforce
  obtain e2 d2 where 2: "secret_Save (roomSecretPath s) (roomSecret (r_roomKey s) (r_memberPSKs s)) d1 = (e2, d2)" by fastforce
  obtain e3 d3 where 3: "Save (statePath s) (room_record s) d2 = (e3, d3)" by fastforce
  have r: "room_record (s\<lparr>r_disk := d\<rparr>) = room_record s" "statePath (s\<lparr>r_disk := d\<rparr>) = statePath s"
    "roomSecretPath (s\<lparr>r_disk := d\<rparr>) = roomSecretPath s" for d
    by (simp_all add: room_record_def statePath_def roomSecretPath_def the_alloc_def)
  have s': "s' = s\<lparr>r_disk := d3\<rparr>"
    using assms(1) by (auto simp: persistLocked_def persistRoomSecretLocked_def on_disk_def 1 2 3 Let_def r errors_join_def
        split: if_splits sum.splits prod.splits)
  have "hostSecretPath s \<noteq> statePath s" "hostSecretPath s \<noteq> bak (statePath s)" "hostSecretPath s \<noteq> roomSecretPath s"
    "hostSecretPath s \<noteq> temp_path (statePath s) n" "hostSecretPath s \<noteq> temp_path (bak (statePath s)) n"
    "hostSecretPath s \<noteq> temp_path (roomSecretPath s) n" for n
    by (simp_all add: hostSecretPath_def statePath_def roomSecretPath_def bak_def temp_path_def)
  note q = this
  have "fmlookup (d_files d3) (hostSecretPath s) = fmlookup (d_files d2) (hostSecretPath s)"
    by (rule Save_files(3) [OF 3 assms(2) q(1,2,4,5)])
  also have "\<dots> = fmlookup (d_files d1) (hostSecretPath s)" using secret_Save_files [OF 2] q(3,6) by blast
  also have "d_files d1 = d_files (r_disk s)"
    using 1 by (auto simp: secret_Load_def ReadFile_def Let_def dest!: os_call_files split: prod.splits option.splits sum.splits)
  finally show ?thesis by (simp add: s')
qed

section \<open>Callbacks that succeed\<close>

definition good_callbacks :: "'n callbacks \<Rightarrow> bool" where
  "good_callbacks cb \<longleftrightarrow> (\<forall>f. cb_startNetwork cb = Some f \<longrightarrow> (\<forall>c n. fst (f c n) = None))
     \<and> (\<forall>f. cb_applyPeer cb = Some f \<longrightarrow> (\<forall>l p n. fst (f l p n) = None))"

lemma call_net_good: "(\<And>f'. f = Some f' \<Longrightarrow> \<forall>n. fst (f' n) = None) \<Longrightarrow> \<exists>n. call_net f s = (None, s\<lparr>r_net := n\<rparr>)"
proof (cases f)
  case None
  show ?thesis unfolding call_net_def None by (rule exI [of _ "r_net s"]) simp
next
  case (Some f')
  moreover assume "\<And>f'. f = Some f' \<Longrightarrow> \<forall>n. fst (f' n) = None"
  ultimately show ?thesis by (auto simp: call_net_def split: prod.split) (metis fst_conv option.distinct(1))
qed

lemma apply_members_good:
  assumes "good_callbacks cb"
  shows "\<exists>n ps. apply_members cb ls s = (None, s\<lparr>r_memberPSKs := ps, r_net := n\<rparr>)
    \<and> (\<forall>k p. fmlookup (r_memberPSKs s) k = Some p \<longrightarrow> fmlookup ps k = Some p)"
proof (induction ls arbitrary: s)
  case Nil
  have "s = s\<lparr>r_memberPSKs := r_memberPSKs s, r_net := r_net s\<rparr>" by simp
  then show ?case by (intro exI [of _ "r_net s"] exI [of _ "r_memberPSKs s"]) simp
next
  case (Cons l ls)
  show ?case
  proof (cases "lease_Enabled l \<and> cb_applyPeer cb \<noteq> None")
    case True
    let ?psk = "case fmlookup (r_memberPSKs s) (lease_key l) of Some psk \<Rightarrow> psk | None \<Rightarrow> DerivePSK (r_roomKey s) (r_hostPublic s) (lease_key l)"
    let ?s = "s\<lparr>r_memberPSKs := fmupd (lease_key l) ?psk (r_memberPSKs s)\<rparr>"
    have "\<exists>n. applyPeer cb l ?psk ?s = (None, ?s\<lparr>r_net := n\<rparr>)"
      unfolding applyPeer_def by (rule call_net_good) (use assms in \<open>auto simp: good_callbacks_def\<close>)
    then obtain n where a: "applyPeer cb l ?psk ?s = (None, ?s\<lparr>r_net := n\<rparr>)" by blast
    obtain n' ps where ih: "apply_members cb ls (?s\<lparr>r_net := n\<rparr>) = (None, ?s\<lparr>r_net := n, r_memberPSKs := ps, r_net := n'\<rparr>)"
      "\<forall>k p. fmlookup (r_memberPSKs ?s) k = Some p \<longrightarrow> fmlookup ps k = Some p"
      using Cons.IH [of "?s\<lparr>r_net := n\<rparr>"] by auto
    have "apply_members cb (l # ls) s = (None, s\<lparr>r_memberPSKs := ps, r_net := n'\<rparr>)"
      using True a ih(1) by (simp add: Let_def)
    moreover have "fmlookup (r_memberPSKs s) k = Some p \<Longrightarrow> fmlookup ps k = Some p" for k p
      using ih(2) by (auto split: if_splits option.splits)
    ultimately show ?thesis by blast
  next
    case False
    then show ?thesis using Cons.IH [of s] by auto
  qed
qed

section \<open>Restart\<close>

definition persisted_as :: "'n room \<Rightarrow> disk \<Rightarrow> bool" where
  "persisted_as s d \<longleftrightarrow> d_script d = [] \<and> file_room (d_files d) (statePath s) = Some (room_record s)
     \<and> file_secret (d_files d) (roomSecretPath s) = Some (roomSecret (r_roomKey s) (r_memberPSKs s))"

text \<open>\<open>Start\<close> in two parts: the room it reads, and the last steps from that room.\<close>

definition read_room :: "room_rec \<Rightarrow> arr12 \<Rightarrow> (arr32, arr32) fmap \<Rightarrow> KeyPair \<Rightarrow> lease list \<Rightarrow> allocator \<Rightarrow> 'n room \<Rightarrow> 'n room" where
  "read_room persisted roomKey psks hostKey leasing allocator s = (reset_members s)\<lparr>r_fixedRoom := True, r_fixedHost := True,
            r_joinEnabled := rs_JoinEnabled persisted, r_hostUID := rs_HostUID persisted,
            r_pairPort := rs_PairPort persisted, r_wgPort := rs_WireGuardPort persisted,
            r_relayPort := rs_RelayPort persisted, r_roomID := rs_RoomID persisted, r_roomKey := roomKey,
            r_hostPrivate := kp_Private hostKey, r_hostPublic := kp_Public hostKey, r_allocator := Some allocator,
            r_memberPSKs := psks, r_blockedUIDs := stringSet (rs_BlockedUIDs persisted),
            r_memberStates := foldl (\<lambda>m item. fmupd (lease_key item) ''offline'' m) fmempty leasing\<rparr>"

definition start_tail :: "'n callbacks \<Rightarrow> goerror option \<Rightarrow> lease list \<Rightarrow> 'n room \<Rightarrow> room_snapshot result \<times> 'n room" where
  "start_tail cb listen_err leasing s = (let (err, s) = start_network cb s in
     (case err of
        Some e \<Rightarrow> (Inl e, s)
      | None \<Rightarrow>
     (let (err, s) = apply_members cb leasing s in
     (case err of
        Some e \<Rightarrow> (Inl e, snd (stopNetwork cb (clearLocked s)))
      | None \<Rightarrow>
     (let (err, s) = persistRoomSecretLocked s in
     (case err of
        Some e \<Rightarrow> (Inl e, snd (stopNetwork cb (clearLocked s)))
      | None \<Rightarrow>
     (let (err, s) = listenLocked cb listen_err s in
     (case err of
        Some e \<Rightarrow> (Inl e, snd (stopNetwork cb (clearLocked s)))
      | None \<Rightarrow>
     (let s = s\<lparr>r_running := True\<rparr> in (Inr (snapshotLocked s), s))))))))))"

lemma Start_reads:
  assumes "\<not> r_running s" "on_disk (Load (statePath s)) s = (Inr persisted, s1)"
    "on_disk (secret_Load (roomSecretPath s1)) s1 = (Inr secretData, s2)" "parseRoomSecret secretData = Inr (roomKey, psks)"
    "on_disk (LoadOrCreate (hostSecretPath s2) True random) s2 = (Inr hostKey, s3)"
    "leasesFromState (rs_Members persisted) = Inr leasing" "New leasing = Inr allocator"
  shows "room_Start cb random listen_err s =
    start_tail cb listen_err leasing (read_room persisted roomKey psks hostKey leasing allocator s3)"
  unfolding room_Start_def if_not_P [OF assms(1)] assms(2-) prod.case sum.case
  by (simp only: Let_def start_tail_def read_room_def)

lemma Start_tail_ok:
  assumes cb: "good_callbacks cb" and script: "d_script (r_disk s) = []"
    and key: "r_roomKey s \<noteq> 0" "r_hostPublic s \<noteq> 0" and ports: "r_wgPort s \<noteq> 0" "r_relayPort s \<noteq> 0"
  shows "\<exists>ps n d t. t = s\<lparr>r_memberPSKs := ps, r_net := n, r_disk := d, r_server := True, r_running := True\<rparr>
    \<and> (\<forall>k p. fmlookup (r_memberPSKs s) k = Some p \<longrightarrow> fmlookup ps k = Some p)
    \<and> start_tail cb None leasing s = (Inr (snapshotLocked t), t)"
proof -
  have "\<exists>n. call_net (map_option (\<lambda>f. f (networkConfigLocked s)) (cb_startNetwork cb)) s = (None, s\<lparr>r_net := n\<rparr>)"
    by (rule call_net_good) (use cb in \<open>auto simp: good_callbacks_def\<close>)
  then obtain n where 6: "start_network cb s = (None, s\<lparr>r_net := n\<rparr>)" by (auto simp: start_network_def)
  from apply_members_good [OF cb, of leasing "s\<lparr>r_net := n\<rparr>"] obtain n' ps where
    7: "apply_members cb leasing (s\<lparr>r_net := n\<rparr>) = (None, s\<lparr>r_net := n, r_memberPSKs := ps, r_net := n'\<rparr>)"
    and ps: "\<forall>k p. fmlookup (r_memberPSKs s) k = Some p \<longrightarrow> fmlookup ps k = Some p" by auto
  let ?u = "s\<lparr>r_memberPSKs := ps, r_net := n'\<rparr>"
  have u: "s\<lparr>r_net := n, r_memberPSKs := ps, r_net := n'\<rparr> = ?u" by simp
  have ne: "roomSecret (r_roomKey ?u) ps \<noteq> []" by (simp add: roomSecret_def bytes_of_def json_items_def)
  obtain d' where "secret_Save (roomSecretPath ?u) (roomSecret (r_roomKey ?u) ps) (r_disk ?u) = (None, d')"
    using secret_Save_ok [OF _ ne, of "r_disk ?u" "roomSecretPath ?u"] script by auto
  then have 8: "persistRoomSecretLocked ?u = (None, ?u\<lparr>r_disk := d'\<rparr>)"
    by (simp add: persistRoomSecretLocked_def on_disk_def)
  have 9: "listenLocked cb None (?u\<lparr>r_disk := d'\<rparr>) = (None, ?u\<lparr>r_disk := d', r_server := True\<rparr>)"
    using key ports by (simp add: listenLocked_def Listen_def room_config_def)
  show ?thesis
    by (intro exI conjI, rule refl, rule ps) (simp add: start_tail_def 6 7 [unfolded u] 8 9 Let_def)
qed

lemma restart:
  assumes inv: "room_inv s" and disk: "persisted_as s (r_disk t)" and dir: "r_dataDir t = r_dataDir s"
    and valid: "validate (room_record s) = None" and stopped: "\<not> r_running t"
    and host: "file_secret (d_files (r_disk t)) (hostSecretPath t) = Some (be_bytes hostKey)" "x25519_base hostKey \<noteq> 0"
    and key: "r_roomKey s \<noteq> 0" and cb: "good_callbacks cb"
  shows "\<exists>t'. room_Start cb random None t = (Inr (snapshotLocked t'), t') \<and> r_running t' \<and> leases_of t' = leases_of s
    \<and> (\<forall>k p. fmlookup (r_memberPSKs s) k = Some p \<longrightarrow> fmlookup (r_memberPSKs t') k = Some p)
    \<and> r_blockedUIDs t' = r_blockedUIDs s \<and> r_roomKey t' = r_roomKey s \<and> r_joinEnabled t' = r_joinEnabled s
    \<and> r_hostUID t' = r_hostUID s \<and> r_pairPort t' = r_pairPort s \<and> r_wgPort t' = r_wgPort s
    \<and> r_relayPort t' = r_relayPort s \<and> r_hostPrivate t' = hostKey"
proof -
  let ?d = "r_disk t"
  have same: "t\<lparr>r_disk := ?d\<rparr> = t" by simp
  have paths: "statePath t = statePath s" "roomSecretPath t = roomSecretPath s"
    by (simp_all add: statePath_def roomSecretPath_def dir)
  have script: "d_script ?d = []" using disk by (simp add: persisted_as_def)
  have "fst (loadOne (statePath s) ?d) = Inr (room_record s)"
    unfolding loadOne_no_script(2) [OF script] using disk by (simp only: persisted_as_def)
  then have "loadOne (statePath s) ?d = (Inr (room_record s), ?d)"
    using loadOne_no_script(1) [OF script, of "statePath s"] by (cases "loadOne (statePath s) ?d") simp
  then have 1: "on_disk (Load (statePath t)) t = (Inr (room_record s), t)"
    by (simp add: on_disk_def Load_def paths)
  have m: "secret_Load (roomSecretPath s) ?d = (Inr (roomSecret (r_roomKey s) (r_memberPSKs s)), ?d)"
    by (rule secret_Load_ok [OF script]) (use disk in \<open>simp only: persisted_as_def\<close>)
  then have 2: "on_disk (secret_Load (roomSecretPath t)) t = (Inr (roomSecret (r_roomKey s) (r_memberPSKs s)), t)"
    by (simp add: on_disk_def paths)
  have 3: "on_disk (LoadOrCreate (hostSecretPath t) True random) t = (Inr (fromECDH hostKey), t)"
    by (simp add: on_disk_def LoadOrCreate_def secret_Load_ok [OF script host(1)] FromPrivate_def)
  have ok: "alloc_ok (the_alloc s)" by (rule room_inv_alloc [OF inv])
  have 4: "leasesFromState (rs_Members (room_record s)) = Inr (Snapshot (the_alloc s))"
    unfolding room_record_def room_rec.select_convs
    by (rule leasesFromState_made) (use alloc_invD(7) [OF alloc_okD [OF ok]] in \<open>force simp: set_Snapshot\<close>)
  obtain a where 5: "New (Snapshot (the_alloc s)) = Inr a" "byKey a = byKey (the_alloc s)"
    using New_Snapshot [OF alloc_okD [OF ok]] by blast
  let ?r = "room_record s" and ?kp = "fromECDH hostKey"
  define s1 where s1: "s1 = read_room ?r (r_roomKey s) (r_memberPSKs s) ?kp (Snapshot (the_alloc s)) a t"
  have v: "rs_WireGuardPort ?r \<noteq> 0" "rs_RelayPort ?r \<noteq> 0" using valid by (auto simp: validate_def split: if_splits)
  have "d_script (r_disk s1) = []" "r_roomKey s1 \<noteq> 0" "r_hostPublic s1 \<noteq> 0" "r_wgPort s1 \<noteq> 0" "r_relayPort s1 \<noteq> 0"
    using script key host(2) v by (simp_all add: s1 read_room_def reset_members_def fromECDH_def)
  from Start_tail_ok [OF cb this, of "Snapshot (the_alloc s)"] obtain ps n d t' where
    t': "t' = s1\<lparr>r_memberPSKs := ps, r_net := n, r_disk := d, r_server := True, r_running := True\<rparr>"
    and ps: "\<forall>k p. fmlookup (r_memberPSKs s1) k = Some p \<longrightarrow> fmlookup ps k = Some p"
    and S: "start_tail cb None (Snapshot (the_alloc s)) s1 = (Inr (snapshotLocked t'), t')" by (elim exE conjE) (rule that)
  have "room_Start cb random None t = (Inr (snapshotLocked t'), t')"
    unfolding Start_reads [OF stopped 1 2 parseRoomSecret_made 3 4 5(1)] s1 [symmetric] by (rule S)
  moreover have "r_blockedUIDs t' = r_blockedUIDs s"
    using stringSet_sorted [OF room_inv_blocked [OF inv]] by (simp add: t' s1 read_room_def room_record_def)
  moreover have "leases_of t' = leases_of s" using 5(2) by (simp add: leases_of_def the_alloc_def t' s1 read_room_def)
  moreover have "r_running t'" "r_roomKey t' = r_roomKey s" "r_joinEnabled t' = r_joinEnabled s" "r_hostUID t' = r_hostUID s"
    "r_pairPort t' = r_pairPort s" "r_wgPort t' = r_wgPort s" "r_relayPort t' = r_relayPort s" "r_hostPrivate t' = hostKey"
    "r_memberPSKs t' = ps" "r_memberPSKs s1 = r_memberPSKs s"
    by (simp_all add: t' s1 read_room_def room_record_def fromECDH_def)
  ultimately show ?thesis using ps by (intro exI [of _ t']) simp
qed

text \<open>A service on the directory of a room that \<open>persistLocked\<close> has written.\<close>

lemma restart_written:
  assumes inv: "room_inv s" and p: "persistLocked s = (None, s')" and utf: "room_text_ok (room_record s)"
    and host: "file_secret (d_files (r_disk s)) (hostSecretPath s) = Some (be_bytes hostKey)" and key: "r_roomKey s \<noteq> 0"
    and cb: "good_callbacks cb" and ne: "x25519_base hostKey \<noteq> 0"
    and t: "t = room_New (r_dataDir s) uid wgPort relayPort \<lparr>d_files = d_files (r_disk s'), d_script = []\<rparr> net"
  shows "\<exists>t'. room_Start cb random None t = (Inr (snapshotLocked t'), t') \<and> r_running t' \<and> leases_of t' = leases_of s
    \<and> (\<forall>k p. fmlookup (r_memberPSKs s) k = Some p \<longrightarrow> fmlookup (r_memberPSKs t') k = Some p)
    \<and> r_blockedUIDs t' = r_blockedUIDs s \<and> r_roomKey t' = r_roomKey s \<and> r_joinEnabled t' = r_joinEnabled s
    \<and> r_hostUID t' = r_hostUID s \<and> r_pairPort t' = r_pairPort s \<and> r_wgPort t' = r_wgPort s
    \<and> r_relayPort t' = r_relayPort s \<and> r_hostPrivate t' = hostKey"
proof (rule restart [OF inv _ _ _ _ _ ne key cb])
  note f = persist_files [OF p utf]
  show "persisted_as s (r_disk t)" using f(1,2) by (simp add: persisted_as_def t room_New_def)
  show "validate (room_record s) = None" by (rule f(3))
  have "hostSecretPath t = hostSecretPath s" by (simp add: t room_New_def hostSecretPath_def)
  then show "file_secret (d_files (r_disk t)) (hostSecretPath t) = Some (be_bytes hostKey)"
    using host persist_keeps_host [OF p f(3)] by (simp add: t room_New_def file_secret_def)
qed (simp_all add: t room_New_def)

end
