(* ===== verification/Core_Laws.thy ===== *)
theory Core_Laws
  imports Core_Session Openp2p_Laws Room_Pairing Room_Restart
begin

text \<open>
  Laws of the runtime: what holds of its state in every interleaving of its calls, what a \<open>Join\<close> leaves
  behind when it fails, and what the deferred \<open>Leave\<close> of one \<open>Join\<close> does to another.
\<close>

section \<open>A pairing with a callback\<close>

lemma run_pairing_result:
  "fst (run_pairing env authKey key uid name configure s) =
     snd (pairWithSession (env\<lparr>ce_configure := Some (\<lambda>r. fst (configure r s))\<rparr>) authKey key uid name)"
  by (simp add: run_pairing_def pairWithSession_def Let_def case_prod_beta split: sum.split option.split)

lemma run_pairing_state:
  "snd (run_pairing env authKey key uid name configure s) = s
   \<or> (\<exists>result. snd (run_pairing env authKey key uid name configure s) = snd (configure result s))"
  by (auto simp: run_pairing_def Let_def case_prod_beta split: sum.split option.split)

section \<open>Steps\<close>

text \<open>
  Every critical section, with any local data: a run of the program is a sequence of these, whatever
  calls are in progress and however they interleave.
\<close>

inductive runtime_step :: "'w outside \<Rightarrow> 'w runtime \<Rightarrow> 'w runtime \<Rightarrow> bool" for out where
  starting: "runtime_step out r (snd (net_start out now config r))"
| stopping: "runtime_step out r (snd (net_stop out r))"
| applying: "runtime_step out r (snd (net_applyPeer out l psk r))"
| dropping: "runtime_step out r (snd (net_removePeer out key r))"
| entering: "runtime_step out r (snd (join_enter ctx r))"
| preparing: "runtime_step out r (snd (join_prepare out jenv options ctx r))"
| pairing: "runtime_step out r (snd (snd (join_attempt out env (j, r))))"
| saving: "runtime_step out r (snd (join_save j paired r))"
| going_online: "runtime_step out r (snd (join_online j result control ctx r))"
| taking: "runtime_step out r (snd (leave_take r))"
| leaving: "runtime_step out r (snd (leave_finish out l r))"
| cancelling: "runtime_step out r (r\<lparr>rt_cancelled := finsert ctx (rt_cancelled r)\<rparr>)"
| reporting: "runtime_step out r (snd (sync_report out uid r))"
| synced: "runtime_step out r (snd (sync_done y devices r))"
| repaired: "runtime_step out r (snd (snd (sync_paired y err session r)))"
| switching_on: "runtime_step out r (snd (StartOpenP2P out running r))"
| switching_off: "runtime_step out r (snd (StopOpenP2P out running r))"
| configuring: "runtime_step out r (snd (ReplaceConfig out config running r))"
| tunnelling: "runtime_step out r (snd (ReplaceTunnels out apps running r))"
| engine: "runtime_step out r (stateFor run v r)"
| refreshing: "runtime_step out r (r\<lparr>rt_statsAt := now, rt_world := w\<rparr>)"

text \<open>
  Nothing of a session outlives it, the relay runs exactly with the host's manager, and the client and
  the plain engine are never on together.
\<close>

definition session_inv :: "'w runtime \<Rightarrow> bool" where
  "session_inv r \<longleftrightarrow>
     (\<not> rt_session r \<longrightarrow> rt_client r = None \<and> rt_control r = None \<and> rt_clientCancel r = None \<and> rt_joinCancel r = None
        \<and> rt_clientDevices r = [] \<and> rt_clientIP r = AddrZero)
     \<and> (rt_manager r = None \<longleftrightarrow> rt_relay r = None)
     \<and> \<not> (rt_session r \<and> rt_ordinary r)"

text \<open>Steps that only touch the world, the disk, the engine and the lifecycle.\<close>

definition same_session :: "'w runtime \<Rightarrow> 'w runtime \<Rightarrow> bool" where
  "same_session r t \<longleftrightarrow> rt_session t = rt_session r \<and> rt_client t = rt_client r \<and> rt_control t = rt_control r
     \<and> rt_clientCancel t = rt_clientCancel r \<and> rt_joinCancel t = rt_joinCancel r \<and> rt_clientDevices t = rt_clientDevices r
     \<and> rt_clientIP t = rt_clientIP r \<and> rt_manager t = rt_manager r \<and> rt_relay t = rt_relay r \<and> rt_ordinary t = rt_ordinary r
     \<and> rt_configPath t = rt_configPath r \<and> rt_dataDir t = rt_dataDir r"

lemma same_session_refl [simp]: "same_session r r"
  by (simp add: same_session_def)

lemma same_session_trans [trans]: "same_session r s \<Longrightarrow> same_session s t \<Longrightarrow> same_session r t"
  by (simp add: same_session_def)

lemma same_session_inv: "same_session r t \<Longrightarrow> session_inv r \<Longrightarrow> session_inv t"
  by (simp add: same_session_def session_inv_def)

lemma same_lifecycle [simp]: "same_session r (setLifecycle v t) \<longleftrightarrow> same_session r t"
  "same_session r (setMode v t) \<longleftrightarrow> same_session r t"
  by (simp_all add: setLifecycle_def setMode_def same_session_def)

lemma same_state [simp]: "same_session r (onProcessState v t) \<longleftrightarrow> same_session r t"
  by (simp add: onProcessState_def Let_def setLifecycle_def same_session_def)

lemma same_updates [simp]:
  "same_session r (t\<lparr>rt_world := w\<rparr>) \<longleftrightarrow> same_session r t" "same_session r (t\<lparr>rt_disk := d\<rparr>) \<longleftrightarrow> same_session r t"
  "same_session r (t\<lparr>rt_cancelled := A\<rparr>) \<longleftrightarrow> same_session r t" "same_session r (t\<lparr>rt_closed := A\<rparr>) \<longleftrightarrow> same_session r t"
  "same_session r (t\<lparr>rt_moduleRun := b\<rparr>) \<longleftrightarrow> same_session r t" "same_session r (t\<lparr>rt_moduleID := n\<rparr>) \<longleftrightarrow> same_session r t"
  "same_session r (t\<lparr>rt_joinError := e\<rparr>) \<longleftrightarrow> same_session r t" "same_session r (t\<lparr>rt_statsAt := i\<rparr>) \<longleftrightarrow> same_session r t"
  "same_session r (t\<lparr>rt_lifecycle := v\<rparr>) \<longleftrightarrow> same_session r t" "same_session r (t\<lparr>rt_mode := v\<rparr>) \<longleftrightarrow> same_session r t"
  by (simp_all add: same_session_def)

lemma same_calls [simp]:
  "same_session r (snd (on_world f t)) \<longleftrightarrow> same_session r t" "same_session r (snd (in_files g t)) \<longleftrightarrow> same_session r t"
  "same_session r (snd (engine_Start out t)) \<longleftrightarrow> same_session r t" "same_session r (snd (engine_Stop out t)) \<longleftrightarrow> same_session r t"
  "same_session r (snd (engine_AddApp out app t)) \<longleftrightarrow> same_session r t"
  "same_session r (snd (close_manager out m t)) \<longleftrightarrow> same_session r t"
  by (simp_all add: on_world_def in_files_def engine_Start_def engine_Stop_def engine_AddApp_def close_manager_def Let_def
      case_prod_beta split: option.split prod.split)

lemma same_calls2 [simp]:
  "same_session r (snd (restartOpenP2P out t)) \<longleftrightarrow> same_session r t" "same_session r (snd (settle errs t)) \<longleftrightarrow> same_session r t"
  "same_session r (stateFor run v t) \<longleftrightarrow> same_session r t" "same_session r (snd (net_failed e t)) \<longleftrightarrow> same_session r t"
  by (simp_all add: restartOpenP2P_def settle_def stateFor_def net_failed_def Let_def case_prod_beta split: option.split)

lemma same_after:
  "on_world f t = (v, t') \<Longrightarrow> same_session r t \<Longrightarrow> same_session r t'"
  "in_files g t = (u, t') \<Longrightarrow> same_session r t \<Longrightarrow> same_session r t'"
  "engine_Start out t = (e, t') \<Longrightarrow> same_session r t \<Longrightarrow> same_session r t'"
  "engine_AddApp out app t = (e, t') \<Longrightarrow> same_session r t \<Longrightarrow> same_session r t'"
  using same_calls(1) [of r f t] same_calls(2) [of r g t] same_calls(3) [of r out t] same_calls(5) [of r out app t] by simp_all

text \<open>The operations that keep the session as it is.\<close>

lemma same_operations:
  "same_session r (snd (net_applyPeer out l psk r))" "same_session r (snd (net_removePeer out key r))"
  "same_session r (snd (join_save j paired r))" "same_session r (snd (leave_finish out ld r))"
  "same_session r (snd (sync_report out uid r))" "same_session r (snd (ReplaceConfig out config running r))"
  "same_session r (snd (ReplaceTunnels out apps running r))"
proof -
  show "same_session r (snd (net_applyPeer out l psk r))" "same_session r (snd (net_removePeer out key r))"
    by (simp_all add: net_applyPeer_def net_removePeer_def Let_def case_prod_beta split: option.split)
  show "same_session r (snd (join_save j paired r))"
    by (simp add: join_save_def Let_def case_prod_beta split: sum.split option.split)
  show "same_session r (snd (leave_finish out ld r))"
    by (simp add: leave_finish_def Let_def case_prod_beta)
  show "same_session r (snd (sync_report out uid r))"
    by (simp add: sync_report_def Let_def case_prod_beta split: option.split)
  show "same_session r (snd (ReplaceConfig out config running r))"
    by (simp add: ReplaceConfig_def Let_def case_prod_beta split: sum.split option.split)
  show "same_session r (snd (ReplaceTunnels out apps running r))"
    by (simp add: ReplaceTunnels_def Let_def case_prod_beta split: option.split)
qed

lemma join_prepare_same: "same_session r (snd (join_prepare out env options ctx r))"
  by (simp add: join_prepare_def Let_def case_prod_beta split: sum.split option.split)

text \<open>A host's manager is only installed where there is neither a client nor the plain engine.\<close>

lemma net_start_cases:
  obtains (kept) "same_session r (snd (net_start out now config r))" "fst (net_start out now config r) \<noteq> None"
  | (hosting) m relay r1 where "same_session r r1" "rt_manager r = None" "\<not> rt_session r" "\<not> rt_ordinary r"
      "net_start out now config r = (None, setLifecycle ''listening'' (r1\<lparr>rt_manager := Some m, rt_relay := Some relay\<rparr>))"
proof -
  let ?r1 = "setLifecycle ''starting_openp2p'' (setMode ''host'' r)"
  obtain e2 r2 where 2: "in_files (ClearInternal (rt_configPath ?r1)) ?r1 = (e2, r2)" by fastforce
  obtain e3 r3 where 3: "engine_Start out r2 = (e3, r3)" by fastforce
  let ?r4 = "setLifecycle ''starting_wireguard'' r3"
  let ?o = "\<lparr>so_PrivateKey = nc_PrivateKey config, so_LocalIP = nc_LocalIP config, so_ListenPort = nc_ListenPort config,
      so_RelayPort = nc_RelayPort config, so_Host = True, so_OnDiscovery = True\<rparr>"
  obtain m r5 where 5: "on_world (wg_Start (ow_wg out) ?o) ?r4 = (m, r5)" by fastforce
  have s2: "same_session r r2" by (rule same_after(2) [OF 2]) simp
  have s3: "same_session r r3" by (rule same_after(3) [OF 3 s2])
  have s5: "same_session r r5" by (rule same_after(1) [OF 5]) (simp add: s3)
  have s6: "same_session r (snd (start_relay out p x now r5))" for p x
    using s5 by (simp add: start_relay_def Let_def case_prod_beta)
  note d = net_start_def [of out now config r, unfolded Let_def 2 prod.case 3 5]
  consider (refused) "rt_manager r \<noteq> None \<or> rt_session r \<or> rt_ordinary r"
    | (early) "rt_manager r = None" "\<not> rt_session r" "\<not> rt_ordinary r" "e2 \<noteq> None \<or> e3 \<noteq> None"
    | (late) "rt_manager r = None" "\<not> rt_session r" "\<not> rt_ordinary r" "e2 = None" "e3 = None" by blast
  then show thesis
  proof cases
    case refused
    have "snd (net_start out now config r) = r \<and> fst (net_start out now config r) \<noteq> None" unfolding d using refused by (elim disjE) simp_all
    then show thesis using kept by simp
  next
    case early
    have "net_start out now config r = net_failed errNotReady (if e2 \<noteq> None then r2 else r3)"
      unfolding d using early by (cases "e2 = None") simp_all
    then show thesis using kept s2 s3 by (simp add: net_failed_def)
  next
    case late
    show thesis
    proof (cases m)
      case (Inl e)
      have "net_start out now config r = net_failed errWireGuardFailed (snd (engine_Stop out r5))" unfolding d using late Inl by simp
      then show thesis using kept s5 by (simp add: net_failed_def)
    next
      case (Inr x)
      obtain rel r6 where 6: "start_relay out (nc_RelayPort config) x now r5 = (rel, r6)" by fastforce
      have s: "same_session r r6" using s6 [of "nc_RelayPort config" x] 6 by simp
      show thesis
      proof (cases rel)
        case (Inl e)
        obtain w where "net_start out now config r = net_failed errWireGuardFailed (snd (engine_Stop out (r6\<lparr>rt_world := w\<rparr>)))"
          unfolding d using late Inr Inl by (simp add: 6 case_prod_beta)
        then show thesis using kept s by (simp add: net_failed_def)
      next
        case p: (Inr p)
        have "net_start out now config r = (None, setLifecycle ''listening'' (r6\<lparr>rt_manager := Some x, rt_relay := Some (snd p)\<rparr>))"
          unfolding d using late Inr p by (simp add: 6 case_prod_beta)
        then show thesis using hosting s late by blast
      qed
    qed
  qed
qed

lemma join_configure_cases:
  obtains (kept) "same_session (snd jr) (snd (snd (join_configure out result jr)))" "fst (join_configure out result jr) \<noteq> None"
      "jd_configured (fst (snd (join_configure out result jr))) = jd_configured (fst jr)"
  | (installed) m r1 where "same_session (snd jr) r1" "rt_session r1"
      "snd (snd (join_configure out result jr)) = r1\<lparr>rt_client := Some m, rt_clientIP := pr_AssignedIP result\<rparr>"
      "fst (join_configure out result jr) = None" "jd_configured (fst (snd (join_configure out result jr)))"
proof -
  obtain j r where jr: "jr = (j, r)" by fastforce
  let ?app = "WireGuardApp (HostUID (jd_invite j)) (pr_WireGuardPort result) (jd_wgPort j)"
  obtain e1 r1 where 1: "in_files (SetInternal (rt_configPath r) [jd_pairApp j, ?app]) r = (e1, r1)" by fastforce
  obtain e2 r2 where 2: "engine_AddApp out ?app r1 = (e2, r2)" by fastforce
  let ?o = "\<lparr>so_PrivateKey = kp_Private (jd_identity j), so_LocalIP = pr_AssignedIP result,
            so_ListenPort = 0, so_RelayPort = pr_DiscoveryRelayPort result, so_Host = False, so_OnDiscovery = False\<rparr>"
  obtain m r3 where 3: "on_world (wg_Start (ow_wg out) ?o) r2 = (m, r3)" by fastforce
  have s1: "same_session r r1" by (rule same_after(2) [OF 1]) simp
  have s2: "same_session r r2" by (rule same_after(4) [OF 2 s1])
  have s3: "same_session r r3" by (rule same_after(1) [OF 3 s2])
  show thesis
  proof (cases "e1 \<noteq> None \<or> e2 \<noteq> None \<or> (\<exists>e. m = Inl e)")
    case True
    with s1 s2 s3 kept show thesis by (auto simp: join_configure_def jr 1 2 3 Let_def split: option.splits)
  next
    case False
    then obtain x where x: "e1 = None" "e2 = None" "m = Inr x" by (cases m) auto
    let ?j = "if jd_membership j then j
               else j\<lparr>jd_psk := DerivePSK (RoomKey (jd_invite j)) (pr_HostPublicKey result) (kp_Public (jd_identity j))\<rparr>"
    obtain e4 r4 where 4: "on_world (SetPeer (ow_wg out) (host_peer result (jd_psk ?j) (jd_wgPort ?j)) True x) r3 = (e4, r4)" by fastforce
    have s4: "same_session r r4" by (rule same_after(1) [OF 4 s3])
    have d: "join_configure out result jr = (case e4 of Some _ \<Rightarrow> (Some errWireGuardUpdate, ?j, snd (close_manager out (Some x) r4))
        | None \<Rightarrow> install_client out result x (?j, r4))"
      unfolding join_configure_def jr using x by (simp add: 1 2 3 4 Let_def)
    have c: "jd_configured ?j = jd_configured j" by simp
    consider "e4 \<noteq> None \<or> \<not> rt_session r4" | "e4 = None" "rt_session r4" by blast
    then show thesis
    proof cases
      case 1
      with s4 c kept show thesis unfolding d by (auto simp: install_client_def jr split: option.splits)
    next
      case 2
      then show thesis by (intro installed [of r4 x]) (use s4 in \<open>simp_all add: d [unfolded jr] install_client_def jr\<close>)
    qed
  qed
qed

section \<open>What every interleaving keeps\<close>

lemma session_inv_simps [simp]: "session_inv (setLifecycle v r) = session_inv r" "session_inv (setMode v r) = session_inv r"
  "session_inv (r\<lparr>rt_cancelled := A\<rparr>) = session_inv r" "session_inv (r\<lparr>rt_closed := A\<rparr>) = session_inv r"
  "session_inv (r\<lparr>rt_joinError := e\<rparr>) = session_inv r"
  by (simp_all add: session_inv_def setLifecycle_def setMode_def)

lemma net_start_inv: "session_inv r \<Longrightarrow> session_inv (snd (net_start out now config r))"
  by (cases rule: net_start_cases [of r out now config])
    (simp_all add: same_session_inv, simp add: session_inv_def same_session_def)

lemma net_stop_inv: "session_inv r \<Longrightarrow> session_inv (snd (net_stop out r))"
proof -
  assume inv: "session_inv r"
  let ?r = "(setLifecycle ''stopping'' r)\<lparr>rt_manager := None, rt_relay := None\<rparr>"
  have "session_inv ?r" using inv by (simp add: session_inv_def setLifecycle_def)
  moreover have "same_session ?r (snd (net_stop out r))"
    by (simp add: net_stop_def Let_def case_prod_beta)
  ultimately show ?thesis using same_session_inv by blast
qed

lemma join_attempt_inv:
  assumes "session_inv r"
  shows "session_inv (snd (snd (join_attempt out env (j, r))))"
proof -
  have c: "session_inv (snd (snd (join_configure out result (j, r))))" for result
    by (cases rule: join_configure_cases [of "(j, r)" out result])
      (use assms same_session_inv in \<open>force, simp add: session_inv_def same_session_def\<close>)
  have "session_inv (snd (snd (run_pairing env key pub uid name (join_configure out) (j, r))))" for key pub uid name
    using run_pairing_state [of env key pub uid name "join_configure out" "(j, r)"] c assms by auto
  then show ?thesis
    by (simp add: join_attempt_def Let_def case_prod_beta split: sum.split)
qed

lemma other_inv:
  assumes "session_inv r"
  shows "session_inv (snd (join_enter ctx r))" "session_inv (snd (join_online j result control ctx r))"
    "session_inv (snd (leave_take r))" "session_inv (snd (sync_done y devices r))"
    "session_inv (snd (snd (sync_paired y err session r)))" "session_inv (snd (StartOpenP2P out running r))"
    "session_inv (snd (StopOpenP2P out running r))" "session_inv (stateFor run v r)"
proof -
  show "session_inv (snd (join_enter ctx r))" "session_inv (snd (join_online j result control ctx r))"
    "session_inv (snd (leave_take r))"
    using assms by (auto simp: session_inv_def join_enter_def join_online_def leave_take_def setLifecycle_def setMode_def)
  show "session_inv (snd (sync_done y devices r))" "session_inv (snd (snd (sync_paired y err session r)))"
    using assms by (auto simp: session_inv_def sync_done_def sync_paired_def setLifecycle_def Let_def split: sum.split option.split)
  show "session_inv (stateFor run v r)" using same_session_inv [OF _ assms] by simp
  show "session_inv (snd (StartOpenP2P out running r))"
  proof (cases "running \<or> rt_session r \<or> rt_ordinary r")
    case True
    then show ?thesis using assms by (auto simp: StartOpenP2P_def)
  next
    case False
    let ?r = "r\<lparr>rt_ordinary := True\<rparr>"
    obtain e r1 where 1: "engine_Start out (setLifecycle ''starting_openp2p'' (setMode ''ordinary'' ?r)) = (e, r1)" by fastforce
    have "same_session ?r r1" by (rule same_after(3) [OF 1]) simp
    moreover have "snd (StartOpenP2P out running r) =
        (case e of None \<Rightarrow> r1 | Some _ \<Rightarrow> setLifecycle ''faulted'' (setMode ''idle'' (r1\<lparr>rt_ordinary := False\<rparr>)))"
      using False by (simp add: StartOpenP2P_def 1 split: option.split)
    ultimately show ?thesis
      using assms False by (auto simp: session_inv_def [of r1] session_inv_def [of r] session_inv_def [of "r1\<lparr>rt_ordinary := False\<rparr>"]
          same_session_def split: option.split)
  qed
  show "session_inv (snd (StopOpenP2P out running r))"
  proof -
    define r1 where r1: "r1 = snd (engine_Stop out (setLifecycle ''stopping'' r))"
    have s: "same_session r r1" by (simp add: r1)
    have "snd (StopOpenP2P out running r) \<in> {r, setLifecycle ''faulted'' r1, setLifecycle ''idle'' (setMode ''idle'' (r1\<lparr>rt_ordinary := False\<rparr>))}"
      by (simp add: StopOpenP2P_def Let_def case_prod_beta r1 split: option.split)
    moreover have "session_inv r1" by (rule same_session_inv [OF s assms])
    ultimately show ?thesis using assms by (auto simp: session_inv_def [of "r1\<lparr>rt_ordinary := False\<rparr>"] session_inv_def [of r1])
  qed
qed

lemma runtime_step_inv: "runtime_step out r t \<Longrightarrow> session_inv r \<Longrightarrow> session_inv t"
proof (induction rule: runtime_step.induct)
  case (refreshing r now w)
  then show ?case by (simp add: session_inv_def)
qed (simp_all add: net_start_inv net_stop_inv join_attempt_inv other_inv same_session_inv [OF same_operations(1)]
    same_session_inv [OF same_operations(2)] same_session_inv [OF same_operations(3)] same_session_inv [OF same_operations(4)]
    same_session_inv [OF same_operations(5)] same_session_inv [OF same_operations(6)] same_session_inv [OF same_operations(7)]
    same_session_inv [OF join_prepare_same])

lemma runtime_steps_inv: "(runtime_step out)\<^sup>*\<^sup>* r t \<Longrightarrow> session_inv r \<Longrightarrow> session_inv t"
  by (induction rule: rtranclp_induct) (auto intro: runtime_step_inv)

lemma core_New_inv: "core_New dataDir hostUID configPath verified random roomDisk d w = (Inr s, d') \<Longrightarrow> session_inv (r_net s)"
  by (auto simp: core_New_def Let_def case_prod_beta room_New_def session_inv_def split: option.splits sum.splits if_splits)

section \<open>A Join that fails\<close>

text \<open>What is left of a session after \<open>Leave\<close>.\<close>

definition no_session :: "'w runtime \<Rightarrow> bool" where
  "no_session r \<longleftrightarrow> \<not> rt_session r \<and> rt_client r = None \<and> rt_control r = None \<and> rt_clientCancel r = None
     \<and> rt_joinCancel r = None \<and> rt_clientDevices r = [] \<and> rt_clientIP r = AddrZero"

lemma Leave_session: "no_session (snd (Leave out r))" "rt_manager (snd (Leave out r)) = rt_manager r"
    "rt_ordinary (snd (Leave out r)) = rt_ordinary r"
  using same_operations(4) [where r = "snd (leave_take r)" and ld = "fst (leave_take r)" and out = out]
  by (simp_all add: Leave_def case_prod_beta Let_def no_session_def same_session_def) (simp_all add: leave_take_def)

definition same_logs :: "'w runtime \<Rightarrow> 'w runtime \<Rightarrow> bool" where
  "same_logs r t \<longleftrightarrow> rt_cancelled t = rt_cancelled r \<and> rt_closed t = rt_closed r"

lemma same_logs_simps [simp]: "same_logs r r" "same_logs r (setLifecycle v t) = same_logs r t" "same_logs r (setMode v t) = same_logs r t"
  "same_logs r (onProcessState v t) = same_logs r t" "same_logs r (t\<lparr>rt_world := w\<rparr>) = same_logs r t"
  "same_logs r (t\<lparr>rt_disk := d\<rparr>) = same_logs r t" "same_logs r (t\<lparr>rt_moduleRun := b\<rparr>) = same_logs r t"
  "same_logs r (t\<lparr>rt_moduleID := n\<rparr>) = same_logs r t"
  by (simp_all add: same_logs_def setLifecycle_def setMode_def onProcessState_def Let_def)

lemma same_logs_calls [simp]:
  "same_logs r (snd (on_world f t)) = same_logs r t" "same_logs r (snd (in_files g t)) = same_logs r t"
  "same_logs r (snd (engine_Start out t)) = same_logs r t" "same_logs r (snd (engine_Stop out t)) = same_logs r t"
  "same_logs r (snd (close_manager out m t)) = same_logs r t"
  by (simp_all add: on_world_def in_files_def engine_Start_def engine_Stop_def close_manager_def Let_def case_prod_beta
      split: option.split prod.split)

lemma same_logs_calls2 [simp]:
  "same_logs r (snd (restartOpenP2P out t)) = same_logs r t" "same_logs r (snd (settle errs t)) = same_logs r t"
  by (simp_all add: restartOpenP2P_def settle_def Let_def case_prod_beta split: option.split)

lemma leave_cancels:
  assumes "ld_active ld"
  shows "rt_cancelled (snd (leave_finish out ld r)) = finsert_opt (ld_cancelControl ld) (finsert_opt (ld_cancelJoin ld) (rt_cancelled r))"
    "rt_closed (snd (leave_finish out ld r)) = finsert_opt (ld_control ld) (rt_closed r)"
proof -
  let ?r = "(setLifecycle ''stopping'' r)\<lparr>rt_cancelled := finsert_opt (ld_cancelControl ld) (finsert_opt (ld_cancelJoin ld)
      (rt_cancelled (setLifecycle ''stopping'' r))), rt_closed := finsert_opt (ld_control ld) (rt_closed (setLifecycle ''stopping'' r))\<rparr>"
  have "same_logs ?r (snd (leave_finish out ld r))"
    using assms by (simp add: leave_finish_def Let_def case_prod_beta)
  then show "rt_cancelled (snd (leave_finish out ld r)) = finsert_opt (ld_cancelControl ld) (finsert_opt (ld_cancelJoin ld) (rt_cancelled r))"
    "rt_closed (snd (leave_finish out ld r)) = finsert_opt (ld_control ld) (rt_closed r)"
    by (simp_all add: same_logs_def setLifecycle_def)
qed

text \<open>The host's side is not touched by the client's.\<close>

definition same_host :: "'w runtime \<Rightarrow> 'w runtime \<Rightarrow> bool" where
  "same_host r t \<longleftrightarrow> rt_manager t = rt_manager r \<and> rt_relay t = rt_relay r \<and> rt_ordinary t = rt_ordinary r
     \<and> rt_configPath t = rt_configPath r \<and> rt_dataDir t = rt_dataDir r"

lemma same_host_refl [simp]: "same_host r r"
  by (simp add: same_host_def)

lemma same_host_trans: "same_host r s \<Longrightarrow> same_host s t \<Longrightarrow> same_host r t"
  by (simp add: same_host_def)

lemma same_session_host: "same_session r t \<Longrightarrow> same_host r t"
  by (simp add: same_session_def same_host_def)

lemma join_attempt_host: "same_host r (snd (snd (join_attempt out env (j, r))))"
  "rt_session r \<Longrightarrow> rt_session (snd (snd (join_attempt out env (j, r))))"
  "rt_control (snd (snd (join_attempt out env (j, r)))) = rt_control r"
  "rt_clientCancel (snd (snd (join_attempt out env (j, r)))) = rt_clientCancel r"
proof -
  let ?P = "\<lambda>r'. same_host r r' \<and> (rt_session r \<longrightarrow> rt_session r') \<and> rt_control r' = rt_control r \<and> rt_clientCancel r' = rt_clientCancel r"
  have c: "?P (snd (snd (join_configure out result (j, r))))" for result
    by (cases rule: join_configure_cases [of "(j, r)" out result]) (simp_all add: same_session_def same_host_def)
  have "?P (snd (snd (run_pairing env key pub uid name (join_configure out) (j, r))))" for key pub uid name
    using run_pairing_state [of env key pub uid name "join_configure out" "(j, r)"] c by (metis same_host_refl snd_conv)
  then have "?P (snd (snd (join_attempt out env (j, r))))"
    by (simp add: join_attempt_def Let_def case_prod_beta same_host_def split: sum.split)
  then show "same_host r (snd (snd (join_attempt out env (j, r))))"
    "rt_session r \<Longrightarrow> rt_session (snd (snd (join_attempt out env (j, r))))"
    "rt_control (snd (snd (join_attempt out env (j, r)))) = rt_control r"
    "rt_clientCancel (snd (snd (join_attempt out env (j, r)))) = rt_clientCancel r" by blast+
qed

lemma join_loop_host: "join_loop out turns (j, r) = Some (paired, j', r') \<Longrightarrow> same_host r r' \<and> (rt_session r \<longrightarrow> rt_session r')"
proof (induction turns arbitrary: j r)
  case (Cons turn turns)
  obtain env stopped where t: "turn = (env, stopped)" by fastforce
  obtain n j1 r1 where a: "join_attempt out env (j, r) = (n, j1, r1)" by (metis prod.collapse)
  have h: "same_host r r1" "rt_session r \<Longrightarrow> rt_session r1" using join_attempt_host [where r = r and out = out and env = env and j = j] a by simp_all
  from Cons.prems Cons.IH [of j1 r1] h show ?case
    by (auto simp: t a split: turn.splits if_splits intro: same_host_trans)
qed simp

lemma join_body_host:
  assumes "join_body out jenv options ctx turns control controlCtx r = Some (v, r')"
  shows "same_host r r' \<and> (\<forall>x. v = Inr x \<longrightarrow> rt_session r' \<and> rt_control r' = Some control \<and> rt_clientCancel r' = Some controlCtx)"
proof -
  obtain v1 r1 where 1: "join_prepare out jenv options ctx r = (v1, r1)" by fastforce
  have s1: "same_host r r1" using same_session_host [OF join_prepare_same [of r out jenv options ctx]] 1 by simp
  show ?thesis
  proof (cases v1)
    case (Inl e)
    with assms s1 show ?thesis by (auto simp: join_body_def 1)
  next
    case (Inr j1)
    then obtain v2 j2 r2 where 2: "join_loop out turns (j1, r1) = Some (v2, j2, r2)" using assms by (auto simp: join_body_def 1 split: option.splits)
    have s2: "same_host r r2" using join_loop_host [OF 2] s1 same_host_trans by blast
    obtain v3 r3 where 3: "join_save j2 v2 r2 = (v3, r3)" by fastforce
    have s3: "same_host r r3" using same_session_host [OF same_operations(3) [where j = j2 and paired = v2 and r = r2]] 3 s2 same_host_trans by fastforce
    show ?thesis
    proof (cases v3)
      case (Inl e)
      with assms s3 \<open>v1 = Inr j1\<close> show ?thesis by (auto simp: join_body_def 1 2 3)
    next
      case (Inr result)
      then have "join_online j2 result control controlCtx r3 = (v, r')" using assms \<open>v1 = Inr j1\<close> by (simp add: join_body_def 1 2 3)
      with s3 show ?thesis by (auto simp: join_online_def same_host_def setLifecycle_def split: if_splits)
    qed
  qed
qed

lemma Join_online:
  assumes "Join out jenv options ctx turns control controlCtx s = Some (Inr v, s')"
  shows "rt_session (r_net s') \<and> rt_control (r_net s') = Some control \<and> rt_clientCancel (r_net s') = Some controlCtx
    \<and> \<not> r_running s \<and> \<not> rt_session (r_net s) \<and> \<not> rt_ordinary (r_net s) \<and> s' = s\<lparr>r_net := r_net s'\<rparr>"
proof -
  obtain err r1 where enter: "join_enter ctx (r_net s) = (err, r1)" by fastforce
  from assms have 1: "\<not> r_running s" "err = None" by (auto simp: Join_def enter split: if_splits option.splits)
  then obtain r' where body: "join_body out jenv options ctx turns control controlCtx r1 = Some (Inr v, r')" and s': "s' = s\<lparr>r_net := r'\<rparr>"
    using assms by (auto simp: Join_def enter split: option.splits sum.splits)
  with join_body_host [OF body] 1 enter show ?thesis by (auto simp: join_enter_def split: if_splits)
qed

lemma Join_fails:
  assumes "Join out jenv options ctx turns control controlCtx s = Some (Inl e, s')"
  shows "s' = s \<or> (\<not> rt_session (r_net s) \<and> no_session (r_net s') \<and> s' = s\<lparr>r_net := r_net s'\<rparr>
      \<and> rt_manager (r_net s') = rt_manager (r_net s))"
proof (cases "r_running s")
  case True
  with assms show ?thesis by (auto simp: Join_def)
next
  case open': False
  obtain err r1 where enter: "join_enter ctx (r_net s) = (err, r1)" by fastforce
  show ?thesis
  proof (cases err)
    case (Some x)
    then have "r1 = r_net s" using enter by (auto simp: join_enter_def split: if_splits)
    with Some assms open' show ?thesis by (auto simp: Join_def enter)
  next
    case None
    then have n: "\<not> rt_session (r_net s)" "rt_manager r1 = rt_manager (r_net s)"
      using enter by (auto simp: join_enter_def setLifecycle_def setMode_def split: if_splits)
    obtain e' r2 where body: "join_body out jenv options ctx turns control controlCtx r1 = Some (Inl e', r2)"
      and s': "s' = s\<lparr>r_net := join_undo out ctx r2\<rparr>"
      using assms open' None by (auto simp: Join_def enter split: option.splits sum.splits)
    have "no_session (join_undo out ctx r2)" "rt_manager (join_undo out ctx r2) = rt_manager r2"
      using Leave_session [of out r2] by (simp_all add: join_undo_def Let_def no_session_def)
    moreover have "rt_manager r2 = rt_manager r1" using join_body_host [OF body] by (simp add: same_host_def)
    ultimately show ?thesis using n by (simp add: s')
  qed
qed

section \<open>Two sessions\<close>

text \<open>
  The deferred \<open>Leave\<close> of a failed \<open>Join\<close> takes whatever session is there.
\<close>

lemma undo_any_session:
  assumes "rt_session r"
  shows "no_session (join_undo out a r)"
    "rt_control r = Some c \<Longrightarrow> c |\<in>| rt_closed (join_undo out a r)"
    "rt_clientCancel r = Some b \<Longrightarrow> b |\<in>| rt_cancelled (join_undo out a r)"
    "rt_joinCancel r = Some b \<Longrightarrow> b |\<in>| rt_cancelled (join_undo out a r)"
proof -
  have l: "ld_active (fst (leave_take r))" using assms by (simp add: leave_take_def)
  note C = leave_cancels [OF l, of out "snd (leave_take r)"]
  show "no_session (join_undo out a r)" using Leave_session(1) [of out r] by (simp add: join_undo_def Let_def no_session_def)
  show "rt_control r = Some c \<Longrightarrow> c |\<in>| rt_closed (join_undo out a r)"
    "rt_clientCancel r = Some b \<Longrightarrow> b |\<in>| rt_cancelled (join_undo out a r)"
    "rt_joinCancel r = Some b \<Longrightarrow> b |\<in>| rt_cancelled (join_undo out a r)"
    using C by (simp_all add: join_undo_def Leave_def Let_def case_prod_beta leave_take_def finsert_opt_def split: option.split)
qed

text \<open>
  A \<open>Join\<close> that was left while it was pairing fails late, after another one has come online.
\<close>

lemma late_failure:
  assumes left: "Leave out r = (x, r_net s)"
    and online: "Join out jenv options b turns control controlCtx s = Some (Inr v, s')"
    and late: "join_attempt out env (j, r_net s') = (LoopDone (Inl e), j', r1)"
    and saved: "join_save j' (Inl e) r1 = (Inl e', r2)"
  shows "no_session (join_undo out a r2) \<and> control |\<in>| rt_closed (join_undo out a r2) \<and> controlCtx |\<in>| rt_cancelled (join_undo out a r2)"
proof -
  note o' = Join_online [OF online]
  have "rt_session r1 \<and> rt_control r1 = Some control \<and> rt_clientCancel r1 = Some controlCtx"
    using join_attempt_host [where r = "r_net s'" and out = out and env = env and j = j] o' late by simp
  then have "rt_session r2" "rt_control r2 = Some control" "rt_clientCancel r2 = Some controlCtx"
    using saved by (auto simp: join_save_def)
  from undo_any_session [OF this(1)] this(2,3) show ?thesis by blast
qed

section \<open>A room that starts in the meantime\<close>

lemma apply_members_net:
  "same_session (r_net s) (r_net (snd (apply_members (runtime_callbacks out now) ls s)))"
proof (induction ls arbitrary: s)
  case (Cons l ls)
  let ?cb = "runtime_callbacks out now"
  let ?psk = "case fmlookup (r_memberPSKs s) (lease_key l) of Some psk \<Rightarrow> psk | None \<Rightarrow> DerivePSK (r_roomKey s) (r_hostPublic s) (lease_key l)"
  let ?s = "s\<lparr>r_memberPSKs := fmupd (lease_key l) ?psk (r_memberPSKs s)\<rparr>"
  obtain e s1 where a: "applyPeer ?cb l ?psk ?s = (e, s1)" by fastforce
  have "r_net s1 = snd (net_applyPeer out l ?psk (r_net s))"
    using a by (auto simp: applyPeer_def call_net_def runtime_callbacks_def Let_def case_prod_beta)
  then have s: "same_session (r_net s) (r_net s1)" using same_operations(1) [of "r_net s" out l ?psk] by simp
  show ?case
    using Cons.IH [of s1] Cons.IH [of s] s by (auto simp: Let_def a split: option.split intro: same_session_trans)
qed simp

lemma start_tail_hosts:
  assumes "start_tail (runtime_callbacks out now) err ls s = (Inr sn, s')"
  shows "rt_manager (r_net s') \<noteq> None \<and> \<not> rt_session (r_net s') \<and> \<not> rt_ordinary (r_net s') \<and> r_running s'"
proof -
  let ?cb = "runtime_callbacks out now"
  obtain e1 s1 where 1: "start_network ?cb s = (e1, s1)" by fastforce
  obtain e2 s2 where 2: "apply_members ?cb ls s1 = (e2, s2)" by fastforce
  obtain e3 s3 where 3: "persistRoomSecretLocked s2 = (e3, s3)" by fastforce
  obtain e4 s4 where 4: "listenLocked ?cb err s3 = (e4, s4)" by fastforce
  have e: "e1 = None" "e2 = None" "e3 = None" "e4 = None" "s' = s4\<lparr>r_running := True\<rparr>"
    using assms by (auto simp: start_tail_def 1 2 3 4 Let_def split: option.splits)
  have n1: "net_start out now (networkConfigLocked s) (r_net s) = (None, r_net s1)"
    using 1 e(1) by (auto simp: start_network_def call_net_def runtime_callbacks_def Let_def case_prod_beta split: if_splits)
      (metis prod.collapse)
  have h: "rt_manager (r_net s1) \<noteq> None \<and> \<not> rt_session (r_net s1) \<and> \<not> rt_ordinary (r_net s1)"
    by (cases rule: net_start_cases [of "r_net s" out now "networkConfigLocked s"])
      (auto simp: n1 same_session_def setLifecycle_def)
  have "r_net s4 = r_net s3" "r_net s3 = r_net s2"
    using 3 4 by (auto simp: persistRoomSecretLocked_def on_disk_def listenLocked_def Let_def case_prod_beta split: sum.splits)
  with h apply_members_net [of s1 out now ls] e(5) show ?thesis by (simp add: 2 same_session_def)
qed

lemma room_Start_hosts:
  assumes "room_Start (runtime_callbacks out now) random err s = (Inr sn, s')"
  shows "rt_manager (r_net s') \<noteq> None \<and> \<not> rt_session (r_net s') \<and> \<not> rt_ordinary (r_net s') \<and> r_running s'"
proof -
  have r: "\<not> r_running s" using assms by (auto simp: room_Start_def)
  obtain v1 s1 where 1: "on_disk (Load (statePath s)) s = (v1, s1)" by fastforce
  then obtain persisted where v1: "v1 = Inr persisted" using assms r by (cases v1) (auto simp: room_Start_def)
  obtain v2 s2 where 2: "on_disk (secret_Load (roomSecretPath s1)) s1 = (v2, s2)" by fastforce
  then obtain d where v2: "v2 = Inr d" using assms r 1 v1 by (cases v2) (auto simp: room_Start_def)
  obtain key psks where p: "parseRoomSecret d = Inr (key, psks)"
    using assms r 1 v1 2 v2 by (cases "parseRoomSecret d") (auto simp: room_Start_def)
  obtain v3 s3 where 3: "on_disk (LoadOrCreate (hostSecretPath s2) True random) s2 = (v3, s3)" by fastforce
  then obtain k where v3: "v3 = Inr k" using assms r 1 v1 2 v2 p by (cases v3) (auto simp: room_Start_def)
  obtain ls where l: "leasesFromState (rs_Members persisted) = Inr ls"
    using assms r 1 v1 2 v2 p 3 v3 by (cases "leasesFromState (rs_Members persisted)") (auto simp: room_Start_def)
  obtain a where a: "New ls = Inr a"
    using assms r 1 v1 2 v2 p 3 v3 l by (cases "New ls") (auto simp: room_Start_def)
  from assms show ?thesis
    unfolding Start_reads [OF r 1 [unfolded v1] 2 [unfolded v2] p 3 [unfolded v3] l a] by (rule start_tail_hosts)
qed

lemma room_and_client:
  assumes "room_Start (runtime_callbacks out now) random err s = (Inr sn, s')"
  shows "\<exists>r. join_enter ctx (r_net s') = (None, r) \<and> rt_session r \<and> rt_manager r \<noteq> None \<and> rt_mode r = ''client'' \<and> r_running s'"
  using room_Start_hosts [OF assms] by (simp add: join_enter_def setLifecycle_def setMode_def)

end
