(* ===== verification/Core_Join.thy ===== *)
theory Core_Join
  imports Core_Laws
begin

text \<open>
  A first \<open>Join\<close> with the invite of a room, from the code to the configured tunnel: when nothing outside
  fails, the client comes online with the address the room keeps for it and the key the room has for it.
\<close>

section \<open>Port forwardings that fit together\<close>

lemma valid_apps_iff:
  "valid_apps apps seen \<longleftrightarrow> (\<forall>a\<in>set apps. validateApp a = None)
     \<and> distinct (map app_key (filter (\<lambda>a. ap_Enabled a = 1) apps))
     \<and> set (map app_key (filter (\<lambda>a. ap_Enabled a = 1) apps)) \<inter> set seen = {}"
  by (induction apps arbitrary: seen) auto

lemma dec_string_no_slash: "CHR ''/'' \<notin> set (dec_string n)"
proof -
  have "is_digit c \<Longrightarrow> c \<noteq> CHR ''/''" for c by (auto simp: is_digit_def digit_value_def)
  moreover have "list_all is_digit (dec_string n)" using dec_string_head [of n] digit_char_facts(1) by fastforce
  ultimately show ?thesis by (auto simp: list_all_iff)
qed

lemma app_key_port:
  assumes "app_key a = app_key b"
  shows "nat (ap_SrcPort a) = nat (ap_SrcPort b)"
proof -
  have t: "takeWhile (\<lambda>c. c \<noteq> CHR ''/'') (rev (app_key a)) = rev (dec_string (nat (ap_SrcPort a)))" for a
    unfolding app_key_def using dec_string_no_slash by (auto simp: takeWhile_append2 takeWhile_tail)
  have "rev (dec_string (nat (ap_SrcPort a))) = rev (dec_string (nat (ap_SrcPort b)))" using t [of a] t [of b] assms by simp
  then have "dec_string (nat (ap_SrcPort a)) = dec_string (nat (ap_SrcPort b))" by simp
  then show ?thesis by (metis dec_digits_dec_string option.inject)
qed

text \<open>The forwardings of a session.\<close>

lemma forward_app_internal:
  "isInternal (PairingApp uid dst src)" "isInternal (WireGuardApp uid dst src)"
  by (simp_all add: isInternal_def PairingApp_def WireGuardApp_def forward_app_def internalPrefix_def)

lemma forward_app_valid:
  assumes "dst \<noteq> 0" "src \<noteq> 0"
  shows "validateApp (PairingApp uid dst src) = None" "validateApp (WireGuardApp uid dst src) = None"
proof -
  have "uint dst \<noteq> 0" "uint src \<noteq> 0" using assms by (simp_all add: uint_0_iff)
  moreover have "uint dst < 65536" "uint src < 65536" using uint_lt2p [of dst] uint_lt2p [of src] by simp_all
  ultimately have "0 < uint dst" "0 < uint src" "uint dst < 65536" "uint src < 65536"
    using uint_ge_0 [of dst] uint_ge_0 [of src] by linarith+
  then show "validateApp (PairingApp uid dst src) = None" "validateApp (WireGuardApp uid dst src) = None"
    by (simp_all add: validateApp_def PairingApp_def WireGuardApp_def forward_app_def internalPrefix_def to_lower_def lower_char_def Let_def)
qed

lemma forward_app_text:
  assumes "ascii uid"
  shows "app_text_ok (PairingApp uid dst src)" "app_text_ok (WireGuardApp uid dst src)"
proof -
  have l: "uint (x :: u16) < 65536" for x using uint_lt2p [of x] by simp
  have "int64 (uint (x :: u16))" for x 
    using order.trans [of "- (2 ^ 63)" 0 "uint x"] less_le_trans [OF l [of x], of "2 ^ 63"] by simp
  moreover have "ascii (xs @ ys) = (ascii xs \<and> ascii ys)" for xs ys by (auto simp: ascii_def)
  ultimately show "app_text_ok (PairingApp uid dst src)" "app_text_ok (WireGuardApp uid dst src)"
    using assms by (auto simp: app_text_ok_def PairingApp_def WireGuardApp_def forward_app_def internalPrefix_def ascii_def
        intro!: utf8_ascii)
qed

lemma forward_app_key: "app_key (PairingApp uid dst src) \<noteq> app_key (WireGuardApp uid' dst' src')"
  by (simp add: app_key_def PairingApp_def WireGuardApp_def forward_app_def)

definition ports_free :: "Config \<Rightarrow> u16 \<Rightarrow> bool" where
  "ports_free c port \<longleftrightarrow> (\<forall>a\<in>set (userApps (cf_Apps c)). ap_Enabled a = 1 \<longrightarrow> ap_SrcPort a \<noteq> uint port)"

lemma ports_free_key:
  assumes "ports_free c src" "validateConfig c = None" "a \<in> set (userApps (cf_Apps c))" "ap_Enabled a = 1"
  shows "app_key a \<noteq> app_key (PairingApp uid dst src)" "app_key a \<noteq> app_key (WireGuardApp uid dst src)"
proof -
  have "validateApp a = None"
    using assms(2,3) by (auto simp: validateConfig_def Let_def valid_apps_iff userApps_def split: if_splits)
  then have "1 \<le> ap_SrcPort a" by (auto simp: validateApp_def Let_def split: if_splits)
  moreover have "ap_SrcPort a \<noteq> uint src" using assms by (auto simp: ports_free_def)
  ultimately have "nat (ap_SrcPort a) \<noteq> nat (uint src)" using uint_ge_0 [of src] by linarith
  then show "app_key a \<noteq> app_key (PairingApp uid dst src)" "app_key a \<noteq> app_key (WireGuardApp uid dst src)"
    using app_key_port [of a] by (fastforce simp: PairingApp_def WireGuardApp_def forward_app_def)+
qed

section \<open>A disk on which nothing fails\<close>

lemma p2p_load_ok:
  assumes "d_script d = []" "file_config (d_files d) path = Some c"
  shows "p2p_load path d = (Inr c, d)"
proof -
  obtain data where data: "fmlookup (d_files d) path = Some data"
    using assms(2) by (cases "fmlookup (d_files d) path") (auto simp: file_config_def)
  then show ?thesis using assms
    by (auto simp: p2p_load_def ReadFile_def os_call_no_script file_config_def split: option.splits if_splits)
qed

definition session_apps_ok :: "Config \<Rightarrow> App list \<Rightarrow> bool" where
  "session_apps_ok c apps \<longleftrightarrow> (\<forall>a\<in>set apps. isInternal a \<and> validateApp a = None \<and> ap_Enabled a = 1)
     \<and> list_all app_text_ok apps \<and> distinct (map app_key apps)
     \<and> (\<forall>u\<in>set (userApps (cf_Apps c)). ap_Enabled u = 1 \<longrightarrow> app_key u \<notin> app_key ` set apps)"

lemma SetInternal_ok:
  assumes d: "d_script d = []" "file_config (d_files d) path = Some c" "config_text_ok c" and apps: "session_apps_ok c apps"
  shows "\<exists>d'. SetInternal path apps d = (None, d') \<and> d_script d' = []
    \<and> file_config (d_files d') path = Some (c\<lparr>cf_Apps := userApps (cf_Apps c) @ apps\<rparr>)
    \<and> (\<forall>q. q \<noteq> path \<longrightarrow> (\<forall>n. q \<noteq> temp_path path n) \<longrightarrow> fmlookup (d_files d') q = fmlookup (d_files d) q)"
proof -
  let ?c = "c\<lparr>cf_Apps := userApps (cf_Apps c) @ apps\<rparr>"
  have c: "validateConfig c = None"
    using d(2) by (auto simp: file_config_def bind_eq_Some_conv split: option.splits if_splits)
  have va: "valid_apps (cf_Apps c) []" using c by (auto simp: validateConfig_def Let_def split: if_splits)
  have "valid_apps (userApps (cf_Apps c) @ apps) []"
  proof -
    have f: "filter (\<lambda>a. ap_Enabled a = 1) (userApps xs) = filter (\<lambda>a. \<not> isInternal a) (filter (\<lambda>a. ap_Enabled a = 1) xs)" for xs
      by (induction xs) (auto simp: userApps_def)
    have g: "filter (\<lambda>a. ap_Enabled a = 1) apps = apps" using apps by (simp add: session_apps_ok_def)
    have "distinct (map app_key (filter (\<lambda>a. ap_Enabled a = 1) (userApps (cf_Apps c))))"
      unfolding f by (rule distinct_map_filter) (use va in \<open>simp add: valid_apps_iff\<close>)
    moreover have "\<forall>a\<in>set (userApps (cf_Apps c)). validateApp a = None" using va by (simp add: valid_apps_iff userApps_def)
    ultimately show ?thesis using apps g by (auto simp: valid_apps_iff session_apps_ok_def)
  qed
  then have v: "validateConfig ?c = None" using c by (auto simp: validateConfig_def Let_def split: if_splits)
  have t: "config_text_ok ?c" using d(3) apps parts_text_ok [of "cf_Apps c"] by (simp add: config_text_ok_def session_apps_ok_def)
  have ne: "\<not> list_ex (\<lambda>app. \<not> isInternal app \<or> validateApp app \<noteq> None) apps" using apps by (auto simp: list_ex_iff session_apps_ok_def)
  obtain d' where w: "writeAtomic path (bytes_of (json_print True 0 (enc_config False ?c) @ [CHR 0x0A])) d = (None, d')" "d_script d' = []"
    using writeAtomic_ok [OF d(1)] by blast
  have s: "SetInternal path apps d = (None, d')"
    using ne w(1) v by (simp add: SetInternal_def p2p_load_ok [OF d(1,2)] p2p_save_def)
  have "file_config (d_files d') path = Some ?c" using SetInternal_file(1) [OF s d(2,3)] apps by (simp add: session_apps_ok_def)
  with s w show ?thesis using written_lookup [OF writeAtomic_written [OF w(1)]] by blast
qed

section \<open>Nothing outside fails\<close>

definition outside_works :: "'w outside \<Rightarrow> bool" where
  "outside_works out \<longleftrightarrow> (\<forall>w. fst (ow_prepare out w) = None) \<and> (\<forall>app w. fst (ow_addApp out app w) = None)
     \<and> (\<forall>w. \<exists>name. fst (ws_createTUN (ow_wg out) w) = Inr name) \<and> (\<forall>c w. fst (ws_ipcSet (ow_wg out) c w) = None)
     \<and> (\<forall>w. fst (ws_up (ow_wg out) w) = None) \<and> (\<forall>n ip h w. fst (ws_configure (ow_wg out) n ip h w) = None)"

text \<open>The runtime's disk: nothing fails on it and it holds this configuration.\<close>

definition stored :: "'w runtime \<Rightarrow> Config \<Rightarrow> bool" where
  "stored r c \<longleftrightarrow> d_script (rt_disk r) = [] \<and> file_config (d_files (rt_disk r)) (rt_configPath r) = Some c
     \<and> config_text_ok c \<and> rt_configPath r = rt_dataDir r @ ''/config.json''"

lemma storedD:
  assumes "stored r c"
  shows "d_script (rt_disk r) = []" "file_config (d_files (rt_disk r)) (rt_configPath r) = Some c" "config_text_ok c"
    "rt_configPath r = rt_dataDir r @ ''/config.json''"
  using assms by (auto simp: stored_def)

lemma disk_of_updates [simp]:
  "rt_disk (setLifecycle v r) = rt_disk r" "rt_disk (setMode v r) = rt_disk r" "rt_disk (onProcessState v r) = rt_disk r"
  "rt_disk (snd (on_world f r)) = rt_disk r"
  by (simp_all add: setLifecycle_def setMode_def onProcessState_def Let_def on_world_def case_prod_beta)

lemma disk_of_calls [simp]:
  "rt_disk (snd (engine_Start out r)) = rt_disk r" "rt_disk (snd (engine_Stop out r)) = rt_disk r"
  "rt_disk (snd (engine_AddApp out app r)) = rt_disk r"
  by (simp_all add: engine_Start_def engine_Stop_def engine_AddApp_def Let_def case_prod_beta split: option.split)

lemma stored_same: "same_session r t \<Longrightarrow> rt_disk t = rt_disk r \<Longrightarrow> stored t c = stored r c"
  by (simp add: stored_def same_session_def)

lemma engine_restarts:
  assumes "outside_works out"
  shows "\<exists>t. restartOpenP2P out r = (None, t) \<and> same_session r t \<and> rt_disk t = rt_disk r \<and> rt_moduleRun t"
proof -
  let ?t = "snd (engine_Start out (snd (engine_Stop out r)))"
  have "\<not> rt_moduleRun (snd (engine_Stop out r))"
    by (simp add: engine_Stop_def onProcessState_def Let_def setLifecycle_def)
  moreover have "fst (ow_prepare out w) = None" for w using assms by (simp add: outside_works_def)
  ultimately have "fst (engine_Start out (snd (engine_Stop out r))) = None \<and> rt_moduleRun ?t"
    by (simp add: engine_Start_def on_world_def Let_def case_prod_beta onProcessState_def setLifecycle_def)
  moreover have "fst (engine_Stop out r) = None" by (simp add: engine_Stop_def)
  ultimately have "restartOpenP2P out r = (None, ?t)" "rt_moduleRun ?t"
    by (simp_all add: restartOpenP2P_def case_prod_beta prod_eq_iff)
  then show ?thesis by (intro exI [of _ ?t]) simp
qed

lemma SetInternal_stored:
  assumes "stored r c" "session_apps_ok c apps"
  shows "\<exists>t. in_files (SetInternal (rt_configPath r) apps) r = (None, t) \<and> same_session r t \<and> rt_moduleRun t = rt_moduleRun r
    \<and> stored t (c\<lparr>cf_Apps := userApps (cf_Apps c) @ apps\<rparr>)
    \<and> (\<forall>q. q \<noteq> rt_configPath r \<longrightarrow> (\<forall>n. q \<noteq> temp_path (rt_configPath r) n) \<longrightarrow>
         fmlookup (d_files (rt_disk t)) q = fmlookup (d_files (rt_disk r)) q)"
proof -
  from SetInternal_ok [of "rt_disk r" "rt_configPath r" c apps] assms obtain d' where
    s: "SetInternal (rt_configPath r) apps (rt_disk r) = (None, d')" "d_script d' = []"
      "file_config (d_files d') (rt_configPath r) = Some (c\<lparr>cf_Apps := userApps (cf_Apps c) @ apps\<rparr>)"
      "\<forall>q. q \<noteq> rt_configPath r \<longrightarrow> (\<forall>n. q \<noteq> temp_path (rt_configPath r) n) \<longrightarrow> fmlookup (d_files d') q = fmlookup (d_files (rt_disk r)) q"
    by (auto simp: stored_def)
  have "config_text_ok (c\<lparr>cf_Apps := userApps (cf_Apps c) @ apps\<rparr>)"
    using assms parts_text_ok [of "cf_Apps c"] by (simp add: stored_def config_text_ok_def session_apps_ok_def)
  then show ?thesis
    using assms(1) s by (intro exI [of _ "r\<lparr>rt_disk := d'\<rparr>"]) (simp add: in_files_def stored_def)
qed

text \<open>A secret beside the configuration.\<close>

lemma client_paths:
  "client_path dir uid suffix \<noteq> dir @ ''/config.json''" "dir @ ''/config.json'' \<noteq> temp_path (client_path dir uid suffix) n"
  "client_path dir uid suffix \<noteq> temp_path (dir @ ''/config.json'') n"
  "client_path dir uid ''.membership.secret'' \<noteq> client_path dir uid ''.secret''"
  "client_path dir uid ''.membership.secret'' \<noteq> temp_path (client_path dir uid ''.secret'') n"
  by (simp_all add: client_path_def temp_path_def)

lemma save_secret_stored:
  assumes "stored r c" "data \<noteq> []" "path = client_path (rt_dataDir r) uid suffix"
  shows "\<exists>t. in_files (secret_Save path data) r = (None, t) \<and> same_session r t \<and> rt_moduleRun t = rt_moduleRun r \<and> stored t c
    \<and> file_secret (d_files (rt_disk t)) path = Some data
    \<and> (\<forall>q. q \<noteq> path \<longrightarrow> (\<forall>n. q \<noteq> temp_path path n) \<longrightarrow> fmlookup (d_files (rt_disk t)) q = fmlookup (d_files (rt_disk r)) q)"
proof -
  obtain d' where s: "secret_Save path data (rt_disk r) = (None, d')" "d_script d' = []"
    using secret_Save_ok [OF _ assms(2)] assms(1) by (auto simp: stored_def)
  note f = secret_Save_files [OF s(1)]
  have "fmlookup (d_files d') (rt_configPath r) = fmlookup (d_files (rt_disk r)) (rt_configPath r)"
    using f assms(1,3) client_paths(1,2) [of "rt_dataDir r" uid suffix] by (simp add: stored_def)
  then have "file_config (d_files d') (rt_configPath r) = file_config (d_files (rt_disk r)) (rt_configPath r)"
    by (simp add: file_config_def)
  with assms(1) s(2) have "stored (r\<lparr>rt_disk := d'\<rparr>) c" by (auto simp: stored_def)
  then show ?thesis using s f by (intro exI [of _ "r\<lparr>rt_disk := d'\<rparr>"]) (simp add: in_files_def)
qed

section \<open>The preparation\<close>

text \<open>A first join: no key of an earlier one is on the disk.\<close>

lemma prepare_first:
  assumes out: "outside_works out" and st: "stored r c" and code: "Decode (jo_Invite options) = Inr iv"
    and fixed: "jo_FixedDeviceKey options" and env: "je_random env = Inr priv" "je_pairPort env = Inr pp" "je_wgPort env = Inr wp"
    and new: "fmlookup (d_files (rt_disk r)) (client_path (rt_dataDir r) (HostUID iv) ''.secret'') = None"
      "fmlookup (d_files (rt_disk r)) (client_path (rt_dataDir r) (HostUID iv) ''.membership.secret'') = None"
    and apps: "session_apps_ok c [PairingApp (HostUID iv) (PairPort iv) pp]"
  shows "\<exists>j t. join_prepare out env options ctx r = (Inr j, t) \<and> same_session r t \<and> rt_moduleRun t
    \<and> stored t (c\<lparr>cf_Apps := userApps (cf_Apps c) @ [PairingApp (HostUID iv) (PairPort iv) pp]\<rparr>)
    \<and> j = \<lparr>jd_options = options, jd_invite = iv, jd_node = np_Node (cf_Network c), jd_identity = fromECDH priv,
           jd_path = client_path (rt_dataDir r) (HostUID iv) ''.membership.secret'', jd_psk = 0, jd_membership = False,
           jd_pairApp = PairingApp (HostUID iv) (PairPort iv) pp, jd_wgPort = wp, jd_configured = False, jd_ctx = ctx\<rparr>"
proof -
  let ?key = "client_path (rt_dataDir r) (HostUID iv) ''.secret''"
  let ?member = "client_path (rt_dataDir r) (HostUID iv) ''.membership.secret''"
  have script: "d_script (rt_disk r) = []" and path: "rt_configPath r = rt_dataDir r @ ''/config.json''" using st by (simp_all add: stored_def)
  have "p2p_load (rt_configPath r) (rt_disk r) = (Inr c, rt_disk r)" using storedD [OF st] by (intro p2p_load_ok)
  then have 1: "in_files (p2p_load (rt_configPath r)) r = (Inr c, r)" by (simp add: in_files_def)
  obtain e where e: "secret_Load ?key (rt_disk r) = (Inl e, rt_disk r)" "errors_is e OsErrNotExist"
    using secret_Load_missing [OF script new(1)] by blast
  have "length (be_bytes priv) = 32" by simp
  then have "be_bytes priv \<noteq> []" by (metis list.size(3) zero_neq_numeral)
  from save_secret_stored [OF st this refl, of "HostUID iv" "''.secret''"] obtain t2 where
    t2: "in_files (secret_Save ?key (be_bytes priv)) r = (None, t2)" "same_session r t2" "stored t2 c"
      "\<And>q. q \<noteq> ?key \<Longrightarrow> (\<And>n. q \<noteq> temp_path ?key n) \<Longrightarrow> fmlookup (d_files (rt_disk t2)) q = fmlookup (d_files (rt_disk r)) q"
    by blast
  have 2: "in_files (LoadOrCreate ?key True (Inr priv)) r = (Inr (fromECDH priv), t2)"
    using t2(1) e by (auto simp: in_files_def LoadOrCreate_def Generate_def fromECDH_def Let_def case_prod_beta split: option.splits)
  have "fmlookup (d_files (rt_disk t2)) ?member = None"
    using t2(4) [of ?member] client_paths(4,5) new(2) by simp
  then obtain e' where e': "secret_Load ?member (rt_disk t2) = (Inl e', rt_disk t2)" "errors_is e' OsErrNotExist"
    using secret_Load_missing [of "rt_disk t2"] t2(3) by (auto simp: stored_def)
  have dir: "rt_dataDir t2 = rt_dataDir r" "rt_configPath t2 = rt_configPath r" using t2(2) by (simp_all add: same_session_def)
  have 3: "in_files (loadMembershipKey ?member True) t2 = (Inr (0, False), t2)"
    by (simp add: in_files_def loadMembershipKey_def e' Let_def)
  from SetInternal_stored [OF t2(3) apps] obtain t4 where
    4: "in_files (SetInternal (rt_configPath t2) [PairingApp (HostUID iv) (PairPort iv) pp]) t2 = (None, t4)" "same_session t2 t4"
      "stored t4 (c\<lparr>cf_Apps := userApps (cf_Apps c) @ [PairingApp (HostUID iv) (PairPort iv) pp]\<rparr>)" by blast
  from engine_restarts [OF out, of t4] obtain t5 where
    5: "restartOpenP2P out t4 = (None, t5)" "same_session t4 t5" "rt_disk t5 = rt_disk t4" "rt_moduleRun t5" by blast
  have s5: "same_session r t5" using t2(2) 4(2) 5(2) same_session_trans by blast
  have st5: "stored t5 (c\<lparr>cf_Apps := userApps (cf_Apps c) @ [PairingApp (HostUID iv) (PairPort iv) pp]\<rparr>)"
    using 4(3) stored_same [OF 5(2,3)] by blast
  show ?thesis
    using s5 st5 5(4)
    by (simp add: join_prepare_def code 1 fixed env 2 dir(1) 3 4(1) 5(1) Let_def)
qed

section \<open>The tunnel\<close>

lemma wg_Start_works:
  assumes "outside_works out" "Is4 (so_LocalIP options)" "so_RelayPort options \<noteq> 0" "so_PrivateKey options \<noteq> 0" "\<not> so_Host options"
    and "validSender (so_LocalIP options)"
  shows "\<exists>m w'. wg_Start (ow_wg out) options w = (Inr m, w') \<and> \<not> mg_closed m \<and> mg_localIP m = so_LocalIP options"
proof -
  have 1: "\<exists>name w'. ws_createTUN (ow_wg out) w = (Inr name, w')" for w using assms(1) by (auto simp: outside_works_def) (metis prod.collapse)
  then obtain name w1 where c: "ws_createTUN (ow_wg out) w = (Inr name, w1)" by blast
  have o': "fst (ws_ipcSet (ow_wg out) x w) = None" "fst (ws_up (ow_wg out) w) = None" "fst (ws_configure (ow_wg out) n ip h w) = None"
    for x w n ip h using assms(1) by (simp_all add: outside_works_def)
  show ?thesis
    using assms(2-6) o'
    by (simp add: wg_Start_def c Wrap_def Let_def case_prod_beta)
qed

lemma configure_first:
  assumes out: "outside_works out" and st: "stored r c0" and run: "rt_moduleRun r" and session: "rt_session r"
    and j: "\<not> jd_membership j" "kp_Private (jd_identity j) \<noteq> 0"
    and result: "Is4 (pr_AssignedIP result)" "validSender (pr_AssignedIP result)" "pr_DiscoveryRelayPort result \<noteq> 0"
      "pr_HostPublicKey result \<noteq> 0" "jd_wgPort j \<noteq> 0"
    and psk: "psk = DerivePSK (RoomKey (jd_invite j)) (pr_HostPublicKey result) (kp_Public (jd_identity j))" "psk \<noteq> 0"
    and apps: "session_apps_ok c0 [jd_pairApp j, WireGuardApp (HostUID (jd_invite j)) (pr_WireGuardPort result) (jd_wgPort j)]"
  shows "\<exists>t m. join_configure out result (j, r) = (None, j\<lparr>jd_psk := psk, jd_configured := True\<rparr>, t)
    \<and> rt_session t \<and> rt_client t = Some m \<and> mg_localIP m = pr_AssignedIP result \<and> rt_clientIP t = pr_AssignedIP result
    \<and> same_host r t
    \<and> stored t (c0\<lparr>cf_Apps := userApps (cf_Apps c0) @ [jd_pairApp j, WireGuardApp (HostUID (jd_invite j)) (pr_WireGuardPort result) (jd_wgPort j)]\<rparr>)"
proof -
  let ?app = "WireGuardApp (HostUID (jd_invite j)) (pr_WireGuardPort result) (jd_wgPort j)"
  let ?c = "c0\<lparr>cf_Apps := userApps (cf_Apps c0) @ [jd_pairApp j, ?app]\<rparr>"
  from SetInternal_stored [OF st apps] obtain t1 where
    1: "in_files (SetInternal (rt_configPath r) [jd_pairApp j, ?app]) r = (None, t1)" "same_session r t1" "rt_moduleRun t1 = rt_moduleRun r"
      "stored t1 ?c" by blast
  obtain e2 t2 where 2: "engine_AddApp out ?app t1 = (e2, t2)" by fastforce
  have e2: "e2 = None" using 2 out run 1(3)
    by (auto simp: engine_AddApp_def on_world_def Let_def case_prod_beta outside_works_def)
  have s2: "same_session r t2" "rt_disk t2 = rt_disk t1"
    using same_after(4) [OF 2 1(2)] disk_of_calls(3) [of out ?app t1] 2 by simp_all
  let ?o = "\<lparr>so_PrivateKey = kp_Private (jd_identity j), so_LocalIP = pr_AssignedIP result,
            so_ListenPort = 0, so_RelayPort = pr_DiscoveryRelayPort result, so_Host = False, so_OnDiscovery = False\<rparr>"
  from wg_Start_works [OF out, of ?o "rt_world t2"] j(2) result obtain m w where
    m: "wg_Start (ow_wg out) ?o (rt_world t2) = (Inr m, w)" "\<not> mg_closed m" "mg_localIP m = pr_AssignedIP result" by auto
  then have 3: "on_world (wg_Start (ow_wg out) ?o) t2 = (Inr m, t2\<lparr>rt_world := w\<rparr>)" by (simp add: on_world_def)
  let ?j = "j\<lparr>jd_psk := psk\<rparr>"
  have ip: "wg_validIP host_ip True" "Is4 host_ip" by (simp_all add: wg_validIP_def host_ip_def)
  have lo: "loopback \<noteq> AddrZero" by (simp add: loopback_def AddrFrom4_def)
  obtain conf where conf: "peerConfig (host_peer result psk (jd_wgPort j)) True = Inr conf"
    using result psk(2) ip lo by (simp add: peerConfig_def host_peer_def Let_def)
  obtain w4 where "ws_ipcSet (ow_wg out) conf w = (None, w4)" using out by (auto simp: outside_works_def) (metis prod.collapse)
  then have "SetPeer (ow_wg out) (host_peer result psk (jd_wgPort j)) True m w = (None, w4)" using conf m(2) by (simp add: SetPeer_def)
  then have 4: "on_world (SetPeer (ow_wg out) (host_peer result psk (jd_wgPort j)) True m) (t2\<lparr>rt_world := w\<rparr>) = (None, t2\<lparr>rt_world := w4\<rparr>)"
    by (simp add: on_world_def)
  let ?t = "t2\<lparr>rt_world := w4, rt_client := Some m, rt_clientIP := pr_AssignedIP result\<rparr>"
  have "join_configure out result (j, r) = (None, j\<lparr>jd_psk := psk, jd_configured := True\<rparr>, ?t)"
    using j(1) s2(1) session psk(1) [symmetric]
    by (simp add: join_configure_def 1(1) 2 e2 3 4 install_client_def same_session_def Let_def)
  moreover have "stored t2 ?c" using 1(4) stored_same [OF same_after(4) [OF 2 same_session_refl] s2(2)] by blast
  then have "stored ?t ?c" by (auto simp: stored_def)
  moreover have "same_host r ?t" "rt_session ?t" using s2(1) session by (simp_all add: same_session_def same_host_def)
  ultimately show ?thesis using m(3) by (intro exI [of _ ?t] exI [of _ m]) simp
qed

section \<open>From the invite to the tunnel\<close>

lemma hex_encode_ascii: "ascii (hex_encode bs)"
proof -
  have "\<forall>n<16. of_char (hex_digit n) < (0x80 :: nat)" unfolding all_below_16 by (simp add: hex_digit_def)
  then have d: "n < 16 \<Longrightarrow> of_char (hex_digit n) < (0x80 :: nat)" for n by blast
  have "unat (b :: byte) < 256" for b using unsigned_less [of b] by simp
  then have "unat (b :: byte) div 16 < 16" for b by (simp add: less_mult_imp_div_less)
  then show ?thesis by (induction bs) (simp_all add: ascii_def d)
qed

lemma invite_facts:
  assumes "GetInvite h = Inr code"
  shows "ascii (r_hostUID h)" "r_pairPort h \<noteq> 0" "r_roomKey h \<noteq> 0" "validAuthKey (be_bytes (r_roomKey h))"
proof -
  have "\<exists>code. Encode \<lparr>FixedRoomKey = r_fixedRoom h, HostUID = r_hostUID h, PairPort = r_pairPort h, RoomKey = r_roomKey h\<rparr> = Inr code"
    using assms by (auto simp: GetInvite_def split: if_splits)
  then have ok: "invite_ok \<lparr>FixedRoomKey = r_fixedRoom h, HostUID = r_hostUID h, PairPort = r_pairPort h, RoomKey = r_roomKey h\<rparr>"
    by (simp add: Encode_ok)
  then obtain uid where "hex_decode (r_hostUID h) = Some uid" "to_lower (r_hostUID h) = r_hostUID h"
    by (auto simp: invite_ok_def split: option.splits)
  then have "r_hostUID h = hex_encode uid" using hex_encode_decode by metis
  then show "ascii (r_hostUID h)" by (simp add: hex_encode_ascii)
  show "r_pairPort h \<noteq> 0" "r_roomKey h \<noteq> 0" using ok by (simp_all add: invite_ok_def)
  then show "validAuthKey (be_bytes (r_roomKey h))" by (simp add: validAuthKey_def)
qed

lemma run_connected:
  assumes "snd (pairWithSession (connected cfg challenge roomKey w nonce) authKey key uid name) = Inr result"
    "configure result s = (None, s')"
  shows "run_pairing (connected cfg challenge roomKey w nonce) authKey key uid name configure s = (Inr result, s')"
proof -
  have "(connected cfg challenge roomKey w nonce)\<lparr>ce_configure := None, ce_ack_sent := None\<rparr> = connected cfg challenge roomKey w nonce"
    by (simp add: connected_def)
  then show ?thesis using assms by (simp add: run_pairing_def) (simp add: connected_def)
qed

lemma session_apps_first:
  assumes "validateConfig c = None" "ports_free c pp" "ports_free c wp" "ascii uid" "dst \<noteq> 0" "dst' \<noteq> 0" "pp \<noteq> 0" "wp \<noteq> 0"
  shows "session_apps_ok c [PairingApp uid dst pp]"
    "session_apps_ok (c\<lparr>cf_Apps := userApps (cf_Apps c) @ [PairingApp uid dst pp]\<rparr>) [PairingApp uid dst pp, WireGuardApp uid dst' wp]"
proof -
  have e: "ap_Enabled (PairingApp uid dst pp) = 1" "ap_Enabled (WireGuardApp uid dst' wp) = 1"
    by (simp_all add: PairingApp_def WireGuardApp_def forward_app_def)
  have k: "app_key u \<noteq> app_key (PairingApp uid dst pp)" "app_key u \<noteq> app_key (WireGuardApp uid dst' wp)"
    if "u \<in> set (userApps (cf_Apps c))" "ap_Enabled u = 1" for u
    using ports_free_key(1) [OF assms(2,1) that] ports_free_key(2) [OF assms(3,1) that] by blast+
  note f = forward_app_internal forward_app_valid forward_app_text forward_app_key
  show "session_apps_ok c [PairingApp uid dst pp]"
    using assms(4-8) e k by (auto simp: session_apps_ok_def f)
  have "userApps [PairingApp uid dst pp] = []" by (simp add: userApps_def f)
  then show "session_apps_ok (c\<lparr>cf_Apps := userApps (cf_Apps c) @ [PairingApp uid dst pp]\<rparr>) [PairingApp uid dst pp, WireGuardApp uid dst' wp]"
    using assms(4-8) e k by (auto simp: session_apps_ok_def f)
qed

lemma Join_first:
  fixes h :: "'n room" and s :: "'w core"
  assumes host: "room_inv h" "revision (the_alloc h) < revision (the_alloc h) + 1" "GetInvite h = Inr (jo_Invite options)"
      "r_joinEnabled h" "r_wgPort h \<noteq> 0" "r_relayPort h \<noteq> 0"
    and challenge: "challenge_ok challenge" "sc_HostPublicKey challenge = r_hostPublic h"
    and client: "\<not> r_running s" "\<not> rt_session (r_net s)" "\<not> rt_ordinary (r_net s)" "stored (r_net s) c" "outside_works out"
    and options: "jo_FixedDeviceKey options" "validName (jo_Name options)" "validUID (np_Node (cf_Network c))"
    and env: "je_random env = Inr priv" "je_pairPort env = Inr pp" "je_wgPort env = Inr wp" "priv \<noteq> 0" "pp \<noteq> 0" "wp \<noteq> 0"
      "ports_free c pp" "ports_free c wp"
    and new: "fmlookup (d_files (rt_disk (r_net s))) (client_path (rt_dataDir (r_net s)) (r_hostUID h) ''.secret'') = None"
      "fmlookup (d_files (rt_disk (r_net s))) (client_path (rt_dataDir (r_net s)) (r_hostUID h) ''.membership.secret'') = None"
    and free: "\<not> blockedUID h (np_Node (cf_Network c))"
    and granted: "assign cb (x25519_base priv) (jo_Name options) (r_roomKey h) False h = (Inr g, h')"
    and keys: "x25519_base priv \<noteq> 0" "DerivePSK (r_roomKey h) (r_hostPublic h) (x25519_base priv) = psk" "psk \<noteq> 0"
  shows "\<exists>v s' m l. Join out env options ctx [(connected (room_config cb h) challenge (r_roomKey h) h nonce, stopped)] control controlCtx s =
        Some (Inr v, s')
      \<and> leases_of h' (x25519_base priv) = Some l \<and> jr_AssignedIP v = addr_string (lease_IP l) \<and> jr_HostUID v = r_hostUID h
      \<and> fmlookup (r_memberPSKs h') (x25519_base priv) = Some psk
      \<and> rt_session (r_net s') \<and> rt_client (r_net s') = Some m \<and> mg_localIP m = lease_IP l \<and> rt_clientIP (r_net s') = lease_IP l
      \<and> rt_control (r_net s') = Some control \<and> rt_lifecycle (r_net s') = ''online''
      \<and> file_secret (d_files (rt_disk (r_net s'))) (client_path (rt_dataDir (r_net s)) (r_hostUID h) ''.membership.secret'') = Some (be_bytes psk)
      \<and> disk_parts (rt_configPath (r_net s)) (rt_disk (r_net s')) = (userApps (cf_Apps c),
           [PairingApp (r_hostUID h) (r_pairPort h) pp, WireGuardApp (r_hostUID h) (r_wgPort h) wp])"
proof -
  let ?r = "r_net s" and ?key = "x25519_base priv" and ?uid = "np_Node (cf_Network c)"
  let ?challenge = "connected (room_config cb h) challenge (r_roomKey h) h nonce"
  note iv = invite_facts [OF host(3)]
  have "\<exists>request. newClientRequest challenge ?key ?uid (jo_Name options) (be_bytes (r_roomKey h)) (Inr nonce) = Inr request"
    using options(2,3) iv(4) keys(1) challenge(1) by (simp add: newClientRequest_def challenge_ok_def Let_def)
  then obtain request where request: "newClientRequest challenge ?key ?uid (jo_Name options) (be_bytes (r_roomKey h)) (Inr nonce) = Inr request"
    by blast
  from join_room [OF host(1-4) challenge request _ granted host(5,6)] free obtain inv result ack l where
    dec: "Decode (jo_Invite options) = Inr inv" "RoomKey inv = r_roomKey h" "HostUID inv = r_hostUID h" "PairPort inv = r_pairPort h"
    and res: "pr_WireGuardPort result = r_wgPort h" "pr_DiscoveryRelayPort result = r_relayPort h" "pr_HostPublicKey result = r_hostPublic h"
    and pair: "pairWithSession ?challenge (be_bytes (RoomKey inv)) ?key ?uid (jo_Name options) =
        ([(FrameClientRequest, request_bytes request), (FramePairAck, ack)], Inr result)"
    and l: "leases_of h' ?key = Some l" "lease_IP l = pr_AssignedIP result"
    and hostpsk: "fmlookup (r_memberPSKs h') ?key = Some (DerivePSK (RoomKey inv) (pr_HostPublicKey result) ?key)"
    by blast
  have "room_inv h'" using assign_inv [OF host(1,2), of cb ?key "jo_Name options" "r_roomKey h" False] granted by simp
  then obtain o' where o': "lease_IP l = net_ip o'" "2 \<le> o'" "o' \<le> 254"
    using alloc_invD(7) [OF alloc_okD [OF room_inv_alloc]] l(1) unfolding leases_of_def by blast
  have ip: "Is4 (pr_AssignedIP result)" "validSender (pr_AssignedIP result)"
    unfolding l(2) [symmetric] o'(1) using o'(3) order.trans [of 1 2 o'] o'(2) by (simp_all add: validSender_def)
  have cv: "validateConfig c = None"
    using storedD(2) [OF client(4)] by (auto simp: file_config_def bind_eq_Some_conv split: option.splits if_splits)
  note apps = session_apps_first [OF cv env(7,8) iv(1,2) host(5) env(5,6)]
  define r1 where r1: "r1 = snd (join_enter ctx ?r)"
  have enter: "join_enter ctx ?r = (None, r1)" using client(2,3) by (simp add: r1 join_enter_def)
  have r1s: "rt_session r1" "stored r1 c" "rt_disk r1 = rt_disk ?r" "rt_dataDir r1 = rt_dataDir ?r" "rt_configPath r1 = rt_configPath ?r"
    using client(2-4) by (auto simp: r1 join_enter_def setLifecycle_def setMode_def stored_def)
  let ?pair = "PairingApp (r_hostUID h) (r_pairPort h) pp" and ?wg = "WireGuardApp (r_hostUID h) (r_wgPort h) wp"
  let ?member = "client_path (rt_dataDir ?r) (r_hostUID h) ''.membership.secret''"
  let ?c1 = "c\<lparr>cf_Apps := userApps (cf_Apps c) @ [?pair]\<rparr>"
  define j where j: "j = \<lparr>jd_options = options, jd_invite = inv, jd_node = ?uid, jd_identity = fromECDH priv,
           jd_path = ?member, jd_psk = 0, jd_membership = False, jd_pairApp = ?pair, jd_wgPort = wp, jd_configured = False, jd_ctx = ctx\<rparr>"
  from prepare_first [OF client(5) r1s(2) dec(1) options(1) env(1-3), of ctx] new apps(1) obtain r2 where
    r2: "join_prepare out env options ctx r1 = (Inr j, r2)" "same_session r1 r2" "rt_moduleRun r2" "stored r2 ?c1"
    unfolding dec(3,4) r1s(3,4) j [symmetric] by blast
  have c1: "userApps (cf_Apps ?c1) = userApps (cf_Apps c)" by (simp add: userApps_def forward_app_internal)
  let ?c2 = "?c1\<lparr>cf_Apps := userApps (cf_Apps ?c1) @ [?pair, ?wg]\<rparr>"
  have s2: "rt_session r2" using r2(2) r1s(1) by (simp add: same_session_def)
  have jf: "\<not> jd_membership j" "jd_pairApp j = ?pair" "jd_invite j = inv" "jd_wgPort j = wp" "jd_identity j = fromECDH priv"
    "jd_node j = ?uid" "jd_options j = options" "jd_path j = ?member" "jd_ctx j = ctx" by (simp_all add: j)
  have "kp_Private (jd_identity j) \<noteq> 0" "kp_Public (jd_identity j) = ?key" using env(4) by (simp_all add: jf fromECDH_def)
  note id = this
  have hk: "pr_HostPublicKey result \<noteq> 0" using challenge res(3) by (simp add: challenge_ok_def)
  have pk: "psk = DerivePSK (RoomKey (jd_invite j)) (pr_HostPublicKey result) (kp_Public (jd_identity j))"
    using keys(2) by (simp add: jf(3) dec(2) res(3) id(2))
  have "session_apps_ok ?c1 [jd_pairApp j, WireGuardApp (HostUID (jd_invite j)) (pr_WireGuardPort result) (jd_wgPort j)]"
    using apps(2) by (simp add: jf dec(3) res(1))
  from configure_first [OF client(5) r2(4,3) s2 jf(1) id(1) ip _ hk _ pk keys(3) this] obtain r3 m where
    r3: "join_configure out result (j, r2) = (None, j\<lparr>jd_psk := psk, jd_configured := True\<rparr>, r3)" "rt_session r3"
      "rt_client r3 = Some m" "mg_localIP m = pr_AssignedIP result" "rt_clientIP r3 = pr_AssignedIP result" "same_host r2 r3" "stored r3 ?c2"
    using host(6) env(6) by (auto simp: jf dec(3) res)
  have turn: "join_attempt out ?challenge (j, r2) = (LoopDone (Inr result), j\<lparr>jd_psk := psk, jd_configured := True\<rparr>, r3)"
    using run_connected [of "room_config cb h" challenge "r_roomKey h" h nonce "be_bytes (RoomKey inv)" ?key ?uid "jo_Name options" result
      "join_configure out" "(j, r2)", OF _ r3(1)] pair
    by (simp add: join_attempt_def jf fromECDH_def Let_def)
  have "length (be_bytes psk) = 32" by simp
  then have "be_bytes psk \<noteq> []" by (metis list.size(3) zero_neq_numeral)
  moreover have "?member = client_path (rt_dataDir r3) (r_hostUID h) ''.membership.secret''"
    using r3(6) r2(2) r1s(4) by (simp add: same_host_def same_session_def)
  ultimately obtain r4 where r4: "in_files (secret_Save ?member (be_bytes psk)) r3 = (None, r4)" "same_session r3 r4" "stored r4 ?c2"
      "file_secret (d_files (rt_disk r4)) ?member = Some (be_bytes psk)"
    using save_secret_stored [OF r3(7)] by metis
  let ?v = "\<lparr>jr_HostUID = HostUID inv, jr_AssignedIP = addr_string (pr_AssignedIP result), jr_PrefixLength = pr_PrefixLength result,
      jr_WireGuardPort = pr_WireGuardPort result, jr_RelayPort = pr_DiscoveryRelayPort result\<rparr>"
  let ?r5 = "setLifecycle ''online'' (r4\<lparr>rt_control := Some control, rt_clientCancel := Some controlCtx, rt_joinCancel := None,
           rt_joinError := None, rt_cancelled := finsert ctx (rt_cancelled r4)\<rparr>)"
  have s4: "rt_session r4" "rt_client r4 = Some m" "rt_clientIP r4 = pr_AssignedIP result"
    using r4(2) r3 by (simp_all add: same_session_def)
  have save: "join_save (j\<lparr>jd_psk := psk, jd_configured := True\<rparr>) (Inr result) r3 = (Inr result, r4)"
    using options(1) r4(1) by (simp add: join_save_def jf)
  have fin: "join_online (j\<lparr>jd_psk := psk, jd_configured := True\<rparr>) result control controlCtx r4 = (Inr ?v, ?r5)"
    using s4(1) by (simp add: join_online_def jf)
  have J: "Join out env options ctx [(?challenge, stopped)] control controlCtx s = Some (Inr ?v, s\<lparr>r_net := ?r5\<rparr>)"
    using client(1) by (simp add: Join_def enter join_body_def r2(1) turn save fin)
  have path: "rt_configPath r4 = rt_configPath ?r"
    using r4(2) r3(6) r2(2) r1s(5) by (simp add: same_host_def same_session_def)
  have "disk_parts (rt_configPath ?r) (rt_disk r4) = (userApps (cf_Apps c), [?pair, ?wg])"
    using storedD(2) [OF r4(3)] unfolding path disk_parts_def parts_def
    by (simp add: userApps_def internalApps_def forward_app_internal)
  then show ?thesis
    using J l hostpsk s4 r3(4) r4(4) keys(2) dec res(3)
    by (intro exI [of _ ?v] exI [of _ "s\<lparr>r_net := ?r5\<rparr>"] exI [of _ m] exI [of _ l]) (simp add: setLifecycle_def)
qed

end
