(* ===== verification/Ip_Tree.thy ===== *)
theory Ip_Tree
  imports Wg_Config "HOL-Library.Tree"
begin

text \<open>
  \<open>internal/openp2pengine/iptree.go\<close>: the whitelist of a port forwarding, a search tree of disjoint
  ranges of IPv4 addresses, and the check of \<open>p2papp.go\<close> that uses it. The tree itself is the AVL tree
  of the gods library: inserting and removing are parameters, the code reads its nodes.
\<close>

section \<open>The tree\<close>

text \<open>A node: the key, which is the least address of the range, and the value with the greatest one.\<close>

type_synonym 'v node = "u32 \<times> u32 \<times> 'v"
type_synonym 'v iptree = "'v node tree"

text \<open>\<open>Tree.Remove\<close> and \<open>Tree.Put\<close>.\<close>

record 'v avl =
  avl_remove :: "u32 \<Rightarrow> 'v iptree \<Rightarrow> 'v iptree"
  avl_put :: "u32 \<Rightarrow> u32 \<times> 'v \<Rightarrow> 'v iptree \<Rightarrow> 'v iptree"

text \<open>What the library documents: both keep the search tree, one drops the key, the other sets it.\<close>

definition key_order :: "'v node \<Rightarrow> 'v node \<Rightarrow> bool" where
  "key_order a b \<longleftrightarrow> fst a < fst b"

definition avl_ok :: "'v avl \<Rightarrow> bool" where
  "avl_ok a \<longleftrightarrow> (\<forall>t k. bst_wrt key_order t \<longrightarrow>
       bst_wrt key_order (avl_remove a k t) \<and> set_tree (avl_remove a k t) = {n \<in> set_tree t. fst n \<noteq> k})
     \<and> (\<forall>t k v. bst_wrt key_order t \<longrightarrow>
       bst_wrt key_order (avl_put a k v t) \<and> set_tree (avl_put a k v t) = insert (k, v) {n \<in> set_tree t. fst n \<noteq> k})"

definition DelIntIP :: "'v avl \<Rightarrow> u32 \<Rightarrow> u32 \<Rightarrow> 'v iptree \<Rightarrow> 'v iptree" where
  "DelIntIP a minIP maxIP t = avl_remove a minIP t"

text \<open>
  The loop of \<open>AddIntIP\<close>: from the node \<open>cur\<close> of the tree \<open>t\<close>; the left result is the early return of a
  range that is there already, the right one the tree and the range to put into it.
\<close>

partial_function (option) add_loop ::
  "'v avl \<Rightarrow> 'v iptree \<Rightarrow> 'v iptree \<Rightarrow> u32 \<Rightarrow> u32 \<Rightarrow> ('v iptree + 'v iptree \<times> u32 \<times> u32) option" where
  "add_loop a t cur newMin newMax =
     (case cur of
        Leaf \<Rightarrow> Some (Inr (t, newMin, newMax))
      | Node l n r \<Rightarrow>
          if newMin \<ge> fst n \<and> newMax \<le> fst (snd n) then Some (Inl t)
          else if newMin > fst (snd n) then add_loop a t r newMin newMax
          else if newMax < fst n then add_loop a t l newMin newMax
          else add_loop a (avl_remove a (fst n) t) (avl_remove a (fst n) t)
                 (if fst n < newMin then fst n else newMin) (if fst (snd n) > newMax then fst (snd n) else newMax))"

definition AddIntIP :: "'v avl \<Rightarrow> u32 \<Rightarrow> u32 \<Rightarrow> 'v \<Rightarrow> 'v iptree \<Rightarrow> (bool \<times> 'v iptree) option" where
  "AddIntIP a minIP maxIP v t =
     (if minIP > maxIP then Some (False, t)
      else map_option (\<lambda>res. case res of
             Inl t' \<Rightarrow> (True, t')
           | Inr (t', newMin, newMax) \<Rightarrow> (True, avl_put a newMin (newMax, v) t')) (add_loop a t t minIP maxIP))"

fun iptree_Load :: "'v iptree \<Rightarrow> u32 \<Rightarrow> 'v option" where
  "iptree_Load Leaf ip = None"
| "iptree_Load (Node l (k, m, v) r) ip =
     (if ip \<ge> k \<and> ip \<le> m then Some v else if ip < k then iptree_Load l ip else iptree_Load r ip)"

definition iptree_Size :: "'v iptree \<Rightarrow> nat" where
  "iptree_Size t = size t"

definition iptree_Clear :: "'v iptree \<Rightarrow> 'v iptree" where
  "iptree_Clear t = Leaf"

section \<open>Addresses as text\<close>

text \<open>
  \<open>net.ParseIP(s).To4()\<close> read as a big-endian number. Of what is no IPv4 address (an IPv6 address, or no
  address) \<open>To4\<close> is nil, \<open>binary.Read\<close> fails and its error is dropped: the number stays 0.
\<close>

definition net_ParseIP :: "string \<Rightarrow> addr option" where
  "net_ParseIP s = (case ParseAddr s of Some (Addr6 v zone) \<Rightarrow> if zone = [] then Some (Addr6 v []) else None | r \<Rightarrow> r)"

definition To4 :: "addr \<Rightarrow> u32 option" where
  "To4 ip = (case ip of
     Addr4 w \<Rightarrow> Some w
   | Addr6 v _ \<Rightarrow> if unat v div 2 ^ 32 = 0xFFFF then Some (of_nat (unat v mod 2 ^ 32)) else None
   | AddrZero \<Rightarrow> None)"

definition ip_number :: "string \<Rightarrow> u32" where
  "ip_number s = (case Option.bind (net_ParseIP s) To4 of None \<Rightarrow> 0 | Some w \<Rightarrow> w)"

text \<open>\<open>IP.String\<close>.\<close>

definition ip_text :: "addr \<Rightarrow> string" where
  "ip_text ip = (case To4 ip of Some w \<Rightarrow> string4 w | None \<Rightarrow> addr_string ip)"

definition iptree_Add :: "'v avl \<Rightarrow> string \<Rightarrow> string \<Rightarrow> 'v \<Rightarrow> 'v iptree \<Rightarrow> (bool \<times> 'v iptree) option" where
  "iptree_Add a minIPStr maxIPStr v t = AddIntIP a (ip_number minIPStr) (ip_number maxIPStr) v t"

definition iptree_Del :: "'v avl \<Rightarrow> string \<Rightarrow> string \<Rightarrow> 'v iptree \<Rightarrow> 'v iptree" where
  "iptree_Del a minIPStr maxIPStr t = DelIntIP a (ip_number minIPStr) (ip_number maxIPStr) t"

definition iptree_Contains :: "'v iptree \<Rightarrow> string \<Rightarrow> bool" where
  "iptree_Contains t ipStr = (iptree_Load t (ip_number ipStr) \<noteq> None)"

definition IsLocalhost :: "string \<Rightarrow> bool" where
  "IsLocalhost ipStr = (ipStr = ''localhost'' \<or> ipStr = ''127.0.0.1'' \<or> ipStr = ''::1'')"

text \<open>\<open>net.ParseCIDR\<close>: the first and the last address of the network.\<close>

definition cidr_mask :: "nat \<Rightarrow> 'a::len word" where
  "cidr_mask n = push_bit (LENGTH('a) - n) (NOT 0)"

definition ParseCIDR :: "string \<Rightarrow> (addr \<times> addr) option" where
  "ParseCIDR s =
     (case str_cut (CHR ''/'') s of
        None \<Rightarrow> None
      | Some (address, bits) \<Rightarrow>
          (case (net_ParseIP address, if bits = [] then None else dec_digits bits 0) of
             (Some (Addr4 w), Some n) \<Rightarrow>
               if n > 32 then None else Some (Addr4 (and w (cidr_mask n)), Addr4 (or (and w (cidr_mask n)) (not (cidr_mask n))))
           | (Some (Addr6 v _), Some n) \<Rightarrow>
               if n > 128 then None
               else Some (Addr6 (and v (cidr_mask n)) [], Addr6 (or (and v (cidr_mask n)) (not (cidr_mask n))) [])
           | _ \<Rightarrow> None))"

section \<open>The whitelist\<close>

text \<open>The texts of the least and the greatest address of an entry; an unreadable network is skipped.\<close>

definition entry_bounds :: "string \<Rightarrow> (string \<times> string) option" where
  "entry_bounds ip =
     (if CHR ''/'' \<in> set ip then map_option (\<lambda>(lo, hi). (ip_text lo, ip_text hi)) (ParseCIDR ip)
      else if CHR ''-'' \<in> set ip then (let minAndMax = split_on (CHR ''-'') ip in Some (minAndMax ! 0, minAndMax ! 1))
      else Some (ip, ip))"

definition add_entry :: "unit avl \<Rightarrow> string \<Rightarrow> unit iptree \<Rightarrow> unit iptree option" where
  "add_entry a ip t =
     (case entry_bounds ip of
        None \<Rightarrow> Some t
      | Some (lo, hi) \<Rightarrow> map_option snd (iptree_Add a lo hi () t))"

fun add_entries :: "unit avl \<Rightarrow> string list \<Rightarrow> unit iptree \<Rightarrow> unit iptree option" where
  "add_entries a [] t = Some t"
| "add_entries a (ip # ips) t = Option.bind (add_entry a ip t) (add_entries a ips)"

definition NewIPTree :: "unit avl \<Rightarrow> string \<Rightarrow> unit iptree option" where
  "NewIPTree a ips = add_entries a (split_on (CHR '','') ips) Leaf"

text \<open>The check of \<open>listenTCP\<close>: is a connection from this address let in?\<close>

definition admitted :: "string \<Rightarrow> unit iptree \<Rightarrow> string \<Rightarrow> bool" where
  "admitted whitelist tree remoteIP \<longleftrightarrow> whitelist = [] \<or> iptree_Contains tree remoteIP \<or> IsLocalhost remoteIP"

section \<open>Ranges\<close>

text \<open>The invariant: the ranges are not empty, disjoint and in order.\<close>

definition before :: "'v node \<Rightarrow> 'v node \<Rightarrow> bool" where
  "before a b \<longleftrightarrow> fst (snd a) < fst b"

definition ranges :: "'v iptree \<Rightarrow> bool" where
  "ranges t \<longleftrightarrow> bst_wrt before t \<and> (\<forall>n\<in>set_tree t. fst n \<le> fst (snd n))"

definition covered :: "'v iptree \<Rightarrow> u32 set" where
  "covered t = (\<Union>n\<in>set_tree t. {fst n..fst (snd n)})"

lemma covered_simps [simp]: "covered Leaf = {}"
  "covered (Node l n r) = covered l \<union> {fst n..fst (snd n)} \<union> covered r"
  by (auto simp: covered_def)

lemma ranges_Node: "ranges (Node l n r) \<longleftrightarrow> ranges l \<and> ranges r \<and> fst n \<le> fst (snd n)
    \<and> (\<forall>x\<in>set_tree l. before x n) \<and> (\<forall>x\<in>set_tree r. before n x)"
  by (auto simp: ranges_def)

lemma ranges_NodeD:
  assumes "ranges (Node l n r)"
  shows "ranges l" "ranges r" "fst n \<le> fst (snd n)" "\<And>x. x \<in> set_tree l \<Longrightarrow> fst x \<le> fst (snd x) \<and> fst (snd x) < fst n \<and> fst x < fst n"
    "\<And>x. x \<in> set_tree r \<Longrightarrow> fst x \<le> fst (snd x) \<and> fst (snd n) < fst x \<and> fst n < fst x"
proof -
  show r: "ranges l" "ranges r" "fst n \<le> fst (snd n)" using assms by (simp_all add: ranges_Node)
  show "fst x \<le> fst (snd x) \<and> fst (snd x) < fst n \<and> fst x < fst n" if "x \<in> set_tree l" for x
    using assms that le_less_trans [of "fst x" "fst (snd x)" "fst n"] by (simp add: ranges_def before_def)
  show "fst x \<le> fst (snd x) \<and> fst (snd n) < fst x \<and> fst n < fst x" if "x \<in> set_tree r" for x
    using assms that le_less_trans [of "fst n" "fst (snd n)" "fst x"] by (simp add: ranges_def before_def)
qed

lemma bst_wrt_mono:
  "bst_wrt P t \<Longrightarrow> (\<And>x y. x \<in> set_tree t \<Longrightarrow> y \<in> set_tree t \<Longrightarrow> P x y \<Longrightarrow> Q x y) \<Longrightarrow> bst_wrt Q t"
  by (induction t) auto

lemma ranges_before:
  "ranges t \<Longrightarrow> x \<in> set_tree t \<Longrightarrow> y \<in> set_tree t \<Longrightarrow> x = y \<or> before x y \<and> fst x < fst y \<or> before y x \<and> fst y < fst x"
proof (induction t)
  case (Node l n r)
  note D = ranges_NodeD [OF Node.prems(1)]
  have lr: "before u v \<and> fst u < fst v" if "u \<in> set_tree l" "v \<in> set_tree r" for u v
  proof -
    have "fst (snd u) < fst n" "fst u < fst n" "fst n < fst v" using D(4) [OF that(1)] D(5) [OF that(2)] by auto
    then show ?thesis by (auto simp: before_def intro: less_trans)
  qed
  have n: "u \<in> set_tree l \<Longrightarrow> before u n \<and> fst u < fst n" "u \<in> set_tree r \<Longrightarrow> before n u \<and> fst n < fst u" for u
    using D(4,5) by (auto simp: before_def)
  note ih = Node.IH(1) [OF D(1)] Node.IH(2) [OF D(2)]
  have c: "u = n \<or> u \<in> set_tree l \<or> u \<in> set_tree r" if "u \<in> set_tree (Node l n r)" for u using that by auto
  from c [OF Node.prems(2)] c [OF Node.prems(3)] show ?case using ih lr n by blast
qed simp

lemma ranges_iff:
  "ranges t \<longleftrightarrow> bst_wrt key_order t \<and> (\<forall>n\<in>set_tree t. fst n \<le> fst (snd n))
     \<and> (\<forall>x\<in>set_tree t. \<forall>y\<in>set_tree t. fst x < fst y \<longrightarrow> before x y)" (is "_ = ?R")
proof
  assume t: "ranges t"
  have "bst_wrt key_order t"
  proof (rule bst_wrt_mono [of before])
    show "key_order x y" if "x \<in> set_tree t" "y \<in> set_tree t" "before x y" for x y
      using that t le_less_trans [of "fst x" "fst (snd x)" "fst y"] by (simp add: ranges_def before_def key_order_def)
  qed (use t in \<open>simp add: ranges_def\<close>)
  moreover have "before x y" if "x \<in> set_tree t" "y \<in> set_tree t" "fst x < fst y" for x y
    using ranges_before [OF t that(1,2)] that(3) by auto
  ultimately show ?R using t by (simp add: ranges_def)
next
  assume ?R
  then have "bst_wrt before t" by (intro bst_wrt_mono [of key_order t before]) (simp_all add: key_order_def)
  with \<open>?R\<close> show "ranges t" by (simp add: ranges_def)
qed

lemma avl_removeD:
  assumes "avl_ok a" "ranges t"
  shows "ranges (avl_remove a k t)" "set_tree (avl_remove a k t) = {n \<in> set_tree t. fst n \<noteq> k}"
proof -
  have b: "bst_wrt key_order t" using assms(2) by (simp add: ranges_iff)
  then have r: "bst_wrt key_order (avl_remove a k t)" and s: "set_tree (avl_remove a k t) = {n \<in> set_tree t. fst n \<noteq> k}"
    using assms(1) unfolding avl_ok_def by blast+
  show "set_tree (avl_remove a k t) = {n \<in> set_tree t. fst n \<noteq> k}" by (rule s)
  show "ranges (avl_remove a k t)" using assms(2) r by (simp add: ranges_iff s)
qed

lemma ranges_key:
  assumes "ranges t" "x \<in> set_tree t" "y \<in> set_tree t" "fst x = fst y"
  shows "x = y"
  using ranges_before [OF assms(1-3)] assms(4) by auto

lemma Load_covered: "ranges t \<Longrightarrow> (iptree_Load t ip \<noteq> None) = (ip \<in> covered t)"
proof (induction t ip rule: iptree_Load.induct)
  case (2 l k m v r ip)
  note D = ranges_NodeD [OF "2.prems", simplified]
  have r: "ip \<notin> covered r" if "ip < k"
  proof
    assume "ip \<in> covered r"
    then obtain n where n: "n \<in> set_tree r" "fst n \<le> ip" by (auto simp: covered_def)
    have "k < fst n" using D(5) [OF n(1)] by simp
    with n(2) that show False by (simp add: not_le [symmetric])
  qed
  have l: "ip \<notin> covered l" if "\<not> ip < k"
  proof
    assume "ip \<in> covered l"
    then obtain n where n: "n \<in> set_tree l" "ip \<le> fst (snd n)" by (auto simp: covered_def)
    have "fst (snd n) < k" using D(4) [OF n(1)] by simp
    with n(2) that show False by (simp add: not_less)
  qed
  show ?case using "2.IH" D(1,2) r l by auto
qed simp

section \<open>Adding a range\<close>

lemma size_remove:
  assumes "avl_ok a" "ranges t" "n \<in> set_tree t"
  shows "card (set_tree (avl_remove a (fst n) t)) < card (set_tree t)"
  using assms by (auto simp: avl_removeD intro!: psubset_card_mono)

definition touches :: "u32 \<Rightarrow> u32 \<Rightarrow> 'v node \<Rightarrow> bool" where
  "touches lo hi n \<longleftrightarrow> fst n \<le> hi \<and> lo \<le> fst (snd n)"

lemma interval_hull:
  fixes k m lo hi :: "'a::linorder"
  assumes "k \<le> m" "lo \<le> hi" "\<not> m < lo" "\<not> hi < k"
  shows "(if k < lo then k else lo) \<le> (if m > hi then m else hi)"
    "{if k < lo then k else lo..if m > hi then m else hi} = {k..m} \<union> {lo..hi}"
  using assms by auto

text \<open>What the loop has to reach, whatever it started from.\<close>

definition merged :: "u32 set \<Rightarrow> ('v iptree + 'v iptree \<times> u32 \<times> u32) option \<Rightarrow> bool" where
  "merged S res \<longleftrightarrow>
     (case res of
        None \<Rightarrow> False
      | Some (Inl t) \<Rightarrow> ranges t \<and> covered t = S
      | Some (Inr (t, lo, hi)) \<Rightarrow> ranges t \<and> lo \<le> hi \<and> (\<forall>n\<in>set_tree t. \<not> touches lo hi n) \<and> covered t \<union> {lo..hi} = S)"

lemma add_loop_merged:
  assumes "avl_ok a"
  shows "ranges t \<Longrightarrow> ranges cur \<Longrightarrow> set_tree cur \<subseteq> set_tree t \<Longrightarrow> lo \<le> hi
    \<Longrightarrow> \<forall>n\<in>set_tree t. touches lo hi n \<longrightarrow> n \<in> set_tree cur
    \<Longrightarrow> merged (covered t \<union> {lo..hi}) (add_loop a t cur lo hi)"
proof (induction "(card (set_tree t), size cur)" arbitrary: t cur lo hi rule: wf_induct_rule [OF wf_lex_prod [OF wf_less_than wf_less_than]])
  case (1 t cur lo hi)
  show ?case
  proof (cases cur)
    case Leaf
    with 1 show ?thesis by (simp add: add_loop.simps [of a t] merged_def)
  next
    case (Node l n r)
    note D = ranges_NodeD [OF "1.prems"(2) [unfolded Node]]
    have n: "n \<in> set_tree t" "set_tree l \<subseteq> set_tree t" "set_tree r \<subseteq> set_tree t" using "1.prems"(3) Node by auto
    consider (inside) "fst n \<le> lo" "hi \<le> fst (snd n)" | (right) "\<not> (fst n \<le> lo \<and> hi \<le> fst (snd n))" "fst (snd n) < lo"
      | (left) "\<not> (fst n \<le> lo \<and> hi \<le> fst (snd n))" "\<not> fst (snd n) < lo" "hi < fst n"
      | (meets) "\<not> (fst n \<le> lo \<and> hi \<le> fst (snd n))" "\<not> fst (snd n) < lo" "\<not> hi < fst n" by blast
    then show ?thesis
    proof cases
      case inside
      then have "{lo..hi} \<subseteq> {fst n..fst (snd n)}" by auto
      then have "{lo..hi} \<subseteq> covered t" using n(1) unfolding covered_def by blast
      then show ?thesis using inside "1.prems"(1) by (simp add: add_loop.simps [of a t "Node l n r"] Node merged_def Un_absorb2)
    next
      case right
      have "add_loop a t cur lo hi = add_loop a t r lo hi" using right by (auto simp: add_loop.simps [of a t "Node l n r"] Node)
      moreover have "\<not> touches lo hi x" if "x \<in> insert n (set_tree l)" for x
      proof -
        have "fst (snd x) < lo"
        proof (cases "x = n")
          case False
          then have "fst (snd x) < fst n" using that D(4) by auto
          also have "fst n \<le> fst (snd n)" by (rule D(3))
          also have "fst (snd n) < lo" by (rule right(2))
          finally show ?thesis .
        qed (simp add: right(2))
        then show ?thesis by (auto simp: touches_def)
      qed
      then have "\<forall>x\<in>set_tree t. touches lo hi x \<longrightarrow> x \<in> set_tree r" using "1.prems"(5) Node by auto
      ultimately show ?thesis using "1.hyps" [OF _ "1.prems"(1) D(2) n(3) "1.prems"(4)] Node by simp
    next
      case left
      have "add_loop a t cur lo hi = add_loop a t l lo hi" using left by (auto simp: add_loop.simps [of a t "Node l n r"] Node)
      moreover have "\<not> touches lo hi x" if "x \<in> insert n (set_tree r)" for x
      proof -
        have "hi < fst x"
        proof (cases "x = n")
          case False
          have "hi < fst n" by (rule left(3))
          also have "fst n < fst x" using False that D(5) by auto
          finally show ?thesis .
        qed (simp add: left(3))
        then show ?thesis by (auto simp: touches_def)
      qed
      then have "\<forall>x\<in>set_tree t. touches lo hi x \<longrightarrow> x \<in> set_tree l" using "1.prems"(5) Node by auto
      ultimately show ?thesis using "1.hyps" [OF _ "1.prems"(1) D(1) n(2) "1.prems"(4)] Node by simp
    next
      case meets
      let ?t = "avl_remove a (fst n) t" and ?lo = "if fst n < lo then fst n else lo"
        and ?hi = "if fst (snd n) > hi then fst (snd n) else hi"
      have "add_loop a t cur lo hi = add_loop a ?t ?t ?lo ?hi" using meets by (auto simp: add_loop.simps [of a t "Node l n r"] Node)
      moreover have "((card (set_tree ?t), size ?t), (card (set_tree t), size cur)) \<in> less_than <*lex*> less_than"
        using size_remove [OF assms "1.prems"(1) n(1)] by simp
      moreover have t: "ranges ?t" "set_tree ?t = set_tree t - {n}"
        using avl_removeD [OF assms "1.prems"(1)] ranges_key [OF "1.prems"(1) _ n(1)] by auto
      moreover have hull: "?lo \<le> ?hi" "{?lo..?hi} = {fst n..fst (snd n)} \<union> {lo..hi}"
        using interval_hull [OF D(3) \<open>lo \<le> hi\<close> meets(2,3)] by blast+
      moreover have "covered ?t \<union> {?lo..?hi} = covered t \<union> {lo..hi}"
      proof -
        have "set_tree t = insert n (set_tree ?t)" using n(1) by (auto simp: t)
        then have "covered t = covered ?t \<union> {fst n..fst (snd n)}" by (simp add: covered_def Un_commute)
        then show ?thesis by (simp only: hull(2) Un_assoc)
      qed
      moreover have "\<forall>x\<in>set_tree ?t. touches ?lo ?hi x \<longrightarrow> x \<in> set_tree ?t" by blast
      ultimately show ?thesis using "1.hyps" [of ?t ?t ?lo ?hi] by simp
    qed
  qed
qed

lemma AddIntIP_covered:
  assumes a: "avl_ok a" and t: "ranges t"
  shows "\<exists>t'. AddIntIP a lo hi v t = Some (lo \<le> hi, t') \<and> ranges t' \<and> covered t' = covered t \<union> {lo..hi}"
proof (cases "lo \<le> hi")
  case True
  have m: "merged (covered t \<union> {lo..hi}) (add_loop a t t lo hi)" by (rule add_loop_merged [OF a t t]) (use True in auto)
  show ?thesis
  proof (cases "add_loop a t t lo hi")
    case (Some res)
    show ?thesis
    proof (cases res)
      case (Inl t')
      with m Some True show ?thesis by (auto simp: merged_def AddIntIP_def)
    next
      case (Inr p)
      obtain t' lo' hi' where p: "p = (t', lo', hi')" by (cases p)
      have r: "ranges t'" "lo' \<le> hi'" "\<forall>n\<in>set_tree t'. \<not> touches lo' hi' n" "covered t' \<union> {lo'..hi'} = covered t \<union> {lo..hi}"
        using m by (simp_all add: merged_def Some Inr p)
      have ne: "fst n \<noteq> lo'" if "n \<in> set_tree t'" for n
      proof
        assume "fst n = lo'"
        moreover have "fst n \<le> fst (snd n)" using r(1) that by (simp add: ranges_def)
        ultimately show False using r(2,3) that by (auto simp: touches_def)
      qed
      then have d: "{n \<in> set_tree t'. fst n \<noteq> lo'} = set_tree t'" by auto
      have b: "bst_wrt key_order t'" using r(1) by (simp add: ranges_iff)
      let ?p = "avl_put a lo' (hi', v) t'"
      have put: "bst_wrt key_order ?p" "set_tree ?p = insert (lo', hi', v) (set_tree t')"
        using a b d unfolding avl_ok_def by simp_all
      have b1: "before x (lo', hi', v)" if "x \<in> set_tree t'" "fst x < lo'" for x
      proof -
        have "fst x \<le> hi'" using that(2) r(2) by (rule less_imp_le [OF less_le_trans])
        moreover have "\<not> touches lo' hi' x" using r(3) that(1) by blast
        ultimately show ?thesis by (simp add: before_def touches_def not_le)
      qed
      have b2: "before (lo', hi', v) x" if "x \<in> set_tree t'" "lo' < fst x" for x
      proof -
        have "fst x \<le> fst (snd x)" using r(1) that by (simp add: ranges_def)
        then have "lo' \<le> fst (snd x)" using that(2) by (rule order.trans [OF less_imp_le, rotated])
        moreover have "\<not> touches lo' hi' x" using r(3) that(1) by blast
        ultimately show ?thesis by (simp add: before_def touches_def not_le)
      qed
      have "ranges ?p"
        unfolding ranges_iff put(2) using put(1) r(1,2) b1 b2 by (simp add: ranges_iff)
      moreover have "covered ?p = covered t' \<union> {lo'..hi'}" by (auto simp: covered_def put)
      ultimately show ?thesis using True r(4) by (simp add: AddIntIP_def Some Inr p)
    qed
  qed (use m in \<open>simp add: merged_def\<close>)
qed (use t in \<open>auto simp: AddIntIP_def\<close>)

section \<open>What a whitelist admits\<close>

definition entry_range :: "string \<Rightarrow> u32 set" where
  "entry_range ip = (case entry_bounds ip of None \<Rightarrow> {} | Some (lo, hi) \<Rightarrow> {ip_number lo..ip_number hi})"

lemma add_entry_covered:
  assumes "avl_ok a" "ranges t"
  shows "\<exists>t'. add_entry a e t = Some t' \<and> ranges t' \<and> covered t' = covered t \<union> entry_range e"
proof (cases "entry_bounds e")
  case (Some p)
  obtain lo hi where p: "p = (lo, hi)" by (cases p)
  from AddIntIP_covered [OF assms, of "ip_number lo" "ip_number hi" "()"] show ?thesis
    by (auto simp: add_entry_def iptree_Add_def entry_range_def Some p)
qed (use assms in \<open>simp add: add_entry_def entry_range_def\<close>)

lemma add_entries_covered:
  assumes "avl_ok a"
  shows "ranges t \<Longrightarrow> \<exists>t'. add_entries a es t = Some t' \<and> ranges t' \<and> covered t' = covered t \<union> (\<Union>e\<in>set es. entry_range e)"
proof (induction es arbitrary: t)
  case (Cons e es)
  from add_entry_covered [OF assms Cons.prems] obtain t1 where
    t1: "add_entry a e t = Some t1" "ranges t1" "covered t1 = covered t \<union> entry_range e" by blast
  from Cons.IH [OF t1(2)] show ?case by (auto simp: t1(1,3))
qed simp

lemma NewIPTree_covered:
  assumes "avl_ok a"
  shows "\<exists>t. NewIPTree a w = Some t \<and> ranges t \<and> covered t = (\<Union>e\<in>set (split_on (CHR '','') w). entry_range e)"
  using add_entries_covered [OF assms, of Leaf "split_on (CHR '','') w"] by (simp add: NewIPTree_def ranges_def)

lemma Contains_covered: "ranges t \<Longrightarrow> iptree_Contains t ip \<longleftrightarrow> ip_number ip \<in> covered t"
  unfolding iptree_Contains_def by (rule Load_covered)

section \<open>A tree with these laws\<close>

text \<open>Plain search trees: the laws of the AVL library can be met.\<close>

fun plain_put :: "u32 \<Rightarrow> u32 \<times> 'v \<Rightarrow> 'v iptree \<Rightarrow> 'v iptree" where
  "plain_put k v Leaf = Node Leaf (k, v) Leaf"
| "plain_put k v (Node l n r) =
     (if k < fst n then Node (plain_put k v l) n r else if fst n < k then Node l n (plain_put k v r) else Node l (k, v) r)"

fun tree_join :: "'a tree \<Rightarrow> 'a tree \<Rightarrow> 'a tree" where
  "tree_join Leaf t = t"
| "tree_join (Node l n r) t = Node l n (tree_join r t)"

fun plain_remove :: "u32 \<Rightarrow> 'v iptree \<Rightarrow> 'v iptree" where
  "plain_remove k Leaf = Leaf"
| "plain_remove k (Node l n r) =
     (if k < fst n then Node (plain_remove k l) n r else if fst n < k then Node l n (plain_remove k r) else tree_join l r)"

definition plain_avl :: "'v avl" where
  "plain_avl = \<lparr>avl_remove = plain_remove, avl_put = plain_put\<rparr>"

lemma set_tree_join [simp]: "set_tree (tree_join l r) = set_tree l \<union> set_tree r"
  by (induction l) auto

lemma bst_tree_join:
  "bst_wrt key_order l \<Longrightarrow> bst_wrt key_order r \<Longrightarrow> (\<And>x y. x \<in> set_tree l \<Longrightarrow> y \<in> set_tree r \<Longrightarrow> key_order x y)
     \<Longrightarrow> bst_wrt key_order (tree_join l r)"
  by (induction l) auto

lemma key_order_trans: "key_order x y \<Longrightarrow> key_order y z \<Longrightarrow> key_order x z"
  unfolding key_order_def by (rule less_trans)

lemma key_order_irrefl: "\<not> key_order x x" "key_order x y \<Longrightarrow> fst x \<noteq> fst y"
  by (auto simp: key_order_def)

lemma set_plain_remove: "bst_wrt key_order t \<Longrightarrow> set_tree (plain_remove k t) = {n \<in> set_tree t. fst n \<noteq> k}"
proof (induction t)
  case (Node l n r)
  then have l: "\<forall>x\<in>set_tree l. fst x < fst n" "\<forall>x\<in>set_tree r. fst n < fst x" by (auto simp: key_order_def)
  have "k < fst n \<Longrightarrow> \<forall>x\<in>insert n (set_tree r). fst x \<noteq> k" "fst n < k \<Longrightarrow> \<forall>x\<in>insert n (set_tree l). fst x \<noteq> k"
    "\<forall>x\<in>set_tree l. fst x \<noteq> fst n" "\<forall>x\<in>set_tree r. fst x \<noteq> fst n"
    using l by (auto dest: less_asym)
  moreover have "\<not> k < fst n \<Longrightarrow> \<not> fst n < k \<Longrightarrow> k = fst n" by simp
  ultimately show ?case using Node by (cases "k < fst n"; cases "fst n < k") auto
qed simp

lemma bst_plain_remove: "bst_wrt key_order t \<Longrightarrow> bst_wrt key_order (plain_remove k t)"
proof (induction t)
  case (Node l n r)
  then have "bst_wrt key_order (tree_join l r)" by (intro bst_tree_join) (auto intro: key_order_trans)
  with Node show ?case by (auto simp: set_plain_remove)
qed simp

lemma set_plain_put: "bst_wrt key_order t \<Longrightarrow> set_tree (plain_put k v t) = insert (k, v) {n \<in> set_tree t. fst n \<noteq> k}"
proof (induction t)
  case (Node l n r)
  then have l: "\<forall>x\<in>set_tree l. fst x < fst n" "\<forall>x\<in>set_tree r. fst n < fst x" by (auto simp: key_order_def)
  have "k < fst n \<Longrightarrow> \<forall>x\<in>insert n (set_tree r). fst x \<noteq> k" "fst n < k \<Longrightarrow> \<forall>x\<in>insert n (set_tree l). fst x \<noteq> k"
    "\<forall>x\<in>set_tree l. fst x \<noteq> fst n" "\<forall>x\<in>set_tree r. fst x \<noteq> fst n"
    using l by (auto dest: less_asym)
  moreover have "\<not> k < fst n \<Longrightarrow> \<not> fst n < k \<Longrightarrow> k = fst n" by simp
  ultimately show ?case using Node by (cases "k < fst n"; cases "fst n < k") auto
qed simp

lemma bst_plain_put: "bst_wrt key_order t \<Longrightarrow> bst_wrt key_order (plain_put k v t)"
proof (induction t)
  case (Node l n r)
  have e: "\<not> k < fst n \<Longrightarrow> \<not> fst n < k \<Longrightarrow> k = fst n" by simp
  have s: "x = (k, v) \<or> x \<in> set_tree u" if "bst_wrt key_order u" "x \<in> set_tree (plain_put k v u)" for x u
    using that by (auto simp: set_plain_put)
  have b: "bst_wrt key_order l" "bst_wrt key_order r" "\<forall>x\<in>set_tree l. key_order x n" "\<forall>x\<in>set_tree r. key_order n x"
    using Node.prems by simp_all
  consider "k < fst n" | "fst n < k" | "k = fst n" by fastforce
  then show ?case
  proof cases
    case 1
    then have "key_order x n" if "x \<in> set_tree (plain_put k v l)" for x using s [OF b(1) that] b(3) by (auto simp: key_order_def)
    with 1 Node.IH(1) b show ?thesis by simp
  next
    case 2
    then have "key_order n x" if "x \<in> set_tree (plain_put k v r)" for x using s [OF b(2) that] b(4) by (auto simp: key_order_def)
    with 2 Node.IH(2) b show ?thesis by (auto dest: less_asym)
  next
    case 3
    then have "key_order x (k, v) = key_order x n" "key_order (k, v) x = key_order n x" for x by (simp_all add: key_order_def)
    with 3 b show ?thesis by simp
  qed
qed simp

lemma plain_avl_ok: "avl_ok plain_avl"
  by (simp add: avl_ok_def plain_avl_def set_plain_remove bst_plain_remove set_plain_put bst_plain_put)

end
