(* ===== verification/Management.thy ===== *)
theory Management
  imports Ip_Tree Openp2p_Laws
begin

text \<open>
  \<open>internal/management/settings.go\<close>: the address of the management page and the clients it admits, in
  a settings file whose other members belong to another program; and the checks of
  \<open>internal/webapi/server.go\<close> that every request passes.
\<close>

section \<open>The interfaces of the machine\<close>

definition Loopback :: string where "Loopback = ''127.0.0.1''"

text \<open>What the system tells of an interface; the second component of an entry is its address in CIDR form.\<close>

record net_interface =
  if_Name :: string
  if_Up :: bool
  if_Loopback :: bool
  if_Addrs :: "string list result"

definition ip_is_loopback :: "addr \<Rightarrow> bool" where
  "ip_is_loopback ip = (case To4 ip of Some w \<Rightarrow> hd (be_bytes w) = 127 | None \<Rightarrow> ip = Addr6 1 [])"

definition cidr_address :: "string \<Rightarrow> addr option" where
  "cidr_address s = (if ParseCIDR s = None then None else Option.bind (str_cut (CHR ''/'') s) (net_ParseIP \<circ> fst))"

definition interface_addresses :: "net_interface \<Rightarrow> (string \<times> string) list" where
  "interface_addresses item =
     (if \<not> if_Up item \<or> if_Loopback item then []
      else (case if_Addrs item of
              Inl _ \<Rightarrow> []
            | Inr addresses \<Rightarrow> concat (map (\<lambda>address.
                (case cidr_address address of
                   None \<Rightarrow> []
                 | Some ip \<Rightarrow> if To4 ip \<noteq> None \<and> \<not> ip_is_loopback ip \<and> To4 ip \<noteq> Some 0 then [(if_Name item, ip_text ip)] else []))
                addresses)))"

text \<open>The name of the first entry is not ASCII. \<open>sort.Slice\<close> leaves the order of equal names open, here they keep theirs.\<close>

definition local_name :: string where
  "local_name = map char_of [0xE4, 0xBB, 0x85, 0xE6, 0x9C, 0xAC, 0xE6, 0x9C, 0xBA :: nat]"

definition Interfaces :: "net_interface list result \<Rightarrow> (string \<times> string) list result" where
  "Interfaces system = bind_result system (\<lambda>items.
     Inr ((local_name, Loopback) # sort_key fst (concat (map interface_addresses items))))"

definition Available :: "net_interface list result \<Rightarrow> string \<Rightarrow> bool" where
  "Available system address = (case Interfaces system of Inl _ \<Rightarrow> False | Inr items \<Rightarrow> address \<in> snd ` set items)"

section \<open>The access list\<close>

definition errAccessList :: goerror where
  "errAccessList = ErrTag (Other ''access list only supports individual IPv4 addresses'')"

text \<open>The loop of \<open>normalizeAllowed\<close>: the addresses in the form \<open>IP.String\<close> gives them, each once.\<close>

fun normalize_loop :: "string list \<Rightarrow> string list \<Rightarrow> string list result" where
  "normalize_loop [] result = Inr result"
| "normalize_loop (v # vs) result =
     (case net_ParseIP v of
        None \<Rightarrow> Inl errAccessList
      | Some ip \<Rightarrow>
          if To4 ip = None then Inl errAccessList
          else normalize_loop vs (if ip_text ip \<in> set result then result else result @ [ip_text ip]))"

definition normalizeAllowed :: "string list \<Rightarrow> string \<Rightarrow> string list result" where
  "normalizeAllowed values currentAddress =
     bind_result (normalize_loop (values @ [Loopback, currentAddress]) []) (\<lambda>result. Inr (sort result))"

section \<open>The settings file\<close>

record settings =
  gs_Address :: string
  gs_Allowed :: "string list"
  gs_raw :: "(string, json) fmap"

definition errSettings :: goerror where "errSettings = ErrTag (Other ''invalid management settings'')"

text \<open>A member may be null, which leaves the zero value.\<close>

definition dec_or_zero :: "'a \<Rightarrow> (json \<Rightarrow> 'a option) \<Rightarrow> json option \<Rightarrow> 'a option" where
  "dec_or_zero zero dec v = (case v of None \<Rightarrow> Some zero | Some JNull \<Rightarrow> Some zero | Some v \<Rightarrow> dec v)"

definition raw_members :: "json \<Rightarrow> (string, json) fmap option" where
  "raw_members v = (case v of
     JObj ms \<Rightarrow> Some (foldl (\<lambda>m (k, v). fmupd k v m) fmempty ms) | JNull \<Rightarrow> Some fmempty | _ \<Rightarrow> None)"

definition settings_of :: "string \<Rightarrow> settings option" where
  "settings_of text =
     Option.bind (Option.bind (json_parse text) raw_members) (\<lambda>raw.
     Option.bind (dec_or_zero [] dec_str (fmlookup raw ''managementAddress'')) (\<lambda>address.
     Option.bind (dec_or_zero [] (dec_slice [] dec_str) (fmlookup raw ''allowedIPs'')) (\<lambda>allowed.
       Some \<lparr>gs_Address = (if address = [] then Loopback else address), gs_Allowed = allowed, gs_raw = raw\<rparr>)))"

definition settings_load :: "string \<Rightarrow> disk \<Rightarrow> settings result \<times> disk" where
  "settings_load path d =
     (let (data, d) = ReadFile path d in
      (case data of
         Inl e \<Rightarrow> (if errors_is e OsErrNotExist then Inr \<lparr>gs_Address = Loopback, gs_Allowed = [], gs_raw = fmempty\<rparr> else Inl e, d)
       | Inr data \<Rightarrow> (case settings_of (string_of data) of None \<Rightarrow> Inl errSettings | Some settings \<Rightarrow> Inr settings, d)))"

definition settings_raw :: "settings \<Rightarrow> (string, json) fmap" where
  "settings_raw settings =
     (let raw = fmupd ''managementAddress'' (JStr (gs_Address settings)) (gs_raw settings) in
      if gs_Allowed settings = [] then fmdrop ''allowedIPs'' raw
      else fmupd ''allowedIPs'' (JArr (map JStr (gs_Allowed settings))) raw)"

text \<open>The encoder of a map sorts its keys.\<close>

definition enc_raw :: "(string, json) fmap \<Rightarrow> json" where
  "enc_raw raw = JObj (map (\<lambda>k. (k, the (fmlookup raw k))) (sorted_list_of_fset (fmdom raw)))"

text \<open>Chmod, write and close of the temporary file; unlike the other stores this one does not sync.\<close>

definition fill_settings :: "string \<Rightarrow> bytes \<Rightarrow> disk \<Rightarrow> goerror option \<times> disk" where
  "fill_settings tmp data d =
     (let ((chmod, _), d) = os_call d;
          (err, d) = (if chmod = None then
            (let ((e, n), d) = os_call d
             in (e, d\<lparr>d_files := fmupd tmp (if e = None then data else take n data) (d_files d)\<rparr>))
            else (chmod, d));
          ((close, _), d) = os_call d
      in (if err = None then close else err, d))"

definition settings_save :: "string \<Rightarrow> settings \<Rightarrow> disk \<Rightarrow> goerror option \<times> disk" where
  "settings_save path settings =
     replace_file fill_settings path (bytes_of (json_print True 0 (enc_raw (settings_raw settings)) @ [CHR 0x0A]))"

section \<open>The store\<close>

definition settings_Load :: "string \<Rightarrow> disk \<Rightarrow> string result \<times> disk" where
  "settings_Load path d = (let (settings, d) = settings_load path d in (bind_result settings (\<lambda>s. Inr (gs_Address s)), d))"

definition errUnavailable :: goerror where
  "errUnavailable = ErrTag (Other ''selected address is not available on this device'')"

definition settings_Save :: "net_interface list result \<Rightarrow> string \<Rightarrow> string \<Rightarrow> disk \<Rightarrow> goerror option \<times> disk" where
  "settings_Save system path address d =
     (if \<not> Available system address then (Some errUnavailable, d)
      else
        (let (settings, d) = settings_load path d in
         (case settings of
            Inl e \<Rightarrow> (Some e, d)
          | Inr settings \<Rightarrow> settings_save path (settings\<lparr>gs_Address := address\<rparr>) d)))"

definition AllowedIPs :: "net_interface list result \<Rightarrow> string \<Rightarrow> string \<Rightarrow> disk \<Rightarrow> string list result \<times> disk" where
  "AllowedIPs system path currentAddress d =
     (let (settings, d) = settings_load path d in
      (bind_result settings (\<lambda>settings.
         if gs_Allowed settings = []
         then bind_result (Interfaces system) (\<lambda>items. normalizeAllowed (map snd items) currentAddress)
         else normalizeAllowed (gs_Allowed settings) currentAddress), d))"

definition SaveAllowedIPs :: "string \<Rightarrow> string list \<Rightarrow> string \<Rightarrow> disk \<Rightarrow> string list result \<times> disk" where
  "SaveAllowedIPs path values currentAddress d =
     (case normalizeAllowed values currentAddress of
        Inl e \<Rightarrow> (Inl e, d)
      | Inr allowed \<Rightarrow>
          (let (settings, d) = settings_load path d in
           (case settings of
              Inl e \<Rightarrow> (Inl e, d)
            | Inr settings \<Rightarrow>
                (let (err, d) = settings_save path (settings\<lparr>gs_Allowed := allowed\<rparr>) d
                 in (case err of Some e \<Rightarrow> (Inl e, d) | None \<Rightarrow> (Inr allowed, d))))))"

section \<open>The checks of a request\<close>

text \<open>\<open>net.SplitHostPort\<close>; every error of it is handled alike.\<close>

definition SplitHostPort :: "string \<Rightarrow> (string \<times> string) option" where
  "SplitHostPort hostport =
     (if CHR '':'' \<notin> set hostport then None
      else
        (let port = rev (takeWhile (\<lambda>c. c \<noteq> CHR '':'') (rev hostport));
             front = take (length hostport - Suc (length port)) hostport in
         if hd hostport = CHR ''['' then
           (case str_cut (CHR '']'') (tl hostport) of
              None \<Rightarrow> None
            | Some (host, rest) \<Rightarrow>
                if rest \<noteq> CHR '':'' # port \<or> CHR ''['' \<in> set host \<or> CHR ''['' \<in> set rest \<or> CHR '']'' \<in> set rest then None
                else Some (host, port))
         else if CHR '':'' \<in> set front \<or> CHR ''['' \<in> set hostport \<or> CHR '']'' \<in> set hostport then None
         else Some (front, port)))"

definition host_of :: "string \<Rightarrow> string" where
  "host_of s = (case SplitHostPort s of None \<Rightarrow> s | Some (host, _) \<Rightarrow> host)"

definition JoinHostPort :: "string \<Rightarrow> string \<Rightarrow> string" where
  "JoinHostPort host port = (if CHR '':'' \<in> set host then ''['' @ host @ '']:'' @ port else host @ '':'' @ port)"

definition trim_brackets :: "string \<Rightarrow> string" where
  "trim_brackets s = (let cut = dropWhile (\<lambda>c. c = CHR ''['' \<or> c = CHR '']'') in rev (cut (rev (cut s))))"

definition localHost :: "net_interface list result \<Rightarrow> string \<Rightarrow> bool" where
  "localHost system host =
     (let host = trim_brackets host in
      host = ''localhost'' \<or>
      (case net_ParseIP host of None \<Rightarrow> False | Some ip \<Rightarrow> ip_is_loopback ip \<or> Available system (ip_text ip)))"

text \<open>The access checker \<open>main\<close> installs.\<close>

definition client_allowed :: "string list \<Rightarrow> string \<Rightarrow> bool" where
  "client_allowed allowed address = (case net_ParseIP address of None \<Rightarrow> False | Some ip \<Rightarrow> ip_text ip \<in> set allowed)"

text \<open>The two checks of \<open>Handler\<close> before a request reaches the mux.\<close>

definition request_served :: "net_interface list result \<Rightarrow> (string \<Rightarrow> bool) \<Rightarrow> string \<Rightarrow> string \<Rightarrow> bool" where
  "request_served system access remoteAddr host \<longleftrightarrow> access (host_of remoteAddr) \<and> localHost system (host_of host)"

text \<open>The origin check of the WebSocket; \<open>hostname\<close> is the host name \<open>url.Parse\<close> finds in the origin.\<close>

definition origin_allowed :: "net_interface list result \<Rightarrow> string list \<Rightarrow> string \<Rightarrow> string option \<Rightarrow> string \<Rightarrow> bool" where
  "origin_allowed system origins origin hostname host =
     (origin \<in> set origins \<or>
      (case hostname of
         None \<Rightarrow> False
       | Some hostname \<Rightarrow>
           localHost system hostname \<and>
           ((case net_ParseIP hostname of None \<Rightarrow> False | Some ip \<Rightarrow> ip_is_loopback ip)
            \<or> hostname = ''localhost'' \<or> hostname = host_of host)))"

section \<open>Laws of the access list\<close>

lemma normalize_loop_ok:
  "normalize_loop vs result = Inr r \<Longrightarrow> distinct result \<Longrightarrow> distinct r \<and> set result \<subseteq> set r
    \<and> (\<forall>v\<in>set vs. \<exists>ip. net_ParseIP v = Some ip \<and> To4 ip \<noteq> None \<and> ip_text ip \<in> set r)"
proof (induction vs arbitrary: result)
  case (Cons v vs)
  from Cons.prems(1) obtain ip where ip: "net_ParseIP v = Some ip" "To4 ip \<noteq> None"
    and n: "normalize_loop vs (if ip_text ip \<in> set result then result else result @ [ip_text ip]) = Inr r"
    by (auto split: option.splits if_splits)
  have "distinct (if ip_text ip \<in> set result then result else result @ [ip_text ip])"
    "set result \<subseteq> set (if ip_text ip \<in> set result then result else result @ [ip_text ip])"
    "ip_text ip \<in> set (if ip_text ip \<in> set result then result else result @ [ip_text ip])"
    using Cons.prems(2) by auto
  then show ?case using Cons.IH [OF n] ip by (metis set_ConsD subset_iff)
qed simp

lemma normalize_loop_rest:
  "normalize_loop vs result = Inr r \<Longrightarrow> x \<in> set r \<Longrightarrow>
    x \<in> set result \<or> (\<exists>v\<in>set vs. \<exists>ip. net_ParseIP v = Some ip \<and> To4 ip \<noteq> None \<and> x = ip_text ip)"
proof (induction vs arbitrary: result)
  case (Cons v vs)
  from Cons.prems(1) obtain ip where ip: "net_ParseIP v = Some ip" "To4 ip \<noteq> None"
    and n: "normalize_loop vs (if ip_text ip \<in> set result then result else result @ [ip_text ip]) = Inr r"
    by (auto split: option.splits if_splits)
  from Cons.IH [OF n Cons.prems(2)] ip show ?case by (auto split: if_splits)
qed simp

lemma normalizeAllowed_loop:
  assumes "normalizeAllowed vs current = Inr allowed"
  obtains r where "normalize_loop (vs @ [Loopback, current]) [] = Inr r" "allowed = sort r"
  using assms by (auto simp: normalizeAllowed_def bind_result_Inr)

lemma normalizeAllowed_sorted: "normalizeAllowed vs current = Inr allowed \<Longrightarrow> sorted allowed \<and> distinct allowed"
  by (erule normalizeAllowed_loop) (simp add: normalize_loop_ok)

lemma normalizeAllowed_admits:
  assumes "normalizeAllowed vs current = Inr allowed" "v \<in> set vs \<or> v = Loopback \<or> v = current"
  shows "client_allowed allowed v"
proof -
  from assms(1) obtain r where r: "normalize_loop (vs @ [Loopback, current]) [] = Inr r" "allowed = sort r"
    by (rule normalizeAllowed_loop)
  from normalize_loop_ok [OF r(1)] assms(2) obtain ip where "net_ParseIP v = Some ip" "ip_text ip \<in> set r" by auto
  then show ?thesis by (simp add: client_allowed_def r(2))
qed

lemma normalizeAllowed_only:
  assumes "normalizeAllowed vs current = Inr allowed" "client_allowed allowed address"
  obtains ip v w where "net_ParseIP address = Some ip" "v \<in> set vs \<or> v = Loopback \<or> v = current"
    "net_ParseIP v = Some w" "To4 w \<noteq> None" "ip_text ip = ip_text w"
proof -
  from assms(1) obtain r where r: "normalize_loop (vs @ [Loopback, current]) [] = Inr r" "allowed = sort r"
    by (rule normalizeAllowed_loop)
  from assms(2) r(2) obtain ip where ip: "net_ParseIP address = Some ip" "ip_text ip \<in> set r"
    by (auto simp: client_allowed_def split: option.splits)
  from normalize_loop_rest [OF r(1) ip(2)] obtain v w where
    "v \<in> set vs \<or> v = Loopback \<or> v = current" "net_ParseIP v = Some w" "To4 w \<noteq> None" "ip_text ip = ip_text w" by auto
  then show ?thesis using ip(1) that by blast
qed

section \<open>Laws of the settings file\<close>

interpretation plain: temp_fill fill_settings
proof
  show "(err = None \<longrightarrow> d_files d' = fmupd tmp data (d_files d))
      \<and> (d_files d' = d_files d \<or> (\<exists>c. d_files d' = fmupd tmp c (d_files d)))"
    if "fill_settings tmp data d = (err, d')" for tmp data d err d'
  proof -
    obtain c n d1 where c: "os_call d = ((c, n), d1)" by (metis prod.collapse)
    obtain w k d2 where w: "os_call d1 = ((w, k), d2)" by (metis prod.collapse)
    let ?d = "d2\<lparr>d_files := fmupd tmp (if w = None then data else take k data) (d_files d2)\<rparr>"
    obtain x l d3 where x: "os_call ?d = ((x, l), d3)" by (metis prod.collapse)
    note f = os_call_files [OF c] os_call_files [OF w] os_call_files [OF x]
    show ?thesis
    proof (cases c)
      case (Some e)
      with c w that os_call_files [OF w] os_call_files [OF c] show ?thesis by (auto simp: fill_settings_def Let_def)
    next
      case None
      with c w x that have "d' = d3" "err = (if w = None then x else w)" by (auto simp: fill_settings_def Let_def)
      with f show ?thesis by (cases w) auto
    qed
  qed
  show "fill_settings tmp data d = (None, d\<lparr>d_files := fmupd tmp data (d_files d)\<rparr>)" if "d_script d = []" for tmp data d
    using that by (simp add: fill_settings_def Let_def os_call_no_script)
qed

definition raw_ok :: "(string, json) fmap \<Rightarrow> bool" where
  "raw_ok raw = (\<forall>k\<in>fset (fmdom raw). utf8_valid k \<and> json_ok (the (fmlookup raw k)))"

lemma foldl_members:
  "fmlookup (foldl (\<lambda>m (k, v). fmupd k v m) m (map (\<lambda>k. (k, f k)) ks)) k = (if k \<in> set ks then Some (f k) else fmlookup m k)"
  by (induction ks arbitrary: m) auto

lemma raw_members_enc: "raw_members (enc_raw raw) = Some raw"
proof -
  have "foldl (\<lambda>m (k, v). fmupd k v m) fmempty
      (map (\<lambda>k. (k, the (fmlookup raw k))) (sorted_list_of_fset (fmdom raw))) = raw"
    by (rule fmap_ext) (auto simp: foldl_members fmlookup_dom_iff)
  then show ?thesis by (simp add: raw_members_def enc_raw_def)
qed

lemma json_ok_enc_raw: "raw_ok raw \<Longrightarrow> json_ok (enc_raw raw)"
  by (auto simp: raw_ok_def enc_raw_def list_all_iff)

text \<open>What a file holds after a save, read back.\<close>

lemma settings_of_save:
  assumes "raw_ok (gs_raw s)" "utf8_valid (gs_Address s)" "list_all utf8_valid (gs_Allowed s)" "gs_Address s \<noteq> []"
  shows "settings_of (json_print True 0 (enc_raw (settings_raw s)) @ [CHR 0x0A]) = Some (s\<lparr>gs_raw := settings_raw s\<rparr>)"
proof -
  have n: "utf8_valid ''managementAddress''" "utf8_valid ''allowedIPs''" by (simp_all add: utf8_ascii ascii_def)
  have "raw_ok (settings_raw s)"
    using assms(1-3) n by (auto simp: raw_ok_def settings_raw_def Let_def list_all_iff split: if_splits)
  then have "json_parse (json_print True 0 (enc_raw (settings_raw s)) @ [CHR 0x0A]) = Some (enc_raw (settings_raw s))"
    by (intro json_parse_print json_ok_enc_raw) (simp_all add: is_ws_def json_ws_def)
  moreover have "dec_or_zero [] dec_str (fmlookup (settings_raw s) ''managementAddress'') = Some (gs_Address s)"
    by (simp add: settings_raw_def Let_def dec_or_zero_def dec_str_def)
  moreover have "dec_or_zero [] (dec_slice [] dec_str) (fmlookup (settings_raw s) ''allowedIPs'') = Some (gs_Allowed s)"
    by (simp add: settings_raw_def Let_def dec_or_zero_def dec_slice_map dec_str_def)
  ultimately show ?thesis using assms(4) by (simp add: settings_of_def raw_members_enc)
qed

lemma dec_string_ascii: "ascii (dec_string n)"
proof -
  have "\<forall>d<10. of_char (digit_char d) < (0x80 :: nat)" unfolding all_below_10 by (simp add: digit_char_def)
  then show ?thesis by (auto simp: ascii_def dest!: set_dec_string)
qed

lemma dotted_ascii: "ascii (dotted bs)"
  using dec_string_ascii by (auto simp: dotted_def ascii_def split: list.splits)

lemma normalizeAllowed_utf8: "normalizeAllowed vs current = Inr allowed \<Longrightarrow> list_all utf8_valid allowed"
proof (erule normalizeAllowed_loop)
  fix r assume r: "normalize_loop (vs @ [Loopback, current]) [] = Inr r" "allowed = sort r"
  have "utf8_valid x" if "x \<in> set r" for x
  proof -
    from normalize_loop_rest [OF r(1) that] obtain ip where "To4 ip \<noteq> None" "x = ip_text ip" by auto
    then show ?thesis using utf8_ascii [OF dotted_ascii] by (auto simp: ip_text_def string4_def)
  qed
  then show "list_all utf8_valid allowed" by (simp add: r(2) list_all_iff)
qed

definition settings_ok :: "settings \<Rightarrow> bool" where
  "settings_ok s \<longleftrightarrow> raw_ok (gs_raw s) \<and> utf8_valid (gs_Address s) \<and> gs_Address s \<noteq> []"

definition other_members :: "settings \<Rightarrow> (string, json) fmap" where
  "other_members s = fmdrop ''managementAddress'' (fmdrop ''allowedIPs'' (gs_raw s))"

lemma other_members_raw [simp]: "other_members (s\<lparr>gs_raw := settings_raw s\<rparr>) = other_members s"
  by (rule fmap_ext) (auto simp: other_members_def settings_raw_def Let_def)

lemma settings_load_files: "settings_load path d = (s, d') \<Longrightarrow> d_files d' = d_files d"
  by (auto simp: settings_load_def ReadFile_def Let_def split: prod.splits option.splits sum.splits dest!: os_call_files)

lemma settings_save_file:
  assumes "settings_save path s d = (err, d')"
  shows "fmlookup (d_files d') path = (if err = None
      then Some (bytes_of (json_print True 0 (enc_raw (settings_raw s)) @ [CHR 0x0A])) else fmlookup (d_files d) path)"
  using plain.replaced [of path _ d err d'] assms by (simp add: settings_save_def written_def)

lemma SaveAllowedIPs_error:
  assumes "SaveAllowedIPs path vs current d = (Inl e, d')"
  shows "fmlookup (d_files d') path = fmlookup (d_files d) path"
proof (cases "normalizeAllowed vs current")
  case (Inr allowed)
  obtain s d1 where l: "settings_load path d = (s, d1)" by fastforce
  show ?thesis
  proof (cases s)
    case s: (Inr s)
    obtain err d2 where v: "settings_save path (s\<lparr>gs_Allowed := allowed\<rparr>) d1 = (err, d2)" by fastforce
    with assms Inr l s have "d' = d2" "err \<noteq> None" by (auto simp: SaveAllowedIPs_def split: option.splits)
    then show ?thesis using settings_save_file [OF v] settings_load_files [OF l] by fastforce
  qed (use assms Inr l settings_load_files [OF l] in \<open>auto simp: SaveAllowedIPs_def\<close>)
qed (use assms in \<open>simp add: SaveAllowedIPs_def\<close>)

lemma SaveAllowedIPs_saved:
  assumes "SaveAllowedIPs path vs current d = (Inr allowed, d')"
  obtains s where "fst (settings_load path d) = Inr s" "normalizeAllowed vs current = Inr allowed"
    "fmlookup (d_files d') path =
       Some (bytes_of (json_print True 0 (enc_raw (settings_raw (s\<lparr>gs_Allowed := allowed\<rparr>))) @ [CHR 0x0A]))"
proof -
  from assms have n: "normalizeAllowed vs current = Inr allowed"
    by (auto simp: SaveAllowedIPs_def Let_def split: sum.splits prod.splits option.splits)
  obtain s d1 where l: "settings_load path d = (s, d1)" by fastforce
  with assms n obtain s' where s: "s = Inr s'" by (cases s) (auto simp: SaveAllowedIPs_def)
  obtain err d2 where v: "settings_save path (s'\<lparr>gs_Allowed := allowed\<rparr>) d1 = (err, d2)" by fastforce
  with assms n l s have "d' = d2" "err = None" by (auto simp: SaveAllowedIPs_def split: option.splits)
  with settings_save_file [OF v] that [of s'] l s n show ?thesis by simp
qed

section \<open>Laws of host names\<close>

lemma host_of_Join:
  assumes "CHR '':'' \<notin> set port" "CHR ''['' \<notin> set port" "CHR '']'' \<notin> set port" "CHR ''['' \<notin> set host" "CHR '']'' \<notin> set host"
  shows "host_of (JoinHostPort host port) = host"
proof -
  have t: "takeWhile (\<lambda>c. c \<noteq> CHR '':'') (rev (h @ CHR '':'' # port)) = rev port" for h
    using assms(1) by (induction port rule: rev_induct) auto
  have f: "take (length (h @ CHR '':'' # port) - Suc (length port)) (h @ CHR '':'' # port) = h" for h :: string
    by simp
  show ?thesis
  proof (cases "CHR '':'' \<in> set host")
    case True
    then have j: "JoinHostPort host port = CHR ''['' # host @ CHR '']'' # CHR '':'' # port" by (simp add: JoinHostPort_def)
    have "str_cut (CHR '']'') (host @ CHR '']'' # CHR '':'' # port) = Some (host, CHR '':'' # port)"
      using assms by (intro str_cut_field)
    with t [of "CHR ''['' # host @ [CHR '']'']"] assms show ?thesis
      by (simp add: host_of_def SplitHostPort_def j Let_def)
  next
    case False
    then have j: "JoinHostPort host port = host @ CHR '':'' # port" by (simp add: JoinHostPort_def)
    have h: "hd (host @ CHR '':'' # port) \<noteq> CHR ''[''" using assms(4) by (cases host) auto
    have "SplitHostPort (host @ CHR '':'' # port) = Some (host, port)"
      unfolding SplitHostPort_def Let_def t rev_rev_ident f using h False assms by simp
    then show ?thesis by (simp add: host_of_def j)
  qed
qed

lemma localHost_Loopback: "localHost system Loopback"
proof -
  have "net_ParseIP Loopback = Some (Addr4 0x7F000001)"
    by (simp add: Loopback_def net_ParseIP_def ParseAddr_def parseIPv4_def digit_value_def AddrFrom4_def be_word_def)
  then show ?thesis
    using be_bytes_be_word_widths(2) [of "[127, 0, 0, 1]"]
    by (simp add: localHost_def trim_brackets_def Loopback_def ip_is_loopback_def To4_def be_word_def)
qed

end
