(* ===== verification/Api.thy ===== *)
theory Api
  imports Core_Laws Management
begin

text \<open>
  \<open>internal/api/api.go\<close>: the requests of the stdio and the WebSocket transport, how each is decoded,
  which method of the program it calls and what is answered; and the services \<open>cmd/opl-core/main.go\<close>
  connects it to: the runtime, its room service and the settings of the management page.
\<close>

section \<open>Messages\<close>

definition maxLineBytes :: nat where "maxLineBytes = 64 * 1024"

record request =
  rq_ID :: u64
  rq_Method :: string
  rq_Params :: "json option"

text \<open>An error answer has the error it stands for instead of its text.\<close>

record protocolError =
  pe_Code :: string
  pe_cause :: "goerror option"

record ManagementInfo =
  mi_Address :: string
  mi_URL :: string
  mi_Interfaces :: "(string \<times> string) list"
  mi_AllowedIPs :: "string list"

text \<open>The results of the methods; \<open>RZero\<close> stands for the value, mostly zero, that a method returns besides its error.\<close>

datatype reply =
    RState core_state | RRoom room_snapshot | RCreated string room_snapshot | RInvite string | RJoined JoinResult
  | RApps "App list" | RConfig Config | RSwitch string | RLogs string | RManagement ManagementInfo | RZero

record response =
  rp_ID :: u64
  rp_Result :: "reply option"
  rp_Error :: "protocolError option"

definition invalidRequest :: protocolError where
  "invalidRequest = \<lparr>pe_Code = ''INVALID_REQUEST'', pe_cause = None\<rparr>"

definition notReady :: protocolError where
  "notReady = \<lparr>pe_Code = ''OPENP2P_NOT_READY'', pe_cause = None\<rparr>"

definition methodNotFound :: protocolError where
  "methodNotFound = \<lparr>pe_Code = ''METHOD_NOT_FOUND'', pe_cause = None\<rparr>"

section \<open>Error codes\<close>

text \<open>The cases of \<open>commandError\<close> in their order.\<close>

definition command_codes :: "(errtag list \<times> string) list" where
  "command_codes =
     [([RoomErrInput], ''INVALID_REQUEST''), ([InviteErrFormat], ''INVALID_INVITE''),
      ([InviteErrVersion], ''UNSUPPORTED_PROTOCOL''), ([PairErrAuthFailed], ''AUTH_FAILED''),
      ([PairErrJoinPaused], ''JOIN_DISABLED''), ([PairErrRoomFull], ''ROOM_FULL''),
      ([PairErrMemberDisabled], ''MEMBER_DISABLED''), ([CoreErrOpenP2PNotReady], ''OPENP2P_NOT_READY''),
      ([CoreErrWireGuardFailed], ''WIREGUARD_FAILED''), ([CoreErrWireGuardUpdate], ''WIREGUARD_UPDATE_FAILED''),
      ([SecretErrStore, SecretErrUnavailable], ''SECRET_STORE_FAILED''),
      ([OpenP2PErrConfig, StateErrInvalid], ''CONFIG_WRITE_FAILED''), ([OsErrNotExist], ''INVALID_STATE''),
      ([OsPathError], ''CONFIG_WRITE_FAILED''), ([CtxDeadlineExceeded, CtxCanceled], ''TIMEOUT''),
      ([RoomErrRunning, RoomErrStopped, CoreErrNetworkActive], ''INVALID_STATE''), ([RoomErrMember], ''MEMBER_NOT_FOUND'')]"

text \<open>\<open>errors.As\<close> for a \<open>net.OpError\<close>: the first one in depth first order, and whether it is of a listen call.\<close>

fun net_op :: "goerror \<Rightarrow> bool option" and net_ops :: "goerror list \<Rightarrow> bool option" where
  "net_op (ErrTag t) = (if t = NetOpListen then Some True else if t = NetOpOther then Some False else None)"
| "net_op (ErrWrap es) = net_ops es"
| "net_ops [] = None"
| "net_ops (e # es) = (case net_op e of Some b \<Rightarrow> Some b | None \<Rightarrow> net_ops es)"

definition error_code :: "goerror \<Rightarrow> string" where
  "error_code e =
     (case find (\<lambda>(tags, _). list_ex (errors_is e) tags) command_codes of
        Some (_, code) \<Rightarrow> code
      | None \<Rightarrow> (case net_op e of
           Some listen \<Rightarrow> if listen then ''PAIR_PORT_IN_USE'' else ''OPENP2P_NOT_READY''
         | None \<Rightarrow> ''INTERNAL_ERROR''))"

definition commandError :: "goerror option \<Rightarrow> protocolError option" where
  "commandError err = map_option (\<lambda>e. \<lparr>pe_Code = error_code e, pe_cause = Some e\<rparr>) err"

section \<open>Decoding\<close>

text \<open>The value a message starts with, and whether only white space follows it.\<close>

definition first_value :: "string \<Rightarrow> (json \<times> bool) option" where
  "first_value data = map_option (\<lambda>(v, rest). (v, skip_ws rest = [])) (parse_value (2 * length data + 2) data)"

definition request_fields :: "string list" where
  "request_fields = [''id'', ''method'', ''params'']"

text \<open>A raw member takes any value, \<open>null\<close> too; of several the last counts.\<close>

definition raw_field :: "string \<Rightarrow> (string \<times> json) list \<Rightarrow> json option" where
  "raw_field field ms = foldl (\<lambda>acc (k, v). if names_field field k then Some v else acc) None ms"

text \<open>The id that is set when the decoder reports an error: it goes on behind a member of the wrong type.\<close>

definition partial_id :: "(string \<times> json) list \<Rightarrow> u64" where
  "partial_id ms = foldl (\<lambda>acc (k, v). if names_field ''id'' k then (case dec_word v of None \<Rightarrow> acc | Some i \<Rightarrow> i) else acc) 0 ms"

definition dec_request :: "(string \<times> json) list \<Rightarrow> request option" where
  "dec_request ms =
     (if \<not> known_fields request_fields ms then None
      else
        Option.bind (dec_field ''id'' dec_word 0 ms) (\<lambda>i.
        Option.bind (dec_field ''method'' dec_str [] ms) (\<lambda>method.
          Some \<lparr>rq_ID = i, rq_Method = method, rq_Params = raw_field ''params'' ms\<rparr>)))"

text \<open>The checks both transports make: the id for the answer, and the request if it is one.\<close>

definition decode_request :: "string \<Rightarrow> u64 \<times> request option" where
  "decode_request data =
     (case first_value data of
        Some (JObj ms, alone) \<Rightarrow>
          (partial_id ms,
           (case dec_request ms of
              None \<Rightarrow> None
            | Some rq \<Rightarrow> if \<not> alone \<or> rq_ID rq = 0 \<or> rq_Method rq = [] then None else Some rq))
      | _ \<Rightarrow> (0, None))"

text \<open>
  \<open>decodeParams\<close> with the members of the target; \<open>null\<close> decodes into a struct without effect.
\<close>

definition params_members :: "string list \<Rightarrow> json option \<Rightarrow> (string \<times> json) list option" where
  "params_members known raw =
     (case raw of
        None \<Rightarrow> Some []
      | Some JNull \<Rightarrow> Some []
      | Some (JObj ms) \<Rightarrow> if known_fields known ms then Some ms else None
      | Some _ \<Rightarrow> None)"

definition emptyParams :: "json option \<Rightarrow> bool" where
  "emptyParams raw \<longleftrightarrow> params_members [] raw \<noteq> None"

definition string_param :: "string \<Rightarrow> string list \<Rightarrow> json option \<Rightarrow> string option" where
  "string_param field known raw = Option.bind (params_members known raw) (dec_field field dec_str [])"

text \<open>A pointer or a slice: \<open>null\<close> sets it to nil. Of a member given twice the last counts.\<close>

definition dec_ptr :: "string \<Rightarrow> (json \<Rightarrow> 'a option) \<Rightarrow> (string \<times> json) list \<Rightarrow> 'a option option" where
  "dec_ptr field dec ms =
     foldl (\<lambda>acc (k, v). if \<not> names_field field k then acc
              else Option.bind acc (\<lambda>_. if v = JNull then Some None else map_option Some (dec v))) (Some None) ms"

definition ptr_param :: "string \<Rightarrow> (json \<Rightarrow> 'a option) \<Rightarrow> json option \<Rightarrow> 'a option" where
  "ptr_param field dec raw =
     (case Option.bind (params_members [field] raw) (dec_ptr field dec) of Some (Some x) \<Rightarrow> Some x | _ \<Rightarrow> None)"

text \<open>No member of a struct may be unknown at any depth.\<close>

definition strict_members :: "string list \<Rightarrow> json \<Rightarrow> bool" where
  "strict_members known v = (case v of JObj ms \<Rightarrow> known_fields known ms | _ \<Rightarrow> True)"

definition strict_app :: "json \<Rightarrow> App option" where
  "strict_app v = (if strict_members app_fields v then dec_app v else None)"

definition strict_inner :: "string \<times> json \<Rightarrow> bool" where
  "strict_inner m =
     ((names_field ''Network'' (fst m) \<longrightarrow> strict_members network_fields (snd m))
      \<and> (names_field ''Apps'' (fst m) \<longrightarrow> (case snd m of JArr vs \<Rightarrow> list_all (strict_members app_fields) vs | _ \<Rightarrow> True)))"

definition strict_config :: "json \<Rightarrow> Config option" where
  "strict_config v =
     (if strict_members config_fields v \<and> (case v of JObj ms \<Rightarrow> list_all strict_inner ms | _ \<Rightarrow> True) then dec_config v else None)"

section \<open>The services\<close>

text \<open>The room service and the functions of \<open>Services\<close>, which may be nil, over the state of the program.\<close>

record 'p room_calls =
  ro_Snapshot :: "'p \<Rightarrow> room_snapshot"
  ro_StartOrCreate :: "CreateOptions \<Rightarrow> 'p \<Rightarrow> room_snapshot result \<times> 'p"
  ro_Start :: "'p \<Rightarrow> room_snapshot result \<times> 'p"
  ro_Stop :: "'p \<Rightarrow> goerror option \<times> 'p"
  ro_SetJoinEnabled :: "bool \<Rightarrow> 'p \<Rightarrow> room_snapshot result \<times> 'p"
  ro_RotateKey :: "'p \<Rightarrow> string result \<times> 'p"
  ro_GetInvite :: "'p \<Rightarrow> string result"
  ro_RemoveMember :: "string \<Rightarrow> 'p \<Rightarrow> room_snapshot result \<times> 'p"
  ro_BlockMember :: "string \<Rightarrow> 'p \<Rightarrow> room_snapshot result \<times> 'p"
  ro_UnblockUID :: "string \<Rightarrow> 'p \<Rightarrow> room_snapshot result \<times> 'p"
  ro_RenameMember :: "string \<Rightarrow> string \<Rightarrow> 'p \<Rightarrow> room_snapshot result \<times> 'p"

record 'p services =
  svc_Rooms :: "'p room_calls"
  svc_GetState :: "('p \<Rightarrow> (core_state \<times> goerror option) \<times> 'p) option"
  svc_ListTunnels :: "('p \<Rightarrow> App list result \<times> 'p) option"
  svc_ReplaceTunnels :: "(App list \<Rightarrow> 'p \<Rightarrow> goerror option \<times> 'p) option"
  svc_GetConfig :: "('p \<Rightarrow> Config result \<times> 'p) option"
  svc_ReplaceConfig :: "(Config \<Rightarrow> 'p \<Rightarrow> goerror option \<times> 'p) option"
  svc_StartOpenP2P :: "('p \<Rightarrow> goerror option \<times> 'p) option"
  svc_StopOpenP2P :: "('p \<Rightarrow> goerror option \<times> 'p) option"
  svc_Join :: "(JoinOptions \<Rightarrow> 'p \<Rightarrow> (JoinResult result \<times> 'p) option) option"
  svc_Leave :: "('p \<Rightarrow> goerror option \<times> 'p) option"
  svc_Shutdown :: "('p \<Rightarrow> goerror option \<times> 'p) option"
  svc_ReadLogs :: "('p \<Rightarrow> string result \<times> 'p) option"
  svc_GetManagement :: "('p \<Rightarrow> ManagementInfo result \<times> 'p) option"
  svc_SetManagement :: "(string \<Rightarrow> 'p \<Rightarrow> ManagementInfo result \<times> 'p) option"
  svc_SetAllowedIPs :: "(string list \<Rightarrow> 'p \<Rightarrow> ManagementInfo result \<times> 'p) option"

section \<open>The dispatcher\<close>

text \<open>What a method answers: its result, its error and whether the program ends.\<close>

type_synonym outcome = "reply option \<times> protocolError option \<times> bool"

definition refuse :: "protocolError \<Rightarrow> 'p \<Rightarrow> outcome \<times> 'p" where
  "refuse e p = ((None, Some e, False), p)"

text \<open>\<open>return value, commandError(err), false\<close>, for a value that is zero when there is an error and for one that is not.\<close>

definition give :: "('a \<Rightarrow> reply) \<Rightarrow> 'a result \<times> 'p \<Rightarrow> outcome \<times> 'p" where
  "give mk r = (case r of (Inl e, p) \<Rightarrow> ((Some RZero, commandError (Some e), False), p) | (Inr x, p) \<Rightarrow> ((Some (mk x), None, False), p))"

definition give_text :: "(string \<Rightarrow> reply) \<Rightarrow> string result \<times> 'p \<Rightarrow> outcome \<times> 'p" where
  "give_text mk r = (case r of (Inl e, p) \<Rightarrow> ((Some (mk []), commandError (Some e), False), p) | (Inr x, p) \<Rightarrow> ((Some (mk x), None, False), p))"

definition give_always :: "('p \<Rightarrow> reply) \<Rightarrow> goerror option \<times> 'p \<Rightarrow> outcome \<times> 'p" where
  "give_always val r = (case r of (err, p) \<Rightarrow> ((Some (val p), commandError err, False), p))"

text \<open>A method without parameters, one with a text that must not be empty, and an optional function.\<close>

definition no_params :: "request \<Rightarrow> ('p \<Rightarrow> outcome \<times> 'p) \<Rightarrow> 'p \<Rightarrow> outcome \<times> 'p" where
  "no_params rq f p = (if \<not> emptyParams (rq_Params rq) then refuse invalidRequest p else f p)"

definition with_text :: "string \<Rightarrow> string list \<Rightarrow> request \<Rightarrow> (string \<Rightarrow> 'p \<Rightarrow> outcome \<times> 'p) \<Rightarrow> 'p \<Rightarrow> outcome \<times> 'p" where
  "with_text field known rq f p =
     (case string_param field known (rq_Params rq) of
        None \<Rightarrow> refuse invalidRequest p
      | Some x \<Rightarrow> if x = [] then refuse invalidRequest p else f x p)"

definition with_ptr :: "string \<Rightarrow> (json \<Rightarrow> 'a option) \<Rightarrow> request \<Rightarrow> ('a \<Rightarrow> 'p \<Rightarrow> outcome \<times> 'p) \<Rightarrow> 'p \<Rightarrow> outcome \<times> 'p" where
  "with_ptr field dec rq f p =
     (case ptr_param field dec (rq_Params rq) of None \<Rightarrow> refuse invalidRequest p | Some x \<Rightarrow> f x p)"

definition if_set :: "protocolError \<Rightarrow> 'f option \<Rightarrow> ('f \<Rightarrow> 'p \<Rightarrow> outcome \<times> 'p) \<Rightarrow> 'p \<Rightarrow> outcome \<times> 'p" where
  "if_set e f k p = (case f of None \<Rightarrow> refuse e p | Some f \<Rightarrow> k f p)"

definition rooms_state :: "'p services \<Rightarrow> 'p \<Rightarrow> outcome \<times> 'p" where
  "rooms_state sv p =
     (case svc_GetState sv of
        None \<Rightarrow> ((Some (RRoom (ro_Snapshot (svc_Rooms sv) p)), None, False), p)
      | Some f \<Rightarrow> (case f p of ((val, err), p) \<Rightarrow> ((Some (RState val), commandError err, False), p)))"

definition room_create :: "'p services \<Rightarrow> 'p \<Rightarrow> outcome \<times> 'p" where
  "room_create sv p =
     (let (val, p) = ro_StartOrCreate (svc_Rooms sv)
        \<lparr>co_HostUID = [], co_PairPort = 0, co_WireGuardPort = 0, co_FixedRoomKey = True, co_FixedHostKey = True\<rparr> p
      in (case val of
            Inl e \<Rightarrow> ((None, commandError (Some e), False), p)
          | Inr val \<Rightarrow>
              (case ro_GetInvite (svc_Rooms sv) p of
                 Inl e \<Rightarrow> ((None, commandError (Some e), False), p)
               | Inr code \<Rightarrow> ((Some (RCreated code val), None, False), p))))"

definition rename_member :: "'p services \<Rightarrow> request \<Rightarrow> 'p \<Rightarrow> outcome \<times> 'p" where
  "rename_member sv rq p =
     (let known = [''publicKey'', ''name''] in
      (case (string_param ''publicKey'' known (rq_Params rq), string_param ''name'' known (rq_Params rq)) of
         (Some key, Some name) \<Rightarrow> if key = [] then refuse invalidRequest p else give RRoom (ro_RenameMember (svc_Rooms sv) key name p)
       | _ \<Rightarrow> refuse invalidRequest p))"

definition join_room :: "'p services \<Rightarrow> request \<Rightarrow> 'p \<Rightarrow> (outcome \<times> 'p) option" where
  "join_room sv rq p =
     (let known = [''invite'', ''name''] in
      (case (string_param ''invite'' known (rq_Params rq), string_param ''name'' known (rq_Params rq)) of
         (Some code, Some name) \<Rightarrow>
           if code = [] then Some (refuse invalidRequest p)
           else
             (case svc_Join sv of
                None \<Rightarrow> Some (refuse notReady p)
              | Some f \<Rightarrow> map_option (give RJoined) (f \<lparr>jo_Invite = code, jo_Name = name, jo_FixedDeviceKey = True\<rparr> p))
       | _ \<Rightarrow> Some (refuse invalidRequest p)))"

definition shut_down :: "'p services \<Rightarrow> 'p \<Rightarrow> outcome \<times> 'p" where
  "shut_down sv p =
     (let (err, p) = (case svc_Shutdown sv of Some f \<Rightarrow> f p | None \<Rightarrow> ro_Stop (svc_Rooms sv) p)
      in ((Some (RSwitch ''stopped''), commandError err, err = None), p))"

text \<open>The cases of the switch over the method; all but \<open>room.join\<close> return. \<open>rooms\<close> and \<open>snapshot\<close> abbreviate.\<close>

definition handlers :: "'p services \<Rightarrow> (string \<times> (request \<Rightarrow> 'p \<Rightarrow> outcome \<times> 'p)) list" where
  "handlers sv =
     (let rooms = svc_Rooms sv; snapshot = (\<lambda>p. RRoom (ro_Snapshot rooms p)) in
      [(''core.getState'', \<lambda>rq. no_params rq (rooms_state sv)),
       (''room.create'', \<lambda>rq. no_params rq (room_create sv)),
       (''room.start'', \<lambda>rq. no_params rq (\<lambda>p. give RRoom (ro_Start rooms p))),
       (''room.stop'', \<lambda>rq. no_params rq (\<lambda>p. give_always snapshot (ro_Stop rooms p))),
       (''room.setJoinEnabled'', \<lambda>rq. with_ptr ''enabled'' dec_bool rq (\<lambda>enabled p. give RRoom (ro_SetJoinEnabled rooms enabled p))),
       (''room.rotateKey'', \<lambda>rq. no_params rq (\<lambda>p. give_text RInvite (ro_RotateKey rooms p))),
       (''room.getInvite'', \<lambda>rq. no_params rq (\<lambda>p. give_text RInvite (ro_GetInvite rooms p, p))),
       (''room.removeMember'', \<lambda>rq. with_text ''publicKey'' [''publicKey''] rq (\<lambda>key p. give RRoom (ro_RemoveMember rooms key p))),
       (''room.blockMember'', \<lambda>rq. with_text ''publicKey'' [''publicKey''] rq (\<lambda>key p. give RRoom (ro_BlockMember rooms key p))),
       (''room.unblockUID'', \<lambda>rq. with_text ''uid'' [''uid''] rq (\<lambda>uid p. give RRoom (ro_UnblockUID rooms uid p))),
       (''room.renameMember'', rename_member sv),
       (''room.leave'', \<lambda>rq. no_params rq (if_set notReady (svc_Leave sv) (\<lambda>f p. give_always snapshot (f p)))),
       (''tunnel.list'', \<lambda>rq. no_params rq (if_set notReady (svc_ListTunnels sv) (\<lambda>f p. give RApps (f p)))),
       (''tunnel.replace'', \<lambda>rq. with_ptr ''apps'' (dec_slice zero_app strict_app) rq
          (\<lambda>apps. if_set notReady (svc_ReplaceTunnels sv) (\<lambda>f p. give_always (\<lambda>_. RApps apps) (f apps p)))),
       (''config.get'', \<lambda>rq. no_params rq (if_set invalidRequest (svc_GetConfig sv) (\<lambda>f p. give RConfig (f p)))),
       (''config.replace'', \<lambda>rq. with_ptr ''config'' strict_config rq
          (\<lambda>config. if_set invalidRequest (svc_ReplaceConfig sv) (\<lambda>f p. give_always (\<lambda>_. RConfig config) (f config p)))),
       (''openp2p.start'', \<lambda>rq. no_params rq (if_set invalidRequest (svc_StartOpenP2P sv) (\<lambda>f p. give_always (\<lambda>_. RSwitch ''starting'') (f p)))),
       (''openp2p.stop'', \<lambda>rq. no_params rq (if_set invalidRequest (svc_StopOpenP2P sv) (\<lambda>f p. give_always (\<lambda>_. RSwitch ''stopped'') (f p)))),
       (''log.read'', \<lambda>rq. no_params rq (if_set invalidRequest (svc_ReadLogs sv) (\<lambda>f p. give_text RLogs (f p)))),
       (''management.get'', \<lambda>rq. no_params rq (if_set invalidRequest (svc_GetManagement sv) (\<lambda>f p. give RManagement (f p)))),
       (''management.setAddress'', \<lambda>rq. with_text ''address'' [''address''] rq
          (\<lambda>address. if_set invalidRequest (svc_SetManagement sv) (\<lambda>f p. give RManagement (f address p)))),
       (''management.setAllowedIPs'', \<lambda>rq. with_ptr ''allowedIPs'' (dec_slice [] dec_str) rq
          (\<lambda>ips. if_set invalidRequest (svc_SetAllowedIPs sv) (\<lambda>f p. give RManagement (f ips p)))),
       (''core.shutdown'', \<lambda>rq. no_params rq (shut_down sv))])"

text \<open>\<open>None\<close>: the join has not returned.\<close>

definition dispatch :: "'p services \<Rightarrow> request \<Rightarrow> 'p \<Rightarrow> (outcome \<times> 'p) option" where
  "dispatch sv rq p =
     (if rq_Method rq = ''room.join'' then join_room sv rq p
      else Some (case map_of (handlers sv) (rq_Method rq) of None \<Rightarrow> refuse methodNotFound p | Some f \<Rightarrow> f rq p))"

section \<open>The transports\<close>

text \<open>A message of the WebSocket, with the flag that ends the program.\<close>

definition HandleMessage :: "'p services \<Rightarrow> string \<Rightarrow> 'p \<Rightarrow> ((response \<times> bool) \<times> 'p) option" where
  "HandleMessage sv data p =
     (let (i, rq) = (if maxLineBytes < length data then (0, None) else decode_request data) in
      (case rq of
         None \<Rightarrow> Some ((\<lparr>rp_ID = i, rp_Result = None, rp_Error = Some invalidRequest\<rparr>, False), p)
       | Some rq \<Rightarrow> map_option (\<lambda>((val, err, shutdown), p).
           ((\<lparr>rp_ID = rq_ID rq, rp_Result = val, rp_Error = err\<rparr>, shutdown), p)) (dispatch sv rq p)))"

text \<open>
  A line of the stdio transport: an answer, with the flag that ends the loop, or a join, which runs beside
  the loop. A line that is too long ends the loop with an error and calls nothing.
\<close>

datatype line_outcome = LineAnswer response bool | LineJoin request | LineTooLong

definition line_response :: "u64 \<Rightarrow> reply option \<Rightarrow> protocolError option \<Rightarrow> response" where
  "line_response i val err = \<lparr>rp_ID = i, rp_Result = (if err = None then val else None), rp_Error = err\<rparr>"

definition handle_line :: "'p services \<Rightarrow> string \<Rightarrow> 'p \<Rightarrow> (line_outcome \<times> 'p) option" where
  "handle_line sv line p =
     (if maxLineBytes \<le> length line then Some (LineTooLong, p)
      else
        (let (i, rq) = decode_request line in
         (case rq of
            None \<Rightarrow> Some (LineAnswer (line_response i None (Some invalidRequest)) False, p)
          | Some rq \<Rightarrow>
              if rq_Method rq = ''room.join'' then Some (LineJoin rq, p)
              else map_option (\<lambda>((val, err, shutdown), p). (LineAnswer (line_response (rq_ID rq) val err) shutdown, p))
                     (dispatch sv rq p))))"

text \<open>The answer of a join that \<open>handle_line\<close> has put aside, and the end of the input.\<close>

definition line_join :: "'p services \<Rightarrow> request \<Rightarrow> 'p \<Rightarrow> (response \<times> 'p) option" where
  "line_join sv rq p = map_option (\<lambda>((val, err, _), p). (line_response (rq_ID rq) val err, p)) (dispatch sv rq p)"

definition end_of_input :: "'p services \<Rightarrow> 'p \<Rightarrow> goerror option \<times> 'p" where
  "end_of_input sv p = (case svc_Shutdown sv of Some f \<Rightarrow> f p | None \<Rightarrow> ro_Stop (svc_Rooms sv) p)"

section \<open>The program\<close>

text \<open>
  The state behind the services of \<open>main\<close>: the runtime with its room service, the disk of the settings file,
  the address of the page, the clients it admits and the addresses it is to move to.
\<close>

record 'w program =
  pg_core :: "'w core"
  pg_files :: disk
  pg_address :: string
  pg_allowed :: "string list"
  pg_rebind :: "string list"

text \<open>What a call gets from outside: time, random numbers, ports, the outcome of sockets, and for a join its turns.\<close>

record 'w call_env =
  cv_out :: "'w outside"
  cv_now :: int
  cv_create :: create_env
  cv_key :: "arr12 result"
  cv_close :: "goerror option"
  cv_system :: "net_interface list result"
  cv_path :: string
  cv_join :: join_env
  cv_ctx :: nat
  cv_turns :: "(client_env \<times> bool) list"
  cv_control :: nat
  cv_controlCtx :: nat

definition on_rooms :: "('w core \<Rightarrow> 'a \<times> 'w core) \<Rightarrow> 'w program \<Rightarrow> 'a \<times> 'w program" where
  "on_rooms f p = (let (v, s) = f (pg_core p) in (v, p\<lparr>pg_core := s\<rparr>))"

definition on_runtime :: "(bool \<Rightarrow> 'w runtime \<Rightarrow> 'a \<times> 'w runtime) \<Rightarrow> 'w program \<Rightarrow> 'a \<times> 'w program" where
  "on_runtime f p = on_rooms (\<lambda>s. let (v, r) = f (r_running s) (r_net s) in (v, s\<lparr>r_net := r\<rparr>)) p"

definition on_settings :: "(disk \<Rightarrow> 'a \<times> disk) \<Rightarrow> 'w program \<Rightarrow> 'a \<times> 'w program" where
  "on_settings f p = (let (v, d) = f (pg_files p) in (v, p\<lparr>pg_files := d\<rparr>))"

text \<open>\<open>Logs\<close> with \<open>tailFile\<close>; a file that is missing is left out.\<close>

definition tailFile :: "string \<Rightarrow> nat \<Rightarrow> disk \<Rightarrow> bytes result \<times> disk" where
  "tailFile path limit d =
     (let (data, d) = ReadFile path d in (bind_result data (\<lambda>data. Inr (drop (length data - limit) data)), d))"

fun log_items :: "(string \<times> string) list \<Rightarrow> string \<Rightarrow> disk \<Rightarrow> string result \<times> disk" where
  "log_items [] output d = (Inr output, d)"
| "log_items ((name, path) # items) output d =
     (let (data, d) = tailFile path (256 * 1024) d in
      (case data of
         Inl e \<Rightarrow> if errors_is e OsErrNotExist then log_items items output d else (Inl e, d)
       | Inr data \<Rightarrow> log_items items (output @ ''===== '' @ name @ '' =====\<newline>'' @ string_of data @ ''\<newline>'') d))"

definition Logs :: "string \<Rightarrow> disk \<Rightarrow> string result \<times> disk" where
  "Logs dataDir d = log_items [(''Core'', dataDir @ ''/core.log''), (''OpenP2P'', dataDir @ ''/log/openp2p.log'')] [] d"

definition managementInfo :: "'w call_env \<Rightarrow> string \<Rightarrow> 'w program \<Rightarrow> ManagementInfo result \<times> 'w program" where
  "managementInfo v address p =
     (case Interfaces (cv_system v) of
        Inl e \<Rightarrow> (Inl e, p)
      | Inr items \<Rightarrow>
          (case SplitHostPort address of
             None \<Rightarrow> (Inl (ErrTag (Other ''address'')), p)
           | Some (host, port) \<Rightarrow>
               (let (allowed, p) = on_settings (AllowedIPs (cv_system v) (cv_path v) host) p
                in (bind_result allowed (\<lambda>allowed.
                      Inr \<lparr>mi_Address = host, mi_URL = ''http://'' @ JoinHostPort host port @ ''/'',
                           mi_Interfaces = items, mi_AllowedIPs = allowed\<rparr>), p))))"

text \<open>The port and the host of the current address; the zero value of \<open>SplitHostPort\<close> when it has none.\<close>

definition split_address :: "string \<Rightarrow> string \<times> string" where
  "split_address address = (case SplitHostPort address of None \<Rightarrow> ([], []) | Some hp \<Rightarrow> hp)"

definition main_SetManagement :: "'w call_env \<Rightarrow> string \<Rightarrow> 'w program \<Rightarrow> ManagementInfo result \<times> 'w program" where
  "main_SetManagement v address p =
     (let (err, p) = on_settings (settings_Save (cv_system v) (cv_path v) address) p in
      (case err of
         Some e \<Rightarrow> (Inl e, p)
       | None \<Rightarrow>
           (let next_address = JoinHostPort address (snd (split_address (pg_address p)));
                (allowed, p) = on_settings (AllowedIPs (cv_system v) (cv_path v) address) p
            in (case allowed of
                  Inl e \<Rightarrow> (Inl e, p)
                | Inr allowed \<Rightarrow>
                    (let (result, p) = managementInfo v next_address (p\<lparr>pg_allowed := allowed\<rparr>)
                     in (result, if error_of result = None then p\<lparr>pg_rebind := pg_rebind p @ [next_address]\<rparr> else p))))))"

definition main_SetAllowedIPs :: "'w call_env \<Rightarrow> string list \<Rightarrow> 'w program \<Rightarrow> ManagementInfo result \<times> 'w program" where
  "main_SetAllowedIPs v ips p =
     (let (allowed, p) = on_settings (SaveAllowedIPs (cv_path v) ips (fst (split_address (pg_address p)))) p in
      (case allowed of
         Inl e \<Rightarrow> (Inl e, p)
       | Inr allowed \<Rightarrow> managementInfo v (pg_address p) (p\<lparr>pg_allowed := allowed\<rparr>)))"

text \<open>\<open>StartOrCreate\<close> and \<open>Start\<close> share the random bytes of the host key and the outcome of listening.\<close>

definition main_rooms :: "'w call_env \<Rightarrow> 'w program room_calls" where
  "main_rooms v =
     (let cb = runtime_callbacks (cv_out v) (cv_now v) in
      \<lparr>ro_Snapshot = (\<lambda>p. snapshotLocked (pg_core p)),
       ro_StartOrCreate = (\<lambda>options. on_rooms (StartOrCreate cb (cv_create v) options)),
       ro_Start = on_rooms (room_Start cb (en_hostKey (cv_create v)) (en_listen (cv_create v))),
       ro_Stop = on_rooms (room_Stop cb (cv_close v)),
       ro_SetJoinEnabled = (\<lambda>enabled. on_rooms (SetJoinEnabled enabled)),
       ro_RotateKey = on_rooms (RotateKey (cv_key v)),
       ro_GetInvite = (\<lambda>p. GetInvite (pg_core p)),
       ro_RemoveMember = (\<lambda>key. on_rooms (room_RemoveMember cb key)),
       ro_BlockMember = (\<lambda>key. on_rooms (BlockMember cb key)),
       ro_UnblockUID = (\<lambda>uid. on_rooms (UnblockUID uid)),
       ro_RenameMember = (\<lambda>key name. on_rooms (RenameMember key name))\<rparr>)"

definition main_Join :: "'w call_env \<Rightarrow> JoinOptions \<Rightarrow> 'w program \<Rightarrow> (JoinResult result \<times> 'w program) option" where
  "main_Join v options p =
     map_option (\<lambda>(r, s). (r, p\<lparr>pg_core := s\<rparr>))
       (Join (cv_out v) (cv_join v) options (cv_ctx v) (cv_turns v) (cv_control v) (cv_controlCtx v) (pg_core p))"

definition main_services :: "'w call_env \<Rightarrow> 'w program services" where
  "main_services v =
     (let out = cv_out v in
      \<lparr>svc_Rooms = main_rooms v,
       svc_GetState = Some (on_rooms (\<lambda>s. case core_State out (cv_now v) s of (state, err, s) \<Rightarrow> ((state, err), s))),
       svc_ListTunnels = Some (on_runtime (\<lambda>_ r. in_files (UserApps (rt_configPath r)) r)),
       svc_ReplaceTunnels = Some (\<lambda>apps. on_runtime (ReplaceTunnels out apps)),
       svc_GetConfig = Some (on_runtime (\<lambda>_ r. in_files (PublicConfig (rt_configPath r)) r)),
       svc_ReplaceConfig = Some (\<lambda>config. on_runtime (ReplaceConfig out config)),
       svc_StartOpenP2P = Some (on_runtime (StartOpenP2P out)), svc_StopOpenP2P = Some (on_runtime (StopOpenP2P out)),
       svc_Join = Some (main_Join v), svc_Leave = Some (on_runtime (\<lambda>_. Leave out)),
       svc_Shutdown = Some (on_rooms (core_Close out (cv_now v) (cv_close v))),
       svc_ReadLogs = Some (on_runtime (\<lambda>_ r. in_files (Logs (rt_dataDir r)) r)),
       svc_GetManagement = Some (\<lambda>p. managementInfo v (pg_address p) p),
       svc_SetManagement = Some (main_SetManagement v), svc_SetAllowedIPs = Some (main_SetAllowedIPs v)\<rparr>)"

text \<open>
  The start of \<open>main\<close> up to its first address and access list; \<open>listen\<close> is the flag. The program ends where
  this has an error.
\<close>

definition validManagementAddress :: "net_interface list result \<Rightarrow> string \<Rightarrow> bool" where
  "validManagementAddress system address =
     (case SplitHostPort address of None \<Rightarrow> False | Some (host, _) \<Rightarrow> Available system host)"

definition main_start :: "net_interface list result \<Rightarrow> string \<Rightarrow> string \<Rightarrow> disk \<Rightarrow> (string \<times> string list) result \<times> disk" where
  "main_start system path listen d =
     (let (loaded, d) = settings_Load path d;
          selected = (case loaded of Inl _ \<Rightarrow> Loopback | Inr address \<Rightarrow> if Available system address then address else Loopback);
          address = (if listen = [] then JoinHostPort selected ''26780'' else listen)
      in if \<not> validManagementAddress system address
         then (Inl (ErrTag (Other ''management address must belong to an available local IPv4 interface'')), d)
         else
           (let (allowed, d) = AllowedIPs system path (fst (split_address address)) d
            in (bind_result allowed (\<lambda>allowed. Inr (address, allowed)), d)))"

end
