(* ===== verification/Api_Laws.thy ===== *)
theory Api_Laws
  imports Api
begin

text \<open>
  Laws of the API: no message breaks an invariant of the program, parameters a method does not know change
  nothing, and what holds after a shutdown that was answered without error.
\<close>

section \<open>What the room service does to its network\<close>

lemma net_same [simp]:
  "r_net (snd (on_disk f s)) = r_net s" "r_net (snd (persistRoomSecretLocked s)) = r_net s"
  "r_net (set_alloc s a) = r_net s" "r_net (clearLocked s) = r_net s" "r_net (command c s) = r_net s"
  "r_net (forget_member k s) = r_net s" "r_net (reset_members s) = r_net s"
  "r_net (undo_remove block pb uid prev st psk s) = r_net s" "r_net (snd (listenLocked cb e s)) = r_net s"
  by (simp_all add: on_disk_def persistRoomSecretLocked_def set_alloc_def clearLocked_def command_def forget_member_def
      reset_members_def undo_remove_def listenLocked_def Let_def case_prod_beta split: sum.split)

lemma net_persist [simp]: "r_net (snd (persist_fixed s)) = r_net s"
  by (auto simp: persist_fixed_def persistLocked_def Let_def case_prod_beta split: sum.split)

text \<open>A property of the network that every callback keeps is kept by every operation of the service.\<close>

locale network_kept =
  fixes cb :: "'n callbacks" and Q :: "'n \<Rightarrow> bool"
  assumes start_kept: "cb_startNetwork cb = Some f \<Longrightarrow> Q r \<Longrightarrow> Q (snd (f config r))"
    and stop_kept: "cb_stopNetwork cb = Some g \<Longrightarrow> Q r \<Longrightarrow> Q (snd (g r))"
    and apply_kept: "cb_applyPeer cb = Some h \<Longrightarrow> Q r \<Longrightarrow> Q (snd (h item psk r))"
    and remove_kept: "cb_removePeer cb = Some i \<Longrightarrow> Q r \<Longrightarrow> Q (snd (i key r))"
begin

lemma call_kept: "Q (r_net s) \<Longrightarrow> (\<And>f r. g = Some f \<Longrightarrow> Q r \<Longrightarrow> Q (snd (f r))) \<Longrightarrow> Q (r_net (snd (call_net g s)))"
  by (auto simp: call_net_def Let_def case_prod_beta split: option.split)

lemma calls_kept:
  assumes "Q (r_net s)"
  shows "Q (r_net (snd (applyPeer cb item psk s)))" "Q (r_net (snd (removePeer cb key s)))"
    "Q (r_net (snd (stopNetwork cb s)))" "Q (r_net (snd (start_network cb s)))"
proof -
  show "Q (r_net (snd (applyPeer cb item psk s)))" unfolding applyPeer_def
    by (rule call_kept [OF assms]) (auto simp: apply_kept)
  show "Q (r_net (snd (removePeer cb key s)))" unfolding removePeer_def
    by (rule call_kept [OF assms]) (auto simp: remove_kept)
  show "Q (r_net (snd (stopNetwork cb s)))" unfolding stopNetwork_def
    by (rule call_kept [OF assms]) (auto simp: stop_kept)
  have "Q (r_net (snd (call_net (map_option (\<lambda>f. f (networkConfigLocked s)) (cb_startNetwork cb)) s)))"
    by (rule call_kept [OF assms]) (auto simp: start_kept)
  then show "Q (r_net (snd (start_network cb s)))" by (simp add: start_network_def Let_def case_prod_beta)
qed

lemma members_kept: "Q (r_net s) \<Longrightarrow> Q (r_net (snd (apply_members cb ls s)))"
proof (induction ls arbitrary: s)
  case (Cons l ls)
  then show ?case by (auto simp: Let_def case_prod_beta calls_kept split: option.split)
qed simp

lemma commands_kept:
  assumes "Q (r_net s)"
  shows "Q (r_net (snd (SetJoinEnabled e s)))" "Q (r_net (snd (removeMember cb k block s)))" "Q (r_net (snd (UnblockUID uid s)))"
    "Q (r_net (snd (RenameMember k name s)))" "Q (r_net (snd (RotateKey random s)))" "Q (r_net (snd (room_Stop cb close_err s)))"
proof -
  show "Q (r_net (snd (SetJoinEnabled e s)))" using assms by (simp add: SetJoinEnabled_def Let_def case_prod_beta split: option.split)
  show "Q (r_net (snd (removeMember cb k block s)))"
    using assms calls_kept by (auto simp: removeMember_def Let_def case_prod_beta split: sum.split option.split)
  show "Q (r_net (snd (UnblockUID uid s)))" using assms by (simp add: UnblockUID_def Let_def case_prod_beta split: option.split)
  show "Q (r_net (snd (RenameMember k name s)))"
    using assms by (auto simp: RenameMember_def Let_def case_prod_beta split: sum.split option.split prod.split)
  show "Q (r_net (snd (RotateKey random s)))" using assms by (auto simp: RotateKey_def Let_def case_prod_beta split: sum.split option.split)
  show "Q (r_net (snd (room_Stop cb close_err s)))" using assms calls_kept by (auto simp: room_Stop_def Let_def case_prod_beta)
qed

lemma Start_kept: "Q (r_net s) \<Longrightarrow> Q (r_net (snd (room_Start cb random le s)))"
proof (cases "r_running s")
  case False
  assume q: "Q (r_net s)"
  show ?thesis
    unfolding room_Start_def if_not_P [OF False]
    by (rule try_result [where P = "\<lambda>s. Q (r_net s)"] try_value [where P = "\<lambda>s. Q (r_net s)"] try_step [where P = "\<lambda>s. Q (r_net s)"]
        | simp only: split_paired_all prod.case | subst Let_def [of "_ :: _ room"]
        | simp add: q calls_kept members_kept)+
qed (simp add: room_Start_def)

lemma Create_kept: "Q (r_net s) \<Longrightarrow> Q (r_net (snd (room_Create cb env options s)))"
proof (cases "r_running s")
  case False
  assume q: "Q (r_net s)"
  show ?thesis
    unfolding room_Create_def if_not_P [OF False]
    by (rule try_result [where P = "\<lambda>s. Q (r_net s)"] try_value [where P = "\<lambda>s. Q (r_net s)"] try_step [where P = "\<lambda>s. Q (r_net s)"]
          try_guard [where P = "\<lambda>s. Q (r_net s)"]
        | simp only: split_paired_all prod.case | subst Let_def [of "_ :: _ room"] | subst Let_def [of "_ :: string"]
        | simp add: q calls_kept)+
qed (simp add: room_Create_def)

lemma StartOrCreate_kept: "Q (r_net s) \<Longrightarrow> Q (r_net (snd (StartOrCreate cb env options s)))"
  unfolding StartOrCreate_def Let_def case_prod_beta
  using Start_kept [of "snd (on_disk (stat_file (statePath s)) s)"] Create_kept [of "snd (on_disk (stat_file (statePath s)) s)"]
  by (simp split: option.split)

lemma pairing_kept:
  assumes "Q (r_net s)"
  shows "Q (r_net (snd (assign cb key name roomKey auth s)))" "Q (r_net (pairingFailed cb key g s))"
    "Q (r_net (unacked_expired cb key rev' s))"
proof -
  have r: "Q (r_net t) \<Longrightarrow> Q (r_net (rollbackPairLocked cb key pending t))" for t pending
    by (auto simp: rollbackPairLocked_def Let_def calls_kept)
  show "Q (r_net (snd (assign cb key name roomKey auth s)))"
    using assms by (auto simp: assign_def Let_def case_prod_beta r calls_kept split: option.split sum.split prod.split)
  show "Q (r_net (pairingFailed cb key g s))" using assms by (auto simp: pairingFailed_def Let_def r split: option.split)
  show "Q (r_net (unacked_expired cb key rev' s))"
    using assms by (auto simp: unacked_expired_def Let_def case_prod_beta calls_kept split: option.split)
qed

end

interpretation session: network_kept "runtime_callbacks out now" session_inv
  by unfold_locales (auto simp: runtime_callbacks_def net_start_inv net_stop_inv same_session_inv [OF same_operations(1)]
      same_session_inv [OF same_operations(2)])

section \<open>Calls of the runtime\<close>

lemma join_loop_inv: "join_loop out turns (j, r) = Some (x, j', r') \<Longrightarrow> session_inv r \<Longrightarrow> session_inv r'"
proof (induction turns arbitrary: j r)
  case (Cons h turns)
  obtain env stopped where h: "h = (env, stopped)" by fastforce
  obtain t j1 r1 where a: "join_attempt out env (j, r) = (t, j1, r1)" by (metis prod.collapse)
  have "session_inv r1" using join_attempt_inv [of r out env j] Cons.prems(2) a by simp
  with Cons.prems Cons.IH [of j1 r1] show ?case by (auto simp: h a split: turn.splits if_splits)
qed simp

lemma join_body_inv:
  assumes "join_body out jenv options ctx turns control controlCtx r = Some (v, r')" "session_inv r"
  shows "session_inv r'"
proof -
  obtain v1 r1 where 1: "join_prepare out jenv options ctx r = (v1, r1)" by fastforce
  have i1: "session_inv r1" using same_session_inv [OF join_prepare_same [of r out jenv options ctx] assms(2)] 1 by simp
  show ?thesis
  proof (cases v1)
    case (Inl e)
    with assms(1) i1 show ?thesis by (simp add: join_body_def 1)
  next
    case (Inr j1)
    then obtain v2 j2 r2 where 2: "join_loop out turns (j1, r1) = Some (v2, j2, r2)" using assms(1) by (auto simp: join_body_def 1 split: option.splits)
    have i2: "session_inv r2" by (rule join_loop_inv [OF 2 i1])
    obtain v3 r3 where 3: "join_save j2 v2 r2 = (v3, r3)" by fastforce
    have i3: "session_inv r3" using same_session_inv [OF same_operations(3) [where j = j2 and paired = v2 and r = r2] i2] 3 by simp
    then show ?thesis
      using assms(1) Inr other_inv(2) [OF i3] by (cases v3) (auto simp: join_body_def 1 2 3, metis snd_conv)
  qed
qed

lemma Join_inv:
  assumes "Join out env options ctx turns control controlCtx s = Some (v, s')" "room_inv s" "session_inv (r_net s)"
  shows "room_inv s' \<and> session_inv (r_net s')"
proof (cases "r_running s")
  case True
  with assms show ?thesis by (auto simp: Join_def)
next
  case False
  obtain err r where enter: "join_enter ctx (r_net s) = (err, r)" by fastforce
  have r: "session_inv r" using other_inv(1) [OF assms(3), of ctx] enter by simp
  have net: "room_inv (s\<lparr>r_net := n\<rparr>)" for n using assms(2) by (simp add: room_inv_env [OF env_step_net])
  show ?thesis
  proof (cases err)
    case (Some e)
    with assms(1) False r net show ?thesis by (auto simp: Join_def enter)
  next
    case None
    with assms(1) False obtain x r1 where b: "join_body out env options ctx turns control controlCtx r = Some (x, r1)"
      and s': "s' = s\<lparr>r_net := (case x of Inl _ \<Rightarrow> join_undo out ctx r1 | Inr _ \<Rightarrow> r1)\<rparr>"
      by (auto simp: Join_def enter split: option.splits sum.splits)
    have i: "session_inv r1" by (rule join_body_inv [OF b r])
    then have "session_inv (snd (Leave out r1))"
      using same_session_inv [OF same_operations(4) other_inv(3) [OF i]] by (simp add: Leave_def case_prod_beta)
    then have "session_inv (join_undo out ctx r1)" by (simp add: join_undo_def Let_def session_inv_def)
    with i net show ?thesis by (simp add: s' split: sum.split)
  qed
qed

lemma Leave_inv: "session_inv r \<Longrightarrow> session_inv (snd (Leave out r))"
  using same_session_inv [OF same_operations(4) other_inv(3)] by (simp add: Leave_def case_prod_beta)

lemma core_Close_inv:
  assumes "room_inv s" "session_inv (r_net s)"
  shows "room_inv (snd (core_Close out now e s)) \<and> session_inv (r_net (snd (core_Close out now e s)))"
proof -
  define r where "r = snd (Leave out (setLifecycle ''stopping'' (r_net s)))"
  define s1 where "s1 = snd (room_Stop (runtime_callbacks out now) e (s\<lparr>r_net := r\<rparr>))"
  have r: "session_inv r" unfolding r_def by (rule Leave_inv) (use assms(2) in simp)
  have "room_inv s1" unfolding s1_def by (rule Stop_inv) (use assms(1) in \<open>simp add: room_inv_env [OF env_step_net]\<close>)
  moreover have "session_inv (r_net s1)" unfolding s1_def by (rule session.commands_kept) (simp add: r)
  moreover obtain r' where "same_session (r_net s1) r'" "snd (core_Close out now e s) = s1\<lparr>r_net := r'\<rparr>"
  proof
    let ?r = "snd (engine_Stop out (snd (in_files (ClearInternal (rt_configPath (r_net s1))) (r_net s1))))"
    let ?x = "[fst (Leave out (setLifecycle ''stopping'' (r_net s))), fst (room_Stop (runtime_callbacks out now) e (s\<lparr>r_net := r\<rparr>)),
      drop_missing (fst (in_files (ClearInternal (rt_configPath (r_net s1))) (r_net s1))),
      fst (engine_Stop out (snd (in_files (ClearInternal (rt_configPath (r_net s1))) (r_net s1))))]"
    show "same_session (r_net s1) (snd (settle ?x ?r))" by simp
    show "snd (core_Close out now e s) = s1\<lparr>r_net := snd (settle ?x ?r)\<rparr>"
      by (simp add: core_Close_def Let_def case_prod_beta r_def s1_def)
  qed
  ultimately show ?thesis using same_session_inv by (simp add: room_inv_env [OF env_step_net])
qed

lemma core_State_inv:
  assumes "core_State out now s = (state, err, s')" "room_inv s" "session_inv (r_net s)"
  shows "room_inv s' \<and> session_inv (r_net s')"
proof -
  have "room_inv (refreshHostStats out now s) \<and> session_inv (r_net (refreshHostStats out now s))"
  proof (cases "rt_manager (r_net s) = None \<or> now - rt_statsAt (r_net s) < 10 ^ 9")
    case True
    then show ?thesis using assms(2,3) by (auto simp: refreshHostStats_def Let_def split: option.split)
  next
    case False
    then obtain m where m: "rt_manager (r_net s) = Some m" by (cases "rt_manager (r_net s)") auto
    define r where "r = snd (on_world (PeerStats (ow_wg out) m) ((r_net s)\<lparr>rt_statsAt := now\<rparr>))"
    have r: "session_inv r" unfolding r_def by (rule same_session_inv [OF _ assms(3)]) simp
    have i: "room_inv (s\<lparr>r_net := r\<rparr>)" using assms(2) by (simp add: room_inv_env [OF env_step_net])
    have f: "r_net (foldl (update_stat now stats) t ls) = r_net t" for stats and t :: "'a core" and ls
      by (induction ls arbitrary: t) (simp_all add: update_stat_def split: option.split)
    have u: "r_net (UpdateMemberStats now stats t) = r_net t" for stats and t :: "'a core"
      by (simp add: UpdateMemberStats_def f split: option.split)
    show ?thesis
      using False m r i UpdateMemberStats_inv [OF i]
      by (auto simp: refreshHostStats_def Let_def case_prod_beta u simp flip: r_def split: sum.split)
  qed
  moreover define t where "t = refreshHostStats out now s"
  ultimately have t: "room_inv t" "session_inv (r_net t)" by simp_all
  have "s' = t\<lparr>r_net := snd (in_files (UserApps (rt_configPath (r_net t))) (r_net t))\<rparr>"
    using assms(1) by (auto simp: core_State_def Let_def case_prod_beta simp flip: t_def)
  with t show ?thesis using same_session_inv [OF _ t(2)] by (simp add: room_inv_env [OF env_step_net])
qed

section \<open>No message breaks an invariant\<close>

text \<open>
  A property that each service keeps is kept by every message; \<open>may\<close> is what a rename needs besides.
\<close>

lemma list_all_Nil: "list_all P []" by simp

lemma give_state: "give mk (v, q) = (x, p') \<Longrightarrow> p' = q"
  by (auto simp: give_def split: sum.splits)

locale program_kept =
  fixes sv :: "'p services" and inv :: "'p \<Rightarrow> bool" and may :: "'p \<Rightarrow> bool"
  assumes room_kept: "inv p \<Longrightarrow> inv (snd (ro_StartOrCreate (svc_Rooms sv) options p))" "inv p \<Longrightarrow> inv (snd (ro_Start (svc_Rooms sv) p))"
      "inv p \<Longrightarrow> inv (snd (ro_Stop (svc_Rooms sv) p))" "inv p \<Longrightarrow> inv (snd (ro_SetJoinEnabled (svc_Rooms sv) enabled p))"
      "inv p \<Longrightarrow> inv (snd (ro_RotateKey (svc_Rooms sv) p))" "inv p \<Longrightarrow> inv (snd (ro_RemoveMember (svc_Rooms sv) key p))"
      "inv p \<Longrightarrow> inv (snd (ro_BlockMember (svc_Rooms sv) key p))" "inv p \<Longrightarrow> inv (snd (ro_UnblockUID (svc_Rooms sv) uid p))"
    and rename_kept: "inv p \<Longrightarrow> may p \<Longrightarrow> inv (snd (ro_RenameMember (svc_Rooms sv) key name p))"
    and state_kept: "svc_GetState sv = Some f1 \<Longrightarrow> inv p \<Longrightarrow> inv (snd (f1 p))"
    and join_kept: "svc_Join sv = Some f2 \<Longrightarrow> f2 joining p = Some (v, p') \<Longrightarrow> inv p \<Longrightarrow> inv p'"
    and calls_kept: "svc_ListTunnels sv = Some f3 \<Longrightarrow> inv p \<Longrightarrow> inv (snd (f3 p))"
      "svc_ReplaceTunnels sv = Some f4 \<Longrightarrow> inv p \<Longrightarrow> inv (snd (f4 apps p))" "svc_GetConfig sv = Some f5 \<Longrightarrow> inv p \<Longrightarrow> inv (snd (f5 p))"
      "svc_ReplaceConfig sv = Some f6 \<Longrightarrow> inv p \<Longrightarrow> inv (snd (f6 config p))" "svc_StartOpenP2P sv = Some f7 \<Longrightarrow> inv p \<Longrightarrow> inv (snd (f7 p))"
      "svc_StopOpenP2P sv = Some f7 \<Longrightarrow> inv p \<Longrightarrow> inv (snd (f7 p))" "svc_Leave sv = Some f7 \<Longrightarrow> inv p \<Longrightarrow> inv (snd (f7 p))"
      "svc_Shutdown sv = Some f7 \<Longrightarrow> inv p \<Longrightarrow> inv (snd (f7 p))" "svc_ReadLogs sv = Some f8 \<Longrightarrow> inv p \<Longrightarrow> inv (snd (f8 p))"
      "svc_GetManagement sv = Some f9 \<Longrightarrow> inv p \<Longrightarrow> inv (snd (f9 p))" "svc_SetManagement sv = Some f10 \<Longrightarrow> inv p \<Longrightarrow> inv (snd (f10 address p))"
      "svc_SetAllowedIPs sv = Some f11 \<Longrightarrow> inv p \<Longrightarrow> inv (snd (f11 ips p))"
begin

lemma give_kept: "inv (snd r) \<Longrightarrow> inv (snd (give mk r))" "inv (snd r2) \<Longrightarrow> inv (snd (give_text mk2 r2))"
  "inv (snd r3) \<Longrightarrow> inv (snd (give_always val r3))" "inv p \<Longrightarrow> inv (snd (refuse e p))"
  by (auto simp: give_def give_text_def give_always_def refuse_def split: prod.split sum.split)

lemma guard_kept:
  "inv p \<Longrightarrow> (inv p \<Longrightarrow> inv (snd (f p))) \<Longrightarrow> inv (snd (no_params rq f p))"
  "inv p \<Longrightarrow> (\<And>x. inv p \<Longrightarrow> inv (snd (g x p))) \<Longrightarrow> inv (snd (with_text field known rq g p))"
  "inv p \<Longrightarrow> (\<And>x. inv p \<Longrightarrow> inv (snd (h x p))) \<Longrightarrow> inv (snd (with_ptr field dec rq h p))"
  "inv p \<Longrightarrow> (\<And>x. c = Some x \<Longrightarrow> inv p \<Longrightarrow> inv (snd (k x p))) \<Longrightarrow> inv (snd (if_set e c k p))"
  by (auto simp: no_params_def with_text_def with_ptr_def if_set_def give_kept split: option.split)

lemma special_kept:
  assumes "inv p"
  shows "inv (snd (rooms_state sv p))" "inv (snd (room_create sv p))" "inv (snd (shut_down sv p))" "may p \<Longrightarrow> inv (snd (rename_member sv rq p))"
proof -
  show "inv (snd (rooms_state sv p))" using assms state_kept by (auto simp: rooms_state_def case_prod_beta split: option.split)
  show "inv (snd (room_create sv p))" using room_kept(1) [OF assms] by (auto simp: room_create_def Let_def case_prod_beta split: sum.split)
  show "inv (snd (shut_down sv p))" using assms room_kept(3) calls_kept(8) by (auto simp: shut_down_def case_prod_beta split: option.split)
  show "may p \<Longrightarrow> inv (snd (rename_member sv rq p))"
    using rename_kept [OF assms] assms by (auto simp: rename_member_def Let_def split: option.split intro!: give_kept(1,4))
qed

lemma handlers_kept: "inv p \<Longrightarrow> may p \<Longrightarrow> list_all (\<lambda>(m, f). \<forall>rq. inv (snd (f rq p))) (handlers sv)"
  unfolding handlers_def Let_def list.pred_inject prod.case
  by (intro conjI allI list_all_Nil guard_kept give_kept special_kept; (simp only: snd_conv)?; (assumption | rule room_kept rename_kept calls_kept; assumption)?)

lemma dispatch_kept:
  assumes "dispatch sv rq p = Some (x, p')" "inv p" "may p"
  shows "inv p'"
proof (cases "rq_Method rq = ''room.join''")
  case True
  with assms show ?thesis
    by (auto simp: dispatch_def join_room_def Let_def refuse_def split: option.splits if_splits dest!: give_state dest: join_kept)
next
  case False
  then have p': "p' = snd (case map_of (handlers sv) (rq_Method rq) of None \<Rightarrow> refuse methodNotFound p | Some f \<Rightarrow> f rq p)"
    using assms(1) by (simp add: dispatch_def)
  show ?thesis
  proof (cases "map_of (handlers sv) (rq_Method rq)")
    case None
    with p' assms(2) show ?thesis by (simp add: give_kept)
  next
    case (Some f)
    have "inv (snd (f rq p))"
      using handlers_kept [OF assms(2,3)] map_of_SomeD [OF Some] unfolding list_all_iff by fastforce
    with p' Some show ?thesis by simp
  qed
qed

lemma message_kept: "HandleMessage sv data p = Some (x, p') \<Longrightarrow> inv p \<Longrightarrow> may p \<Longrightarrow> inv p'"
  by (auto simp: HandleMessage_def Let_def case_prod_beta dest: dispatch_kept split: option.splits)

lemma line_kept: "handle_line sv line p = Some (x, p') \<Longrightarrow> inv p \<Longrightarrow> may p \<Longrightarrow> inv p'"
  by (auto simp: handle_line_def Let_def case_prod_beta dest: dispatch_kept split: option.splits if_splits)

lemma line_join_kept: "line_join sv rq p = Some (x, p') \<Longrightarrow> inv p \<Longrightarrow> may p \<Longrightarrow> inv p'"
  by (auto simp: line_join_def case_prod_beta dest: dispatch_kept)

end

text \<open>The program of \<open>main\<close>; the next lease revision must not wrap around for a rename.\<close>

definition program_inv :: "'w program \<Rightarrow> bool" where
  "program_inv p \<longleftrightarrow> room_inv (pg_core p) \<and> session_inv (r_net (pg_core p))"

definition revision_left :: "'w program \<Rightarrow> bool" where
  "revision_left p \<longleftrightarrow> revision (the_alloc (pg_core p)) < revision (the_alloc (pg_core p)) + 1"

lemma on_rooms_inv:
  "program_inv p \<Longrightarrow> (\<And>s. s = pg_core p \<Longrightarrow> room_inv s \<Longrightarrow> session_inv (r_net s) \<Longrightarrow> room_inv (snd (f s)) \<and> session_inv (r_net (snd (f s))))
     \<Longrightarrow> program_inv (snd (on_rooms f p))"
  by (auto simp: program_inv_def on_rooms_def Let_def case_prod_beta)

lemma on_runtime_inv:
  "program_inv p \<Longrightarrow> (\<And>r. session_inv r \<Longrightarrow> session_inv (snd (f (r_running (pg_core p)) r))) \<Longrightarrow> program_inv (snd (on_runtime f p))"
  unfolding on_runtime_def by (rule on_rooms_inv) (simp_all add: Let_def case_prod_beta room_inv_env [OF env_step_net])

lemma on_settings_inv [simp]: "program_inv (snd (on_settings g p)) = program_inv p"
  by (simp add: on_settings_def Let_def case_prod_beta program_inv_def)

lemma program_inv_fields [simp]: "program_inv (p\<lparr>pg_allowed := a\<rparr>) = program_inv p" "program_inv (p\<lparr>pg_rebind := b\<rparr>) = program_inv p"
  by (simp_all add: program_inv_def)

lemma management_inv [simp]:
  "program_inv (snd (managementInfo v address p)) = program_inv p" "program_inv (snd (main_SetManagement v address p)) = program_inv p"
  "program_inv (snd (main_SetAllowedIPs v ips p)) = program_inv p"
proof -
  show i: "program_inv (snd (managementInfo v address p)) = program_inv p" for address and p :: "'a program"
    by (simp add: managementInfo_def Let_def case_prod_beta split: sum.split option.split)
  show "program_inv (snd (main_SetManagement v address p)) = program_inv p"
    by (simp add: main_SetManagement_def Let_def case_prod_beta i split: sum.split option.split)
  show "program_inv (snd (main_SetAllowedIPs v ips p)) = program_inv p"
    by (simp add: main_SetAllowedIPs_def Let_def case_prod_beta i split: sum.split)
qed

lemma main_rooms_inv:
  assumes "program_inv p"
  shows "program_inv (snd (ro_StartOrCreate (main_rooms v) options p))" "program_inv (snd (ro_Start (main_rooms v) p))"
    "program_inv (snd (ro_Stop (main_rooms v) p))" "program_inv (snd (ro_SetJoinEnabled (main_rooms v) enabled p))"
    "program_inv (snd (ro_RotateKey (main_rooms v) p))" "program_inv (snd (ro_RemoveMember (main_rooms v) key p))"
    "program_inv (snd (ro_BlockMember (main_rooms v) key p))" "program_inv (snd (ro_UnblockUID (main_rooms v) uid p))"
    "revision_left p \<Longrightarrow> program_inv (snd (ro_RenameMember (main_rooms v) key name p))"
  unfolding main_rooms_def Let_def room_calls.simps
  by (rule on_rooms_inv [OF assms],
      simp add: revision_left_def StartOrCreate_inv session.StartOrCreate_kept Start_inv session.Start_kept Stop_inv SetJoinEnabled_inv RotateKey_inv
        UnblockUID_inv RenameMember_inv room_RemoveMember_def BlockMember_def removeMember_inv session.commands_kept)+

lemma main_calls_inv:
  assumes "program_inv p"
  shows "program_inv (snd (on_rooms (\<lambda>s. case core_State out now s of (state, err, s) \<Rightarrow> ((state, err), s)) p))"
    "program_inv (snd (on_runtime (\<lambda>_ r. in_files (g r) r) p))"
    "program_inv (snd (on_runtime (ReplaceTunnels out apps) p))" "program_inv (snd (on_runtime (ReplaceConfig out config) p))"
    "program_inv (snd (on_runtime (StartOpenP2P out) p))" "program_inv (snd (on_runtime (StopOpenP2P out) p))"
    "program_inv (snd (on_runtime (\<lambda>_. Leave out) p))" "program_inv (snd (on_rooms (core_Close out now e) p))"
proof -
  show "program_inv (snd (on_rooms (\<lambda>s. case core_State out now s of (state, err, s) \<Rightarrow> ((state, err), s)) p))"
    by (rule on_rooms_inv [OF assms]) (auto split: prod.split dest: core_State_inv)
  show "program_inv (snd (on_runtime (\<lambda>_ r. in_files (g r) r) p))"
    by (rule on_runtime_inv [OF assms]) (rule same_session_inv [rotated], assumption, simp)
  show "program_inv (snd (on_runtime (ReplaceTunnels out apps) p))" "program_inv (snd (on_runtime (ReplaceConfig out config) p))"
    by (rule on_runtime_inv [OF assms]; rule same_session_inv [OF same_operations(7)] same_session_inv [OF same_operations(6)]; assumption)+
  show "program_inv (snd (on_runtime (StartOpenP2P out) p))" "program_inv (snd (on_runtime (StopOpenP2P out) p))"
    "program_inv (snd (on_runtime (\<lambda>_. Leave out) p))"
    by (rule on_runtime_inv [OF assms]; rule other_inv Leave_inv; assumption)+
  show "program_inv (snd (on_rooms (core_Close out now e) p))"
    by (rule on_rooms_inv [OF assms]) (rule core_Close_inv)
qed

interpretation main: program_kept "main_services v" program_inv revision_left
proof unfold_locales
  fix options and p p' :: "'a program" and x and f :: "JoinOptions \<Rightarrow> 'a program \<Rightarrow> (JoinResult result \<times> 'a program) option"
  assume "svc_Join (main_services v) = Some f" "f options p = Some (x, p')" "program_inv p"
  then show "program_inv p'"
    using Join_inv by (fastforce simp: main_services_def Let_def main_Join_def program_inv_def)
qed (auto simp: main_services_def Let_def main_rooms_inv main_calls_inv)

text \<open>
  All that can happen to the program: messages and lines on both transports, a join beside the loop, the calls
  and timers of the pairing server, and the critical sections of the runtime, whatever their data.
\<close>

inductive program_step :: "'w outside \<Rightarrow> 'w program \<Rightarrow> 'w program \<Rightarrow> bool" for out where
  message: "HandleMessage (main_services v) data p = Some (x, p') \<Longrightarrow> program_step out p p'"
| line: "handle_line (main_services v) data p = Some (y, p') \<Longrightarrow> program_step out p p'"
| joining: "line_join (main_services v) rq p = Some (z, p') \<Longrightarrow> program_step out p p'"
| ending: "program_step out p (snd (end_of_input (main_services v) p))"
| assigning: "program_step out p (p\<lparr>pg_core := snd (assign (runtime_callbacks out now) key name roomKey auth (pg_core p))\<rparr>)"
| failing: "program_step out p (p\<lparr>pg_core := pairingFailed (runtime_callbacks out now) key g (pg_core p)\<rparr>)"
| acknowledging: "program_step out p (p\<lparr>pg_core := pairingAcknowledged key g (pg_core p)\<rparr>)"
| reporting: "program_step out p (p\<lparr>pg_core := reportStats key dev (pg_core p)\<rparr>)"
| firing: "program_step out p (p\<lparr>pg_core := fire_timer key (pg_core p)\<rparr>)"
| expiring: "(key, rev') \<in> set (r_fired (pg_core p)) \<Longrightarrow> program_step out p (p\<lparr>pg_core :=
    unacked_expired (runtime_callbacks out now) key rev' ((pg_core p)\<lparr>r_fired := remove1 (key, rev') (r_fired (pg_core p))\<rparr>)\<rparr>)"
| running: "runtime_step out (r_net (pg_core p)) r \<Longrightarrow> program_step out p (p\<lparr>pg_core := (pg_core p)\<lparr>r_net := r\<rparr>\<rparr>)"

text \<open>The states reached from the start as long as the lease revisions do not wrap around.\<close>

inductive program_reach :: "'w outside \<Rightarrow> 'w program \<Rightarrow> bool" for out where
  new: "core_New dataDir hostUID configPath verified random roomDisk d w = (Inr s, d') \<Longrightarrow>
    program_reach out \<lparr>pg_core = s, pg_files = files, pg_address = address, pg_allowed = allowed, pg_rebind = []\<rparr>"
| step: "program_reach out p \<Longrightarrow> revision_left p \<Longrightarrow> program_step out p p' \<Longrightarrow> program_reach out p'"

lemma program_inv_core: "room_inv s \<Longrightarrow> session_inv (r_net s) \<Longrightarrow> program_inv (p\<lparr>pg_core := s\<rparr>)"
  by (simp add: program_inv_def)

lemma reply_net [simp]: "r_net (pairingAcknowledged key g s) = r_net s" "r_net (reportStats key dev s) = r_net s"
  "r_net (fire_timer key s) = r_net s"
  by (simp_all add: pairingAcknowledged_def reportStats_def fire_timer_def split: option.split prod.split bool.split)

lemma program_step_inv: "program_step out p p' \<Longrightarrow> program_inv p \<Longrightarrow> revision_left p \<Longrightarrow> program_inv p'"
proof (induction rule: program_step.induct)
  case (message v data p x p')
  then show ?case by (rule main.message_kept)
next
  case (line v data p x p')
  then show ?case by (rule main.line_kept)
next
  case (joining v rq p x p')
  then show ?case by (rule main.line_join_kept)
next
  case (ending p v)
  then show ?case
    using main.calls_kept(8) [of v _ p] by (simp add: end_of_input_def main_services_def Let_def)
next
  case (expiring key rev' p now)
  let ?s = "(pg_core p)\<lparr>r_fired := remove1 (key, rev') (r_fired (pg_core p))\<rparr>"
  have "room_inv ?s" "session_inv (r_net ?s)" using expiring by (simp_all add: program_inv_def room_inv_def)
  then show ?case by (intro program_inv_core expired_inv session.pairing_kept)
next
  case (running p r)
  then show ?case by (auto simp: program_inv_def room_inv_env [OF env_step_net] intro: runtime_step_inv)
qed (auto simp: program_inv_def revision_left_def assign_inv pairingFailed_inv acknowledged_inv reportStats_inv fire_timer_inv session.pairing_kept)

lemma program_reach_inv: "program_reach out p \<Longrightarrow> program_inv p"
proof (induction rule: program_reach.induct)
  case (new dataDir hostUID configPath verified random roomDisk d w s)
  then have "room_inv s"
    by (auto simp: core_New_def Let_def case_prod_beta room_New_def room_inv_def split: option.splits sum.splits if_splits)
  with new core_New_inv show ?case by (simp add: program_inv_def)
next
  case step
  then show ?case using program_step_inv by blast
qed

section \<open>Parameters\<close>

text \<open>The names a parameter can have, over all methods.\<close>

definition parameter_names :: "string list" where
  "parameter_names = [''enabled'', ''publicKey'', ''uid'', ''name'', ''invite'', ''apps'', ''config'', ''address'', ''allowedIPs'']"

definition stray_member :: "request \<Rightarrow> bool" where
  "stray_member rq \<longleftrightarrow> (\<exists>ms k v. rq_Params rq = Some (JObj ms) \<and> (k, v) \<in> set ms \<and> (\<forall>n\<in>set parameter_names. \<not> names_field n k))"

lemma stray_params:
  assumes "stray_member rq" "set known \<subseteq> set parameter_names"
  shows "params_members known (rq_Params rq) = None"
proof -
  obtain ms k v where m: "rq_Params rq = Some (JObj ms)" "(k, v) \<in> set ms" "\<forall>n\<in>set parameter_names. \<not> names_field n k"
    using assms(1) unfolding stray_member_def by blast
  have "\<not> list_ex (\<lambda>f. names_field f k) known" using m(3) assms(2) unfolding list_ex_iff by blast
  with m(2) have "\<not> known_fields known ms" unfolding known_fields_def list_all_iff by fastforce
  with m(1) show ?thesis by (simp add: params_members_def)
qed

lemma stray_refused:
  assumes "stray_member rq"
  shows "no_params rq f p = refuse invalidRequest p"
    "set known \<subseteq> set parameter_names \<Longrightarrow> with_text field known rq g p = refuse invalidRequest p"
    "field \<in> set parameter_names \<Longrightarrow> with_ptr field dec rq h p = refuse invalidRequest p"
    "rename_member sv rq p = refuse invalidRequest p" "join_room sv rq p = Some (refuse invalidRequest p)"
  using stray_params [OF assms, of "[]"] stray_params [OF assms, of known] stray_params [OF assms, of "[field]"]
    stray_params [OF assms, of "[''publicKey'', ''name'']"] stray_params [OF assms, of "[''invite'', ''name'']"]
  by (simp_all add: no_params_def emptyParams_def with_text_def string_param_def with_ptr_def ptr_param_def rename_member_def join_room_def
      parameter_names_def)

lemma handlers_stray: "stray_member rq \<Longrightarrow> list_all (\<lambda>(m, f). f rq p = refuse invalidRequest p) (handlers sv)"
  unfolding handlers_def Let_def list.pred_inject prod.case
  by (intro conjI list_all_Nil stray_refused; (assumption | simp only: parameter_names_def; simp)?)

lemma dispatch_stray:
  assumes "stray_member rq"
  shows "dispatch sv rq p = Some (refuse (if rq_Method rq = ''room.join'' \<or> map_of (handlers sv) (rq_Method rq) \<noteq> None
    then invalidRequest else methodNotFound) p)"
proof -
  have "f rq p = refuse invalidRequest p" if "map_of (handlers sv) (rq_Method rq) = Some f" for f
    using handlers_stray [OF assms, of p sv] map_of_SomeD [OF that] unfolding list_all_iff by fastforce
  then show ?thesis using stray_refused(5) [OF assms, of sv p] by (simp add: dispatch_def split: option.split)
qed

section \<open>Shutdown\<close>

lemma handlers_flag: "list_all (\<lambda>(m, f). (\<exists>v e q. f rq p = ((v, e, False), q))
    \<or> (m = ''core.shutdown'' \<and> f rq p = no_params rq (shut_down sv) p)) (handlers sv)"
proof -
  have g: "\<exists>v e q. give mk r = ((v, e, False), q)" "\<exists>v e q. give_text mk2 r2 = ((v, e, False), q)"
    "\<exists>v e q. give_always val r3 = ((v, e, False), q)" "\<exists>v e q. refuse err p = ((v, e, False), q)"
    "\<exists>v e q. rooms_state sv p = ((v, e, False), q)" "\<exists>v e q. room_create sv p = ((v, e, False), q)"
    "\<exists>v e q. rename_member sv rq p = ((v, e, False), q)"
    for mk :: "'b \<Rightarrow> reply" and r and mk2 r2 val r3 err and p :: 'a
    by (auto simp: give_def give_text_def give_always_def refuse_def rooms_state_def room_create_def rename_member_def Let_def case_prod_beta
        split: sum.split option.split prod.split)
  have n: "\<exists>v e q. no_params rq f p = ((v, e, False), q)" if "\<exists>v e q. f p = ((v, e, False), q)" for f :: "'a \<Rightarrow> outcome \<times> 'a"
    using that by (simp add: no_params_def refuse_def)
  have t: "\<exists>v e q. with_text field known rq f p = ((v, e, False), q)" if "\<And>x. \<exists>v e q. f x p = ((v, e, False), q)"
    for field known and f :: "string \<Rightarrow> 'a \<Rightarrow> outcome \<times> 'a"
    using that by (simp add: with_text_def refuse_def split: option.split)
  have w: "\<exists>v e q. with_ptr field dec rq f p = ((v, e, False), q)" if "\<And>x. \<exists>v e q. f x p = ((v, e, False), q)"
    for field and dec :: "json \<Rightarrow> 'b option" and f :: "'b \<Rightarrow> 'a \<Rightarrow> outcome \<times> 'a"
    using that by (simp add: with_ptr_def refuse_def split: option.split)
  have i: "\<exists>v e q. if_set err c f p = ((v, e, False), q)" if "\<And>x. \<exists>v e q. f x p = ((v, e, False), q)"
    for err and c :: "'b option" and f :: "'b \<Rightarrow> 'a \<Rightarrow> outcome \<times> 'a"
    using that by (simp add: if_set_def refuse_def split: option.split)
  show ?thesis
    unfolding handlers_def Let_def list.pred_inject prod.case
    by (intro conjI list_all_Nil; (rule disjI2; simp; fail)?; rule disjI1; intro n t w i g)
qed

lemma give_flag: "give mk r = (x, q) \<Longrightarrow> \<not> snd (snd x)"
  by (auto simp: give_def split: prod.splits sum.splits)

lemma join_flag: "join_room sv rq p = Some (x, q) \<Longrightarrow> \<not> snd (snd x)"
  by (auto simp: join_room_def Let_def refuse_def split: option.splits if_splits dest: give_flag)

lemma dispatch_shutdown:
  assumes "dispatch sv rq p = Some ((v, e, True), q)"
  shows "rq_Method rq = ''core.shutdown'' \<and> emptyParams (rq_Params rq) \<and> shut_down sv p = ((v, e, True), q)"
proof -
  have m: "rq_Method rq \<noteq> ''room.join''" using assms join_flag [of sv rq p "(v, e, True)" q] by (auto simp: dispatch_def)
  with assms obtain f where f: "map_of (handlers sv) (rq_Method rq) = Some f" "f rq p = ((v, e, True), q)"
    by (auto simp: dispatch_def refuse_def split: option.splits)
  from handlers_flag [of rq p sv] map_of_SomeD [OF f(1)] f(2)
  have "rq_Method rq = ''core.shutdown''" "no_params rq (shut_down sv) p = ((v, e, True), q)"
    unfolding list_all_iff by fastforce+
  then show ?thesis by (auto simp: no_params_def refuse_def split: if_splits)
qed

text \<open>What is left when the program was closed without an error.\<close>

lemma no_session_same: "same_session r t \<Longrightarrow> no_session r \<Longrightarrow> no_session t"
  by (simp add: same_session_def no_session_def)

lemma net_stop_same: "same_session (r\<lparr>rt_manager := None, rt_relay := None\<rparr>) (snd (net_stop out r))"
proof -
  have "(setLifecycle v r)\<lparr>rt_manager := None, rt_relay := None\<rparr> = setLifecycle v (r\<lparr>rt_manager := None, rt_relay := None\<rparr>)" for v
    by (simp add: setLifecycle_def)
  then show ?thesis by (simp add: net_stop_def Let_def case_prod_beta)
qed

lemma Stop_state:
  "\<not> r_running (snd (room_Stop (runtime_callbacks out now) e s))"
  "r_net (snd (room_Stop (runtime_callbacks out now) e s)) = (if r_running s then snd (net_stop out (r_net s)) else r_net s)"
  by (simp_all add: room_Stop_def runtime_callbacks_def stopNetwork_def call_net_def Let_def case_prod_beta)
    (simp_all add: clearLocked_def command_def)

lemma engine_Stop_off [simp]: "\<not> rt_moduleRun (snd (engine_Stop out r))"
  by (simp add: engine_Stop_def onProcessState_def setLifecycle_def Let_def)

lemma settle_state: "rt_moduleRun (snd (settle errs r)) = rt_moduleRun r" "fst (settle errs r) = None \<Longrightarrow> rt_lifecycle (snd (settle errs r)) = ''idle''"
  by (simp_all add: settle_def setLifecycle_def setMode_def Let_def)

lemma core_Close_done:
  assumes "core_Close out now e s = (None, s')"
  shows "\<not> r_running s' \<and> no_session (r_net s') \<and> (r_running s \<longrightarrow> rt_manager (r_net s') = None) \<and> \<not> rt_moduleRun (r_net s')
    \<and> rt_lifecycle (r_net s') = ''idle''"
proof -
  define r where "r = snd (Leave out (setLifecycle ''stopping'' (r_net s)))"
  define s1 where "s1 = snd (room_Stop (runtime_callbacks out now) e (s\<lparr>r_net := r\<rparr>))"
  define r1 where "r1 = snd (engine_Stop out (snd (in_files (ClearInternal (rt_configPath (r_net s1))) (r_net s1))))"
  obtain errs where c: "core_Close out now e s = (fst (settle errs r1), s1\<lparr>r_net := snd (settle errs r1)\<rparr>)"
    by (simp add: core_Close_def Let_def case_prod_beta r_def s1_def r1_def)
  have n: "no_session r" unfolding r_def by (rule Leave_session)
  have s1: "no_session (r_net s1)" "r_running s \<longrightarrow> rt_manager (r_net s1) = None"
    using n net_stop_same [of r out] by (auto simp: s1_def Stop_state no_session_def same_session_def)
  have s: "same_session (r_net s1) (snd (settle errs r1))" by (simp add: r1_def)
  have e: "fst (settle errs r1) = None" "r_net s' = snd (settle errs r1)" "r_running s' = r_running s1" using assms by (auto simp: c)
  have "\<not> r_running s1" by (simp add: s1_def Stop_state)
  moreover have "rt_manager (r_net s') = rt_manager (r_net s1)" using s e by (simp add: same_session_def)
  moreover have "\<not> rt_moduleRun (r_net s')" "rt_lifecycle (r_net s') = ''idle''"
    unfolding e(2) using e(1) by (simp_all add: settle_state) (simp add: r1_def)
  ultimately show ?thesis using s1 no_session_same [OF s s1(1)] e by simp
qed

section \<open>Reading a request\<close>

definition enc_request :: "request \<Rightarrow> json" where
  "enc_request rq = JObj ([(''id'', enc_word (rq_ID rq)), (''method'', JStr (rq_Method rq))]
     @ (case rq_Params rq of None \<Rightarrow> [] | Some v \<Rightarrow> [(''params'', v)]))"

lemma first_value_print:
  assumes "json_ok v" "is_ws w"
  shows "first_value (json_print ind d v @ w) = Some (v, True)"
proof -
  have e: "num_end w" using assms(2)
    by (cases w) (auto simp: num_end_def is_ws_def json_ws_def is_digit_def digit_value_def)
  have s: "skip_ws w = []" using skip_ws_append [OF assms(2), of "[]"] by (simp add: skip_ws_def)
  have "parse_value (2 * length (json_print ind d v @ w) + 2) ([] @ json_print ind d v @ w) = Some (v, w)"
    by (rule parsesD [OF json_parses assms(1) e]) simp_all
  with s show ?thesis by (simp add: first_value_def)
qed

text \<open>A request that a client prints is read as it is.\<close>

lemma request_names:
  "names_field ''id'' ''id''" "\<not> names_field ''id'' ''method''" "\<not> names_field ''id'' ''params''"
  "names_field ''method'' ''method''" "\<not> names_field ''method'' ''id''" "\<not> names_field ''method'' ''params''"
  "names_field ''params'' ''params''" "\<not> names_field ''params'' ''id''" "\<not> names_field ''params'' ''method''"
  by code_simp+

lemma decode_request_print:
  assumes "rq_ID rq \<noteq> 0" "rq_Method rq \<noteq> []" "utf8_valid (rq_Method rq)" "case rq_Params rq of None \<Rightarrow> True | Some v \<Rightarrow> json_ok v"
  shows "decode_request (json_print ind 0 (enc_request rq)) = (rq_ID rq, Some rq)"
proof -
  define ms where "ms = [(''id'', enc_word (rq_ID rq)), (''method'', JStr (rq_Method rq))]
     @ (case rq_Params rq of None \<Rightarrow> [] | Some v \<Rightarrow> [(''params'', v)])"
  have u: "utf8_valid ''id''" "utf8_valid ''method''" "utf8_valid ''params''" by (simp_all add: utf8_ascii ascii_def)
  have e: "enc_request rq = JObj ms" by (simp only: enc_request_def ms_def)
  have "json_ok (JObj ms)" using assms(3,4) u by (simp add: ms_def split: option.splits)
  from first_value_print [OF this is_ws_Nil, of ind 0]
  have v: "first_value (json_print ind 0 (enc_request rq)) = Some (JObj ms, True)" unfolding append_Nil2 e .
  have "known_fields request_fields ms"
    by (simp add: ms_def known_fields_def request_fields_def request_names split: option.split)
  moreover have "dec_field ''id'' dec_word 0 ms = Some (rq_ID rq)"
    by (simp add: ms_def dec_field_def request_names split: option.split)
  moreover have "dec_field ''method'' dec_str [] ms = Some (rq_Method rq)"
    by (simp add: ms_def dec_field_def dec_str_def request_names split: option.split)
  moreover have "raw_field ''params'' ms = rq_Params rq"
    by (simp add: ms_def raw_field_def request_names split: option.split)
  moreover have "partial_id ms = rq_ID rq"
    by (simp add: ms_def partial_id_def request_names split: option.split)
  ultimately show ?thesis using assms(1,2) unfolding decode_request_def v by (simp add: dec_request_def)
qed

end
