(* ===== verification/Spec2Isabelle.thy ===== *)
theory Spec2Isabelle
  imports Core_Join Room_Pairing Room_Restart Discovery_Relay Wg_Config Api_Laws
begin

text \<open>
  A verification development for opl-core, the Go core of a peer-to-peer virtual LAN.

  \<^bold>\<open>The program.\<close> A host opens a room and gives its members a network 10.0.23.0/24 over WireGuard. An
  OpenP2P engine carries two TCP and UDP forwardings of the session through NATs, beside the
  forwardings of the user. A client has an invite code with the UID of the host, the pairing port and
  a room key of 12 bytes; it pairs over TCP with a challenge and MACs under the room key (or under the
  key it got when it paired before), gets a lease and derives the preshared key, and keeps the
  connection for statistics and device snapshots. The host relays the broadcast packets of games
  between its members. A web page or a program drives all this by JSON messages over stdio or a
  WebSocket.

  \<^bold>\<open>What is where.\<close> Paths are under src/; definitions have the names of the functions they model,
  with a word added where HOL has the name or two files use it.

  \<^item> \<open>Opl_Prelude\<close>: bytes, Go strings, error values with \<open>errors.Is\<close> and wrapping, big-endian integers,
    sub-slices, finite maps; the locales \<open>codec\<close> and \<open>canonical_codec\<close> for formats, interpreted by the
    invite code, every pairing message and the discovery frame.
  \<^item> \<open>Go_Text\<close>, \<open>Netip\<close>, \<open>Go_Encoding\<close>, \<open>Go_Crypto\<close>, \<open>Go_Json\<close>, \<open>Go_Json_Laws\<close>: the parts of the Go
    library the program computes with: UTF-8, \<open>strconv\<close>, \<open>net/netip\<close>, base64, hex, CRC-32, SHA-256, HMAC,
    HKDF, \<open>encoding/json\<close>. X25519 of \<open>internal/device/key.go\<close> is in \<open>Secret_Store\<close>.
  \<^item> \<open>Invite\<close>: internal/invite/invite.go. \<open>Lease\<close>: internal/lease/lease.go, with the locale
    \<open>member_store\<close> (what the room relies on of an allocator).
  \<^item> \<open>Pairing_Wire\<close>, \<open>Pairing_Codec\<close>, \<open>Pairing_Stream\<close>: the messages and frames of internal/pairing/
    pairing.go and network.go and their laws. \<open>Pairing_Server\<close>: the server, its limiter, slots and
    device table. \<open>Pairing_Session\<close>: the client and what client and server do together.
  \<^item> \<open>Disk\<close>: the file system and \<open>writeAtomic\<close>; locale \<open>temp_fill\<close> for the two ways of filling a temporary
    file before it is renamed. \<open>Room_State\<close>: internal/state/state.go. \<open>Secret_Store\<close>:
    internal/secret/store.go and internal/device/key.go.
  \<^item> \<open>Room_Service\<close>, \<open>Room_Ops\<close>, \<open>Room_Laws\<close>, \<open>Room_Pairing\<close>, \<open>Room_Restart\<close>: internal/room/room.go; the
    state of the service is the record \<open>room\<close>, its callbacks and commands are functions on it, and
    \<open>room_step\<close> is any of them with any outcome.
  \<^item> \<open>Discovery_Frame\<close>, \<open>Discovery_Relay\<close>, \<open>Discovery_Tun\<close>: internal/discovery. \<open>Wg_Config\<close>:
    internal/wg/config.go and manager.go.
  \<^item> \<open>Openp2p_Config\<close>, \<open>Openp2p_Laws\<close>: internal/openp2p/config.go, with the locale \<open>parted_store\<close>.
    \<open>Ip_Tree\<close>: the whitelist of a forwarding, internal/openp2pengine/iptree.go.
  \<^item> \<open>Core_Runtime\<close>, \<open>Core_Session\<close>, \<open>Core_Laws\<close>, \<open>Core_Join\<close>: internal/core/runtime.go. A method that
    takes the mutex several times is cut at its critical sections; \<open>runtime_step\<close> interleaves the
    sections of calls in progress.
  \<^item> \<open>Management\<close>: internal/management/settings.go and the checks of internal/webapi/server.go.
    \<open>Api\<close>, \<open>Api_Laws\<close>: internal/api/api.go and the services and start of cmd/opl-core/main.go; the locale
    \<open>network_kept\<close> is what a room asks of its network callbacks, \<open>program_kept\<close> what the API asks of its
    services.

  \<^bold>\<open>What is shown.\<close> The properties stand in this theory, each after the text that states it; the
  other theories hold the lemmas. Formats are canonical codecs: what is encoded is read back, and only
  encodings are read. The allocator, the room, the pairing server, the runtime and the whole program
  have invariants that every step keeps, on every outcome of the disk, the network and the random
  source. Each operation of the room and of the store is followed through its error exits. The disk
  properties hold for every failure the script of outcomes can express. Properties of several parts
  follow a client from the invite to the configured tunnel, a room through a restart, and a broadcast
  packet from one member to another. Where the code does not do what it means to, the property says
  exactly when.

  \<^bold>\<open>Choices of the model.\<close>
  \<^item> What the system does is an argument: a disk carries a script with the outcome of each call (success,
    failure before, failure after a partial effect), random bytes, free ports and the clock are
    parameters, and so are WireGuard, the TUN device, \<open>net.Interfaces\<close> and the AVL tree of the gods
    library, with their documented laws as hypotheses where a property needs them.
  \<^item> A function that holds its mutex throughout is one step. \<open>Stop\<close> and the error exits of \<open>Create\<close> and
    \<open>Start\<close> of the room close the pairing server in the step that ends it. One API request is one step,
    except \<open>room.join\<close>, whose critical sections interleave with all others.
  \<^item> Errors are values that remember what they wrap, so that \<open>errors.Is\<close> and the error codes of the API
    can be computed; the wording of a message is left out.
  \<^item> Integers have the width of the source where it can matter (ports, octets, revisions, sequence
    numbers, checksums); lengths and times are \<open>nat\<close> and \<open>int\<close>. Token counts are exact rationals where
    the source has \<open>float64\<close>.
  \<^item> A JSON object with a member twice keeps the last, as \<open>encoding/json\<close> does. A member of another program
    in the settings file is kept up to the spelling of its strings and numbers.

  \<^bold>\<open>Bounds and fuel.\<close> The JSON parser takes fuel \<open>2 n + 2\<close> for a text of \<open>n\<close> characters; each level of the
  recursion consumes a character or moves from a value to its contents, so it is never used up, and
  \<open>Go_Json_Laws\<close> proves that printed documents parse with it. The retries of \<open>Join\<close> are a list of
  outcomes, one for each turn; the loop ends with the list or before. \<open>add_loop\<close> of the whitelist is a
  \<open>partial_function\<close>, and \<open>add_range_ends\<close> proves that it returns. All other recursion is structural or
  has a measure.

  \<^bold>\<open>Not modelled.\<close> The OpenP2P engine but for its switch, its state reports and the whitelist: it is
  derived from a third-party program (internal/openp2pengine/NOTICE.md) and consists of goroutines over
  sockets and timers against a rendezvous server that is not in the repository. Platform commands
  for interfaces, Windows DPAPI, the check of wintun.dll, the tray, processes and signals, serving of
  files: calls of the operating system. The web page under web/ is another language.
\<close>
section \<open>The members of a room\<close>



text \<open>
  C27: On a consistent allocator \<open>Assign\<close> implements the specification stated on the leases alone: the
  zero key is rejected, a known key only takes the new name, an unknown one gets the least address no
  lease has under the next revision, and is rejected when there is none.
\<close>

theorem assign_refines:
  assumes "alloc_inv a"
  shows "(fst (Assign k n a), fmlookup (byKey (snd (Assign k n a)))) =
    assign_spec k n (revision a) (fmlookup (byKey a))"
  using assms by (rule Assign_refines)

theorem assign_refines_witness:
  "(fst (Assign 5 ''Ann'' allocator_empty), fmlookup (byKey (snd (Assign 5 ''Ann'' allocator_empty)))) =
    assign_spec 5 ''Ann'' (revision allocator_empty) (fmlookup (byKey allocator_empty))"
  by (rule assign_refines) (rule alloc_inv_empty)

text \<open>
  C38: The pool holds 253 members: an assignment fails for want of an address exactly when the key is
  new and 253 members have one.
\<close>

theorem pool_full:
  assumes "alloc_inv a"
  shows "fst (Assign k n a) = Inl (ErrTag LeaseErrFull) \<longleftrightarrow>
    k \<noteq> 0 \<and> fmlookup (byKey a) k = None \<and> fcard (fmdom (byKey a)) = 253"
proof -
  have "fst (Assign k n a) = fst (assign_spec k n (revision a) (fmlookup (byKey a)))"
    using Assign_refines [OF assms, of k n] by (metis fst_conv)
  with free_octets_full [OF assms] show ?thesis by (simp add: assign_spec_def Let_def split: option.split)
qed

theorem pool_full_witness:
  "fst (Assign 5 ''Ann'' allocator_empty) = Inl (ErrTag LeaseErrFull) \<longleftrightarrow>
    (5 :: arr32) \<noteq> 0 \<and> fmlookup (byKey allocator_empty) 5 = None \<and> fcard (fmdom (byKey allocator_empty)) = 253"
  by (rule pool_full) (rule alloc_inv_empty)

text \<open>
  Assignments and removals can be undone: removing a lease and restoring it, or assigning a key and
  restoring its former lease (removing it if it had none), leaves every member with the lease it had.
\<close>

theorem lease_undo:
  assumes "alloc_inv a" and "\<And>e. fmlookup (byKey a) k = Some e \<Longrightarrow> lease_Revision e \<noteq> 0"
  shows "(fmlookup (byKey a) k = Some e \<longrightarrow> Restore e (snd (Remove k a)) = (None, a))
    \<and> (fst (Assign k n a) = Inr (l, c) \<longrightarrow>
      fmlookup (byKey (case fmlookup (byKey a) k of
          None \<Rightarrow> snd (Remove k (snd (Assign k n a)))
        | Some e \<Rightarrow> snd (Restore e (snd (Assign k n a))))) = fmlookup (byKey a))"
  using Restore_Remove [OF assms(1)] leases.undo_assign [of a k n l c "snd (Assign k n a)"] assms
  by (auto simp: lookup_lease_def fun_eq_iff leases.undo_def prod_eq_iff split: option.splits)

definition example_allocator :: allocator where
  "example_allocator = snd (Assign 5 ''Ann'' allocator_empty)"

lemma example_allocator_lease:
  "fmlookup (byKey example_allocator) k =
     (if k = 5 then Some \<lparr>lease_key = 5, lease_IP = net_ip 2, lease_Name = ''Ann'', lease_Enabled = True, lease_Revision = 1\<rparr>
      else None)"
  by (simp add: example_allocator_def Assign_def Let_def freeOctet_def allocator_empty_def upt_rec)

lemma example_allocator_inv: "alloc_inv example_allocator"
  unfolding example_allocator_def by (rule Assign_inv [OF alloc_inv_empty]) (simp add: allocator_empty_def)

theorem lease_undo_witness:
  "\<exists>e. fmlookup (byKey example_allocator) 5 = Some e \<and> Restore e (snd (Remove 5 example_allocator)) = (None, example_allocator)"
proof -
  obtain e where e: "fmlookup (byKey example_allocator) 5 = Some e" by (simp add: example_allocator_lease)
  have "lease_Revision e' \<noteq> 0" if "fmlookup (byKey example_allocator) 5 = Some e'" for e'
    using that by (auto simp: example_allocator_lease)
  from lease_undo [OF example_allocator_inv this] e show ?thesis by blast
qed

text \<open>
  After a restart the members have the leases they had: \<open>New\<close> on the snapshot of a consistent
  allocator gives the same leases and the same table, and a counter that is not ahead.
\<close>

theorem restart_leases:
  assumes "alloc_inv a"
  shows "\<exists>a'. New (Snapshot a) = Inr a' \<and> byKey a' = byKey a \<and> used a' = used a \<and> revision a' \<le> revision a"
  using assms by (rule New_Snapshot)

theorem restart_leases_witness:
  "\<exists>a'. New (Snapshot (snd (Assign 5 ''Ann'' allocator_empty))) = Inr a'
     \<and> byKey a' = byKey (snd (Assign 5 ''Ann'' allocator_empty))
     \<and> used a' = used (snd (Assign 5 ''Ann'' allocator_empty))
     \<and> revision a' \<le> revision (snd (Assign 5 ''Ann'' allocator_empty))"
  by (rule restart_leases) (rule Assign_inv [OF alloc_inv_empty], simp add: allocator_empty_def)

section \<open>Invites\<close>

text \<open>
  C28: Every invite with a valid host UID, a pairing port and a room key can be encoded, and its code
  decodes to exactly that invite.
\<close>

theorem invite_roundtrip:
  assumes "invite_ok v"
  shows "bind_result (Encode v) Decode = Inr v"
  using assms by (rule invite_codec.roundtrip)

theorem invite_roundtrip_witness:
  "bind_result (Encode \<lparr>FixedRoomKey = True, HostUID = ''0123456789abcdef'', PairPort = 1, RoomKey = 5\<rparr>) Decode
     = Inr \<lparr>FixedRoomKey = True, HostUID = ''0123456789abcdef'', PairPort = 1, RoomKey = 5\<rparr>"
  by (rule invite_roundtrip) code_simp

text \<open>
  Decoding accepts only what encoding writes: a code that decodes to an invite is, up to line
  breaks inside it, the code of that invite, and the invite is one that can be encoded.
\<close>

theorem invite_canonical:
  assumes "Decode code = Inr v"
  shows "Encode v = Inr (skip_newlines code) \<and> invite_ok v"
  using assms Encode_Decode Decode_ok by blast

definition example_invite :: invite where
  "example_invite = \<lparr>FixedRoomKey = False, HostUID = ''0123456789abcdef'', PairPort = 25673, RoomKey = 1\<rparr>"

theorem invite_canonical_witness:
  "Encode example_invite = Inr (skip_newlines (projr (Encode example_invite))) \<and> invite_ok example_invite"
proof (rule invite_canonical)
  have ok: "invite_ok example_invite" by code_simp
  then obtain code where "Encode example_invite = Inr code" by (auto simp: Encode_ok)
  then show "Decode (projr (Encode example_invite)) = Inr example_invite"
    using invite_codec.roundtrip [OF ok] by simp
qed

section \<open>The pairing protocol\<close>

text \<open>
  A request parses exactly when it is the encoding of a well-formed request, and then to that one.
\<close>

theorem request_canonical: "ParseClientRequest b = Inr r \<longleftrightarrow> request_ok r \<and> marshalRequest r = Inr b"
  by (rule request_codec.dec_iff)

text \<open>A result parses exactly when it is the encoding of a well-formed result, and then to that one.\<close>

theorem result_canonical: "ParsePairResult b = Inr v \<longleftrightarrow> result_ok v \<and> marshalResult v = Inr b"
  by (rule result_codec.dec_iff)

text \<open>
  C29: A device snapshot parses exactly when it is the encoding of at most 253 valid devices, and then
  to those.
\<close>

theorem devices_canonical: "parseDevices b = Inr ds \<longleftrightarrow> devices_ok ds \<and> marshalDevices ds = b"
  using devices_codec.dec_iff by simp

text \<open>
  C31: The request MAC covers the whole handshake: two well-formed requests for which the same message
  is authenticated answer the same challenge and agree in every field but the MAC.
\<close>

theorem request_message_injective:
  assumes "request_ok r" and "request_ok r'" and "requestMessage c r = requestMessage c' r'"
  shows "c = c' \<and> r\<lparr>cr_MAC := 0\<rparr> = r'\<lparr>cr_MAC := 0\<rparr>"
  using assms by (rule requestMessage_inj)

definition example_challenge :: ServerChallenge where
  "example_challenge = \<lparr>sc_Version = 2, sc_ServerNonce = 77, sc_HostPublicKey = 9\<rparr>"

definition example_request :: ClientRequest where
  "example_request = \<lparr>cr_ClientNonce = 3, cr_ClientPublicKey = 5, cr_UID = ''0123456789abcdef'', cr_Name = ''Ann'', cr_MAC = 0\<rparr>"

lemma example_request_ok [simp]: "request_ok (example_request\<lparr>cr_MAC := m\<rparr>)"
  by (simp add: request_ok_def example_request_def validUID_visible validName_visible visible_def)

theorem request_message_injective_witness:
  "example_request\<lparr>cr_MAC := 1\<rparr>\<lparr>cr_MAC := 0\<rparr> = example_request\<lparr>cr_MAC := 2\<rparr>\<lparr>cr_MAC := 0\<rparr>"
  by (rule conjunct2 [OF request_message_injective [of _ _ example_challenge example_challenge]])
    (simp_all add: requestMessage_def)

text \<open>
  Frames: what \<open>ReadFrame\<close> returns is a frame of a valid type and size, and it has consumed exactly
  the bytes \<open>WriteFrame\<close> writes for it; a frame that stands at the front of the stream is always read.
\<close>

theorem read_frame:
  "ReadFrame r = (Inr (t, payload), r') \<longleftrightarrow>
     frame_ok t payload \<and> r_data r = frame_bytes t payload @ r_data r' \<and> r_end r' = r_end r"
proof
  assume a: "frame_ok t payload \<and> r_data r = frame_bytes t payload @ r_data r' \<and> r_end r' = r_end r"
  then show "ReadFrame r = (Inr (t, payload), r')"
    using ReadFrame_frame [of t payload "r_data r'" "r_end r'"] by (cases r; cases r') simp
qed (rule ReadFrame_form)

text \<open>
  \<open>WriteFrame\<close> writes the frame or a proper beginning of it: whatever the connection does, the
  bytes it has taken are a prefix of the frame, the whole frame when no error is returned; an invalid
  type or size is rejected with nothing written.
\<close>

theorem write_frame:
  assumes "WriteFrame w t payload = (err, w')"
  shows "\<exists>k. w_out w' = w_out w @ take k (frame_bytes t payload)
    \<and> (err = None \<longrightarrow> frame_ok t payload \<and> length (frame_bytes t payload) \<le> k)
    \<and> (\<not> frame_ok t payload \<longrightarrow> err = Some errProtocol \<and> w' = w)"
  using WriteFrame_prefix [OF assms] WriteFrame_rejects [of t payload w] assms by (cases "frame_ok t payload") auto

theorem write_frame_witness:
  "\<exists>k. w_out (snd (WriteFrame \<lparr>w_out = [], w_script = [(3, None)]\<rparr> FramePairAck [7])) = take k (frame_bytes FramePairAck [7])
    \<and> (fst (WriteFrame \<lparr>w_out = [], w_script = [(3, None)]\<rparr> FramePairAck [7]) = None \<longrightarrow>
        length (frame_bytes FramePairAck [7]) \<le> k)"
  using write_frame [of "\<lparr>w_out = [], w_script = [(3, None)]\<rparr>" FramePairAck "[7]", OF surjective_pairing] by auto

text \<open>
  The acknowledgement is accepted exactly when the client's frame holds the MAC of the assigned
  revision under the key that authenticated the request; then the room is told so, in every other
  case it is told that the pairing has failed.
\<close>

theorem acknowledgement:
  "pair_ack cfg request authKey assignment input w =
     (if validAuthKey authKey \<and> input = Inr (FramePairAck, be_bytes (pairAck authKey (as_Revision assignment)))
      then (True, case sv_PairingAcknowledged cfg of None \<Rightarrow> w | Some f \<Rightarrow> f (cr_ClientPublicKey request) assignment w)
      else (False, failed cfg (cr_ClientPublicKey request) assignment w))"
  using pair_ack_ok [of cfg request authKey assignment input w] pair_ack_world [of cfg request authKey assignment input w]
  by (metis prod.collapse)

text \<open>
  C4: No address without authentication and permission: when the handler grants, the request parsed
  and its MAC is valid under the room key or under the key the room has for this member; its UID is
  not blocked; the room is open or knows the member; and the assignment is the room's own.
\<close>

theorem grant_is_authorised:
  assumes "pair_request cfg challenge roomKey input w = (Grant request authKey assignment resultBytes, w')"
  shows "(\<exists>payload. input = Inr (FrameClientRequest, payload) \<and> ParseClientRequest payload = Inr request)
    \<and> verifyClientRequest challenge request authKey
    \<and> (\<forall>blocked. sv_BlockedUID cfg = Some blocked \<longrightarrow> cr_UID request \<noteq> [] \<longrightarrow> \<not> blocked w (cr_UID request))
    \<and> (sv_JoinEnabled cfg w \<or> (\<exists>known. sv_KnownMember cfg = Some known \<and> known w (cr_ClientPublicKey request)))
    \<and> (\<exists>existing. sv_Assign cfg (cr_ClientPublicKey request) (cr_Name request) roomKey existing w = (Inr assignment, w')
        \<and> (if existing then \<exists>f mk. sv_MemberAuthKey cfg = Some f \<and> f w (cr_ClientPublicKey request) = Some mk
              \<and> authKey = be_bytes mk
           else authKey = be_bytes roomKey))"
  using assms
proof (rule pair_request_Grant)
  fix payload existing result
  assume g: "input = Inr (FrameClientRequest, payload)" "ParseClientRequest payload = Inr request"
    "authenticate cfg challenge roomKey w request = (authKey, existing)" "verifyClientRequest challenge request authKey"
    "\<And>blocked. cr_UID request \<noteq> [] \<Longrightarrow> sv_BlockedUID cfg = Some blocked \<Longrightarrow> \<not> blocked w (cr_UID request)"
    "sv_JoinEnabled cfg w \<or> (\<exists>known. sv_KnownMember cfg = Some known \<and> known w (cr_ClientPublicKey request))"
    "sv_Assign cfg (cr_ClientPublicKey request) (cr_Name request) roomKey existing w = (Inr assignment, w')"
  show ?thesis using g(1,2,4,5,6,7) authenticate_key [OF g(3)] by (cases existing) (simp_all, blast+)
qed

text \<open>
  C3: A client and a server that share the room key agree: when the room is open to the client and
  assigns it an address, the client's session ends with a result that carries the assigned address
  and revision and the host's key and ports, and the acknowledgement it sends is accepted.
\<close>

theorem handshake_agreement:
  assumes "challenge_ok challenge"
    and "newClientRequest challenge key uid name (be_bytes roomKey) (Inr nonce) = Inr request"
    and "uid = [] \<or> \<not> (case sv_BlockedUID cfg of None \<Rightarrow> False | Some blocked \<Rightarrow> blocked w uid)"
    and "sv_JoinEnabled cfg w"
    and "sv_Assign cfg key name roomKey False w = (Inr assignment, w')" and "Is4 (as_IP assignment)"
    and "sv_WireGuardPort cfg \<noteq> 0" and "sv_DiscoveryRelayPort cfg \<noteq> 0"
  shows "\<exists>result ack resultBytes.
      pairWithSession (connected cfg challenge roomKey w nonce) (be_bytes roomKey) key uid name =
        ([(FrameClientRequest, request_bytes request), (FramePairAck, ack)], Inr result)
      \<and> pair_request cfg challenge roomKey (Inr (FrameClientRequest, request_bytes request)) w =
        (Grant request (be_bytes roomKey) assignment resultBytes, w')
      \<and> fst (pair_ack cfg request (be_bytes roomKey) assignment (Inr (FramePairAck, ack)) w2)
      \<and> pr_AssignedIP result = as_IP assignment \<and> pr_LeaseRevision result = as_Revision assignment
      \<and> pr_PrefixLength result = 24 \<and> pr_HostPublicKey result = sc_HostPublicKey challenge
      \<and> pr_WireGuardPort result = sv_WireGuardPort cfg \<and> pr_DiscoveryRelayPort result = sv_DiscoveryRelayPort cfg"
  using assms by (rule handshake_agrees)

text \<open>A server whose room assigns 10.0.23.2 to everybody, and a client's request signed for it.\<close>

definition example_assignment :: Assignment where
  "example_assignment = \<lparr>as_IP = net_ip 2, as_Revision = 1, as_Created = True, as_Token = 1\<rparr>"

definition example_cfg :: "bool ServerConfig" where
  "example_cfg = \<lparr>sv_HostPublicKey = 9, sv_WireGuardPort = 25674, sv_DiscoveryRelayPort = 25675,
     sv_JoinEnabled = (\<lambda>w. w), sv_BlockedUID = Some (\<lambda>w uid. False), sv_KnownMember = None, sv_MemberAuthKey = None,
     sv_Assign = (\<lambda>key name roomKey existing w. (Inr example_assignment, w)), sv_PairingFailed = None,
     sv_PairingAcknowledged = None, sv_ReportStats = None,
     sv_HostDevice = \<lparr>dv_LatencyMS = 0, dv_UID = ''0123456789abcdef'', dv_VirtualIP = ''10.0.23.1'', dv_RxBytes = 0, dv_TxBytes = 0\<rparr>\<rparr>"

definition signed_request :: "bytes \<Rightarrow> ClientRequest" where
  "signed_request key = example_request\<lparr>cr_MAC := requestMAC example_challenge example_request key\<rparr>"

lemma example_signed:
  "validAuthKey key \<Longrightarrow>
     newClientRequest example_challenge 5 ''0123456789abcdef'' ''Ann'' key (Inr 3) = Inr (signed_request key)"
  by (simp add: newClientRequest_def signed_request_def example_request_def example_challenge_def ProtocolVersion_def
      validUID_visible validName_visible visible_def)

lemma example_challenge_ok: "challenge_ok example_challenge"
  by (simp add: challenge_ok_def example_challenge_def ProtocolVersion_def)

lemma example_key: "validAuthKey (be_bytes (1 :: arr12))" "validAuthKey (be_bytes (2 :: arr12))"
  by (simp_all add: validAuthKey_def)

theorem handshake_agreement_witness:
  "\<exists>result ack. snd (pairWithSession (connected example_cfg example_challenge 1 True 3) (be_bytes (1 :: arr12)) 5
      ''0123456789abcdef'' ''Ann'') = Inr result \<and> pr_AssignedIP result = net_ip 2
    \<and> fst (pair_ack example_cfg (signed_request (be_bytes (1 :: arr12))) (be_bytes (1 :: arr12)) example_assignment
        (Inr (FramePairAck, ack)) False)"
proof -
  have "sv_Assign example_cfg 5 ''Ann'' 1 False True = (Inr example_assignment, True)"
    "''0123456789abcdef'' = [] \<or> \<not> (case sv_BlockedUID example_cfg of None \<Rightarrow> False | Some blocked \<Rightarrow> blocked True ''0123456789abcdef'')"
    "sv_JoinEnabled example_cfg True" "Is4 (as_IP example_assignment)" "sv_WireGuardPort example_cfg \<noteq> 0"
    "sv_DiscoveryRelayPort example_cfg \<noteq> 0" "as_IP example_assignment = net_ip 2"
    by (simp_all add: example_cfg_def example_assignment_def)
  note c = this
  from handshake_agreement [OF example_challenge_ok example_signed [OF example_key(1)] c(2,3,1,4,5,6), of False] c(7)
  show ?thesis by auto
qed

theorem grant_is_authorised_witness:
  "\<exists>authKey. verifyClientRequest example_challenge (signed_request (be_bytes (1 :: arr12))) authKey \<and> sv_JoinEnabled example_cfg True"
proof -
  have "sv_Assign example_cfg 5 ''Ann'' 1 False True = (Inr example_assignment, True)"
    "''0123456789abcdef'' = [] \<or> \<not> (case sv_BlockedUID example_cfg of None \<Rightarrow> False | Some blocked \<Rightarrow> blocked True ''0123456789abcdef'')"
    "sv_JoinEnabled example_cfg True" "Is4 (as_IP example_assignment)" "sv_WireGuardPort example_cfg \<noteq> 0"
    "sv_DiscoveryRelayPort example_cfg \<noteq> 0"
    by (simp_all add: example_cfg_def example_assignment_def)
  note c = this
  from server_grants [OF example_signed [OF example_key(1)] c(2,3,1,4,5,6)] obtain result where
    "pair_request example_cfg example_challenge 1
        (Inr (FrameClientRequest, request_bytes (signed_request (be_bytes (1 :: arr12))))) True =
      (Grant (signed_request (be_bytes (1 :: arr12))) (be_bytes (1 :: arr12)) example_assignment (result_bytes result), True)"
    by blast
  from grant_is_authorised [OF this] c(3) show ?thesis by blast
qed

text \<open>
  A refusal reaches the client: whatever key the client used, when the server refuses its request
  the session ends with the error of the server's status, and no acknowledgement is sent.
\<close>

theorem refusal_is_reported:
  assumes "challenge_ok challenge"
    and "newClientRequest challenge key uid name authKey (Inr nonce) = Inr request"
    and "fst (pair_request cfg challenge roomKey (Inr (FrameClientRequest, request_bytes request)) w) = Refuse status"
  shows "pairWithSession (connected cfg challenge roomKey w nonce) authKey key uid name =
    ([(FrameClientRequest, request_bytes request)], Inl (statusError status))"
  using assms by (rule refusal_reaches_client)

theorem refusal_is_reported_witness:
  "pairWithSession (connected example_cfg example_challenge 1 False 3) (be_bytes (1 :: arr12)) 5 ''0123456789abcdef'' ''Ann'' =
    ([(FrameClientRequest, request_bytes (signed_request (be_bytes (1 :: arr12))))], Inl (statusError StatusJoinPaused))"
proof (rule refusal_is_reported [OF example_challenge_ok example_signed [OF example_key(1)]])
  let ?r = "signed_request (be_bytes (1 :: arr12))"
  note v = newClientRequest_verifies [OF example_signed [OF example_key(1)]]
  show "fst (pair_request example_cfg example_challenge 1 (Inr (FrameClientRequest, request_bytes ?r)) False)
      = Refuse StatusJoinPaused"
    using ParseClientRequest_bytes [OF newClientRequest_ok [OF example_signed [OF example_key(1)]]] v
      verify_in_authenticate [OF v, of example_cfg False]
    unfolding pair_request_def by (simp add: example_cfg_def)
qed

text \<open>
  C21: Whatever connections do, from the start of the server on at most 16 of them are pairing at a
  time and the slots count exactly these; every entry of the device table belongs to a member whose
  connection is in the control loop.
\<close>

theorem server_slots:
  assumes "Listen cfg roomKey err local now w = Inr s" and "(server_step cfg)\<^sup>*\<^sup>* s t"
  shows "s_limit t = card (pairing_conns (s_connections t)) \<and> card (pairing_conns (s_connections t)) \<le> 16
    \<and> (\<forall>k d. fmlookup (s_devices t) k = Some d \<longrightarrow>
         (\<exists>c ip. fmlookup (s_deviceOwners t) k = Some c \<and> fmlookup (s_connections t) c = Some (Controlling k ip)))"
proof -
  have inv: "server_inv t" using reachable_server_inv [OF assms(2) Listen_inv [OF assms(1)]] .
  have "\<exists>c ip. fmlookup (s_deviceOwners t) k = Some c \<and> fmlookup (s_connections t) c = Some (Controlling k ip)"
    if "fmlookup (s_devices t) k = Some d" for k d
  proof -
    have "k |\<in>| fmdom (s_deviceOwners t)" using inv fmdomI [OF that] by (simp add: server_inv_def)
    then obtain c where "fmlookup (s_deviceOwners t) k = Some c" by (auto simp: fmlookup_dom_iff)
    with inv show ?thesis unfolding server_inv_def by blast
  qed
  with inv show ?thesis unfolding server_inv_def maxConcurrent_def by simp
qed

theorem server_slots_witness:
  "\<exists>s. Listen example_cfg 1 None True 0 True = Inr s \<and> s_limit (Close s) = card (pairing_conns (s_connections (Close s)))"
proof -
  obtain s where s: "Listen example_cfg 1 None True 0 True = Inr s" by (simp add: Listen_def example_cfg_def)
  have "(server_step example_cfg)\<^sup>*\<^sup>* s (Close s)" by (rule r_into_rtranclp) (rule CloseS)
  from server_slots [OF s this] s show ?thesis by blast
qed

text \<open>
  Of the connections that arrive in any time, at most ten and five more for each second that has
  passed get past the limiter.
\<close>

theorem connection_rate:
  assumes "sorted (start # ts)" and "allow_all ts \<lparr>rl_tokens = 10, rl_last = start\<rparr> = (n, r)"
  shows "of_nat n \<le> (10 :: rat) + 5 * of_int (last (start # ts) - start) / 10 ^ 9"
  using allow_all_bound [of "\<lparr>rl_tokens = 10, rl_last = start\<rparr>" ts n r] assms by (simp add: field_simps)

theorem connection_rate_witness:
  "of_nat (fst (allow_all (replicate 12 0 @ [1000000000]) \<lparr>rl_tokens = 10, rl_last = 0\<rparr>)) \<le> (15 :: rat)"
  using connection_rate [of 0 "replicate 12 0 @ [1000000000]", OF _ surjective_pairing] by (simp add: numeral_eq_Suc)

text \<open>
  C25: What the members see of a room: the device snapshot the server sends is read back by the clients
  as it was built, as long as there are at most 252 members in it; of a full room, with 253 members
  and the host, every client rejects it as a protocol error.
\<close>

theorem snapshot_readable:
  assumes "device_ok (sv_HostDevice cfg)" and "\<And>k d. fmlookup devices k = Some d \<Longrightarrow> device_ok d"
    and "fcard (fmdom devices) \<le> 253"
  shows "parseDevices (marshalDevices (snapshot_devices cfg devices)) =
    (if fcard (fmdom devices) \<le> 252 then Inr (snapshot_devices cfg devices) else Inl errProtocol)"
proof -
  let ?ds = "map (\<lambda>k. the (fmlookup devices k)) (sorted_list_of_fset (fmdom devices))"
  have host: "dv_VirtualIP (sv_HostDevice cfg) \<noteq> []"
  proof
    assume "dv_VirtualIP (sv_HostDevice cfg) = []"
    moreover have "ParseAddr [] = None" by (simp add: ParseAddr_def)
    ultimately show False using assms(1) by (simp add: device_ok_def)
  qed
  have "length ?ds = fcard (fmdom devices)" by (simp add: sorted_list_of_fset.rep_eq fcard.rep_eq)
  moreover have "\<forall>d\<in>set ?ds. device_ok d"
    using assms(2) by (auto simp: fmdomE elim!: fmdomE)
  ultimately have "length (snapshot_devices cfg devices) = Suc (fcard (fmdom devices))"
    "\<forall>d\<in>set (snapshot_devices cfg devices). device_ok d"
    using assms(1) host by (auto simp: snapshot_devices_def set_insort_key)
  with parseDevices_marshal [OF _ this(2)] assms(3) show ?thesis by (simp add: maxDevices_def)
qed

definition full_room :: "(arr32, Device) fmap" where
  "full_room = fmap_of_list (map (\<lambda>i. (of_nat i, sv_HostDevice example_cfg)) [0..<253])"

lemma example_device_ok: "device_ok (sv_HostDevice example_cfg)"
proof -
  have ip: "Is4 host_ip" by (simp add: host_ip_def)
  show ?thesis
    using ParseAddr_string [OF ip] ip unfolding host_ip_string
    by (simp add: device_ok_def example_cfg_def validUID_visible visible_def host_ip_string)
qed

lemma full_room_card: "fcard (fmdom full_room) = 253"
proof -
  have "inj_on (of_nat :: nat \<Rightarrow> arr32) {0..<253}"
  proof (rule inj_onI)
    fix x y :: nat
    assume "x \<in> {0..<253}" "y \<in> {0..<253}" "(of_nat x :: arr32) = of_nat y"
    then have "unat (of_nat x :: arr32) = unat (of_nat y :: arr32)" "x < 253" "y < 253" by simp_all
    then show "x = y" by (simp add: unat_of_nat)
  qed
  then have "card ((of_nat :: nat \<Rightarrow> arr32) ` {0..<253}) = 253" by (simp add: card_image)
  then show ?thesis by (simp add: full_room_def fcard.rep_eq fmdom_fmap_of_list fset_of_list.rep_eq image_image comp_def)
qed

theorem snapshot_readable_witness:
  "parseDevices (marshalDevices (snapshot_devices example_cfg full_room)) = Inl errProtocol"
proof -
  have "device_ok d" if "fmlookup full_room k = Some d" for k d
    using that example_device_ok by (auto simp: full_room_def fmlookup_of_list dest!: map_of_SomeD)
  from snapshot_readable [OF example_device_ok this] show ?thesis by (simp add: full_room_card)
qed


section \<open>What survives on disk\<close>





text \<open>
  C26: The key of a fixed host is stable: once it has been returned, every later start that finds the
  file unchanged returns the same pair of keys, whatever the random source gives.
\<close>

theorem host_key_stable:
  assumes "LoadOrCreate path True random d = (Inr kp, d')"
    and "fmlookup files path = fmlookup (d_files d') path"
  shows "LoadOrCreate path True random2 \<lparr>d_files = files, d_script = []\<rparr> = (Inr kp, \<lparr>d_files = files, d_script = []\<rparr>)"
  using LoadOrCreate_again [OF assms(1), of "\<lparr>d_files = files, d_script = []\<rparr>"] assms(2) by simp

theorem host_key_stable_witness:
  "\<exists>d'. LoadOrCreate ''host.secret'' True (Inr 6) \<lparr>d_files = fmempty, d_script = []\<rparr> = (Inr (fromECDH 6), d')
    \<and> LoadOrCreate ''host.secret'' True (Inl (ErrTag IoEOF)) d' = (Inr (fromECDH 6), d')"
proof -
  let ?d = "\<lparr>d_files = fmempty, d_script = []\<rparr>"
  obtain d' where s: "secret_Save ''host.secret'' (be_bytes (6 :: arr32)) ?d = (None, d')" "d_script d' = []"
    using secret_Save_ok [of ?d "be_bytes (6 :: arr32)"] length_be_bytes [of "6 :: arr32"] by fastforce
  obtain e where e: "secret_Load ''host.secret'' ?d = (Inl e, ?d)" "errors_is e OsErrNotExist"
    using secret_Load_missing [of ?d] by auto
  have c: "LoadOrCreate ''host.secret'' True (Inr 6) ?d = (Inr (fromECDH 6), d')"
    using s(1) e by (simp add: LoadOrCreate_def Generate_def fromECDH_def)
  from host_key_stable [OF c refl, of "Inl (ErrTag IoEOF)"] s(2)
  have "LoadOrCreate ''host.secret'' True (Inl (ErrTag IoEOF)) d' = (Inr (fromECDH 6), d')" by (cases d') simp
  with c show ?thesis by blast
qed

section \<open>Discovery\<close>

text \<open>
  C30: A datagram decodes to a discovery frame exactly when the frame is valid and the datagram is its
  encoding; so every frame is read back, and no two datagrams are the same frame.
\<close>

theorem frame_canonical: "DecodeFrame b = Inr v \<longleftrightarrow> frame_valid v \<and> EncodeFrame v = Inr b"
  using DecodeFrame_Encode DecodeFrame_form by blast




text \<open>
  C35: The limiter of the relay: of the datagrams that ask at non-decreasing times, no more packets and
  no more bytes get through than the bucket had plus what the rate adds in the time passed.
\<close>

theorem relay_limit:
  assumes "0 \<le> tb_packets b" and "0 \<le> tb_bytes b" and "sorted (tb_last b # map snd reqs)"
    and "take_all pr br reqs b = (n, m, b')"
  shows "of_nat n \<le> tb_packets b + of_int (last (tb_last b # map snd reqs) - tb_last b) / 10 ^ 9 * of_nat pr
    \<and> of_nat m \<le> tb_bytes b + of_int (last (tb_last b # map snd reqs) - tb_last b) / 10 ^ 9 * of_nat br"
  using assms by (rule take_all_bound)

theorem relay_limit_witness:
  "of_nat (fst (take_all 1 1000 [(600, 0), (10, 5), (300, 10 ^ 9)] \<lparr>tb_packets = 1, tb_bytes = 1000, tb_last = 0\<rparr>))
     \<le> (1 + of_int (10 ^ 9) / 10 ^ 9 * 1 :: rat)"
  using relay_limit [of "\<lparr>tb_packets = 1, tb_bytes = 1000, tb_last = 0\<rparr>" "[(600, 0), (10, 5), (300, 10 ^ 9)]" 1 1000]
  by (auto simp: prod_eq_iff)

text \<open>
  C18: A datagram the relay accepts from a member comes from a member of the room, under its own
  address and not as the host, was not seen before, is injected at the host and is sent, once and
  unchanged, to every other member and to nobody else.
\<close>

theorem relay_forwards:
  assumes "DecodeFrame datagram = Inr frame" and "relay_member cfg frame source now (r, w) = (None, r', w')"
  shows "fr_Flags frame = 0 \<and> fr_SenderIP frame = source \<and> source \<in> set (rl_members cfg w)
    \<and> fst (Accept source (fr_Sequence frame) now (rc_replay r)) = None
    \<and> (\<exists>w1. rl_inject cfg (fr_Packet frame) w = (None, w1)
        \<and> w' = send_all cfg datagram (targets source (rl_members cfg w1)) w1 \<and> rc_accepted r' = rc_accepted r + 1)"
  using relay_member_accepts [OF assms(2)] DecodeFrame_form [OF assms(1)] by auto

definition example_broadcast :: bytes where
  "example_broadcast = [0x45, 0, 0, 28, 0, 0, 0, 0, 64, 17, 0, 0, 10, 0, 23, 2, 255, 255, 255, 255, 0, 7, 0, 7, 0, 8, 0, 0]"

lemma example_packet: "validPacket (net_ip 2) example_broadcast"
  by (simp add: validPacket_def example_broadcast_def headerLength_def be16_def subslice_def validSender_def
      validDestination_def MaxPacketBytes_def Let_def As4_AddrFrom4 be_word_def)

definition example_frame :: Frame where
  "example_frame = \<lparr>fr_Flags = 0, fr_SenderIP = net_ip 2, fr_Sequence = 7, fr_Packet = example_broadcast\<rparr>"

lemma example_frame_valid: "frame_valid example_frame"
  using example_packet by (simp add: frame_valid_def example_frame_def)

text \<open>A room of two members, whose world is the list of the addresses datagrams went to.\<close>

definition example_relay :: "addr list relay_config" where
  "example_relay = \<lparr>rl_inject = (\<lambda>_ w. (None, w)), rl_members = (\<lambda>_. [net_ip 2, net_ip 3]), rl_send = (\<lambda>ip _ w. (None, w @ [ip]))\<rparr>"

theorem relay_forwards_witness:
  "\<exists>datagram r'. DecodeFrame datagram = Inr example_frame
     \<and> relay_member example_relay example_frame (net_ip 2) 5 (newRelayCore 0, []) = (None, r', [net_ip 3])
     \<and> [net_ip 3] = send_all example_relay datagram (targets (net_ip 2) [net_ip 2, net_ip 3]) []"
proof -
  obtain b where b: "EncodeFrame example_frame = Inr b" using EncodeFrame_total [OF example_frame_valid] by blast
  have d: "DecodeFrame b = Inr example_frame" by (rule DecodeFrame_Encode [OF example_frame_valid b])
  have v: "validSender (net_ip 2)" "validSender (net_ip 3)" by (simp_all add: validSender_def)
  have l: "length example_broadcast = 28" by (simp add: example_broadcast_def)
  have "\<exists>r'. relay_member example_relay example_frame (net_ip 2) 5 (newRelayCore 0, []) = (None, r', [net_ip 3])"
    using b by (simp add: relay_member_def example_relay_def example_frame_def newRelayCore_def Accept_def
        NewReplayWindow_def relay_allow_def take_tokens_def minFloat_def containsIP_def fanout_def v l Let_def
        memberPacketsPerSecond_def memberBytesPerSecond_def roomPacketsPerSecond_def host_ip_def)
  then obtain r' where r: "relay_member example_relay example_frame (net_ip 2) 5 (newRelayCore 0, []) = (None, r', [net_ip 3])"
    by blast
  from relay_forwards [OF d r] d r show ?thesis by (auto simp: example_relay_def)
qed
text \<open>
  A receiver that checks the header of a datagram built here accepts it: the one's complement sum
  of the header with its checksum, folded to sixteen bits, is \<open>0xFFFF\<close>.
\<close>

theorem ip_checksum:
  assumes "Is4 src" and "Is4 dst"
  shows "fold_carry (sum16 (ipv4_header len src dst (ipv4Checksum (ipv4_header len src dst 0))) 0) = 0xFFFF"
  using assms by (rule header_checksum)

theorem ip_checksum_witness:
  "fold_carry (sum16 (ipv4_header 30 (net_ip 2) (net_ip 1) (ipv4Checksum (ipv4_header 30 (net_ip 2) (net_ip 1) 0))) 0) = 0xFFFF"
  by (rule ip_checksum) simp_all

text \<open>
  C34: Reading from the tunnel works in the caller's buffers, where kept packets move forward over
  those already seen; still it does to the packets what the loop over copies of them does: a discovery
  packet is handed over on the host and becomes a relay datagram on a member, all others stay, in order.
\<close>

theorem read_works_in_place:
  assumes "uniform offset cap n bs" and "k \<le> n"
    and "read_packets onDiscovery offset [0..<k] 0 bs t w = (kept', bs', t', w')"
  shows "deliver onDiscovery cap (map (packet_at offset bs) [0..<k]) t w
    = (map (packet_at offset bs') [0..<kept'], t', w')"
  using assms by (rule read_in_place)

definition example_tun :: discoveryTun where
  "example_tun = \<lparr>dt_role = RoleClient, dt_localIP = net_ip 2, dt_relayPort = 9, dt_sequence = 0,
     dt_replay = NewReplayWindow 1024 5\<rparr>"

theorem read_works_in_place_witness:
  "\<exists>kept bs t w. read_packets (\<lambda>_ w. Suc w) 0 [0..<2] 0 ([[1, 2, 3], [4, 5, 6]], [2, 3]) example_tun 0 = (kept, bs, t, w)
     \<and> deliver (\<lambda>_ w. Suc w) 3 [[1, 2], [4, 5, 6]] example_tun 0 = (map (packet_at 0 bs) [0..<kept], t, w)"
proof -
  have u: "uniform 0 3 2 ([[1, 2, 3], [4, 5, 6]], [2, 3])" by (simp add: uniform_def)
  have p: "map (packet_at 0 ([[1, 2, 3], [4, 5, 6]], [2, 3])) [0..<2] = [[1, 2], [4, 5, 6]]"
    by (simp add: packet_at_def subslice_def upt_rec)
  obtain kept bs t w where r: "read_packets (\<lambda>_ w. Suc w) 0 [0..<2] 0 ([[1, 2, 3], [4, 5, 6]], [2, 3]) example_tun 0 = (kept, bs, t, w)"
    by (metis prod_cases4)
  from read_works_in_place [OF u order_refl r] r show ?thesis unfolding p by blast
qed

text \<open>
  C20: A discovery packet goes from a member through the host to the others: what the member's tunnel
  makes of it is a datagram to the host's relay port; when the relay accepts its payload, the packet is
  injected at the host and that payload sent on; and the tunnel of a member that gets it from the host,
  and has not seen it before, replaces it by the very packet the first member sent.
\<close>

theorem discovery_reaches_members:
  assumes "dt_role a = RoleClient" and "validSender (dt_localIP a)" and "uniform offset cap n bs" and "1 \<le> n"
    and "validPacket (dt_localIP a) (packet_at offset bs 0)" and "length (packet_at offset bs 0) + 48 \<le> cap"
  shows "\<exists>bs' a' payload frame. read_packets onDiscovery offset [0..<1] 0 bs a w0 = (1, bs', a', w0)
    \<and> relayPayload (packet_at offset bs' 0) (dt_localIP a) host_ip (dt_relayPort a) = Some payload
    \<and> DecodeFrame payload = Inr frame \<and> fr_Packet frame = packet_at offset bs 0
    \<and> (\<forall>cfg now r w r' w'. relay_member cfg frame (dt_localIP a) now (r, w) = (None, r', w') \<longrightarrow>
        (\<exists>w1. rl_inject cfg (packet_at offset bs 0) w = (None, w1)
          \<and> w' = send_all cfg payload (targets (dt_localIP a) (rl_members cfg w1)) w1))
    \<and> (\<forall>b pre now port. Is4 (dt_localIP b) \<longrightarrow> fst (Accept (dt_localIP a) (fr_Sequence frame) now (dt_replay b)) = None \<longrightarrow>
        fst (write_filter (length pre) [(pre @ buildIPv4UDP host_ip (dt_localIP b) port (dt_relayPort b) payload, now)] b)
          = [replicate (length pre) 0 @ packet_at offset bs 0])"
proof -
  let ?p = "packet_at offset bs 0"
  let ?f = "\<lparr>fr_Flags = 0, fr_SenderIP = dt_localIP a, fr_Sequence = dt_sequence a + 1, fr_Packet = ?p\<rparr>"
  obtain k bs' a' w' where r: "read_packets onDiscovery offset [0..<1] 0 bs a w0 = (k, bs', a', w')" by (metis prod_cases4)
  note d = read_in_place [OF assms(3,4) r]
  from member_to_host [OF assms(1,2,5,6), of onDiscovery w0] d obtain payload p where
    o: "map (packet_at offset bs') [0..<k] = [p]" "relayPayload p (dt_localIP a) host_ip (dt_relayPort a) = Some payload"
      "DecodeFrame payload = Inr ?f" by (auto simp del: deliver.simps)
  have "length (map (packet_at offset bs') [0..<k]) = 1" unfolding o(1) by simp
  then have k: "k = 1" by simp
  then have q: "relayPayload (packet_at offset bs' 0) (dt_localIP a) host_ip (dt_relayPort a) = Some payload"
    "DecodeFrame payload = Inr ?f" using o by simp_all
  have e: "EncodeFrame ?f = Inr payload" using q(2) DecodeFrame_form by blast
  have w: "w' = w0" using d assms(1) e by (simp add: read_frame_of_def Let_def)
  show ?thesis
    using r k q w relay_member_accepts [of _ ?f "dt_localIP a"] host_to_member [OF e _ refl refl]
    by (intro exI [of _ bs'] exI [of _ a'] exI [of _ payload] exI [of _ ?f]) (fastforce simp: e)
qed

theorem discovery_reaches_members_witness:
  "\<exists>bs' a' payload. read_packets (\<lambda>_ w. w) 0 [0..<1] 0 ([example_broadcast @ replicate 60 0], [28]) example_tun () = (1, bs', a', ())
     \<and> relayPayload (packet_at 0 bs' 0) (net_ip 2) host_ip 9 = Some payload"
proof -
  have p: "packet_at 0 ([example_broadcast @ replicate 60 0], [28]) 0 = example_broadcast"
    by (simp add: packet_at_def subslice_def example_broadcast_def)
  note v = example_packet
  have u: "uniform 0 88 1 ([example_broadcast @ replicate 60 0], [28])" by (simp add: uniform_def example_broadcast_def)
  have s: "validSender (net_ip 2)" by (simp add: validSender_def)
  from discovery_reaches_members [of example_tun 0 88 1 _ "\<lambda>_ w. w" "()", OF _ _ u]
  show ?thesis unfolding p using v s by (fastforce simp: example_tun_def example_broadcast_def)
qed
section \<open>The WireGuard device\<close>

text \<open>
  The text that configures a member at the device is exactly these lines, whatever its keys are:
  its public key, its preshared key, and one allowed address, which is a member address of the room.
\<close>

theorem member_device_config:
  assumes "peerConfig peer False = Inr msg"
  shows "\<exists>o'. pe_IP peer = net_ip o' \<and> 2 \<le> o' \<and> o' \<le> 254 \<and> split_on (CHR 0x0A) msg =
    [''public_key='' @ hex_encode (be_bytes (pe_PublicKey peer)),
     ''preshared_key='' @ hex_encode (be_bytes (pe_PSK peer)), ''replace_allowed_ips=true'',
     ''allowed_ip='' @ addr_string (net_ip o') @ ''/32'', []]"
  using assms by (rule member_config_lines)

definition example_peer :: Peer where
  "example_peer = \<lparr>pe_PublicKey = 5, pe_PSK = 6, pe_IP = net_ip 7, pe_Endpoint = (AddrZero, 0)\<rparr>"

theorem member_device_config_witness:
  "\<exists>msg. peerConfig example_peer False = Inr msg \<and> length (split_on (CHR 0x0A) msg) = 5"
proof -
  obtain msg where m: "peerConfig example_peer False = Inr msg"
    by (simp add: peerConfig_def example_peer_def wg_validIP_def Let_def)
  from member_device_config [OF m] m show ?thesis by auto
qed



section \<open>The room\<close>


definition example_callbacks :: "unit callbacks" where
  "example_callbacks = \<lparr>cb_startNetwork = None, cb_stopNetwork = None, cb_applyPeer = None, cb_removePeer = None\<rparr>"

definition example_service :: "unit room" where
  "example_service = room_New ''opl'' ''0123456789abcdef'' 0 0 \<lparr>d_files = fmempty, d_script = []\<rparr> ()"


text \<open>A running room without members, and after its first member has been assigned.\<close>

definition example_host :: "unit room" where
  "example_host = example_service\<lparr>r_running := True, r_joinEnabled := True, r_hostUID := ''0123456789abcdef'',
     r_pairPort := 25673, r_roomKey := 1, r_hostPublic := 9, r_allocator := Some allocator_empty\<rparr>"






text \<open>
  C17: A removal that reports success has removed the member and nobody else: its lease and its key
  are gone, no attempt or timer of it is left, the pairing server was told, and when it was blocked its UID is on the list.
\<close>

theorem removed_member:
  assumes "room_inv s" and "removeMember cb encoded block s = (Inr snap, s')"
  shows "\<exists>key. decodePublicKey encoded = Inr key \<and> leases_of s key \<noteq> None \<and> leases_of s' = (leases_of s)(key := None)
    \<and> r_memberPSKs s' = fmdrop key (r_memberPSKs s) \<and> fmlookup (r_pending s') key = None
    \<and> fmlookup (r_timers s') key = None \<and> last (r_cmds s') = CmdRemoveMember key
    \<and> (block \<longrightarrow> lookup_or False (r_blockedUIDs s') (lookup_or [] (r_memberUIDs s) key))"
  using assms by (rule remove_success)

definition example_member_room :: "unit room" where
  "example_member_room = example_host\<lparr>r_allocator := Some example_allocator\<rparr>"

lemma example_member_inv: "room_inv example_member_room"
proof (rule room_invI)
  show "alloc_ok example_allocator" using example_allocator_inv by (auto simp: alloc_ok_def example_allocator_lease split: if_splits)
qed (simp_all add: example_member_room_def example_host_def example_service_def room_New_def)

theorem removed_member_witness:
  "leases_of (snd (removeMember example_callbacks (std_encode (be_bytes (5 :: arr32))) False example_member_room)) 5 = None"
proof -
  have l: "room_lease example_member_room 5 \<noteq> None"
    by (simp add: room_lease_of room_inv_alloc [OF example_member_inv] alloc_okD leases_of_def)
      (simp add: example_member_room_def the_alloc_def example_allocator_lease)
  then obtain snap where r: "removeMember example_callbacks (std_encode (be_bytes (5 :: arr32))) False example_member_room = (Inr snap,
      snd (removeMember example_callbacks (std_encode (be_bytes (5 :: arr32))) False example_member_room))"
    by (auto simp: removeMember_def decodePublicKey_def Let_def removePeer_def call_net_def example_callbacks_def
        persist_fixed_def forget_member_def set_alloc_def example_member_room_def example_host_def example_service_def room_New_def)
  have "decodePublicKey (std_encode (be_bytes (5 :: arr32))) = Inr 5" by (simp add: decodePublicKey_def)
  with removed_member [OF example_member_inv r] show ?thesis by auto
qed

lemma example_uid: "hex_decode ''0123456789abcdef'' = Some [1, 0x23, 0x45, 0x67, 0x89, 0xab, 0xcd, 0xef]"
  "to_lower ''0123456789abcdef'' = ''0123456789abcdef''"
  by (simp_all add: hex_value_def to_lower_def lower_char_def)

lemma example_invite: "\<exists>code. GetInvite example_host = Inr code"
  by (simp add: GetInvite_def example_host_def example_service_def room_New_def Encode_ok [symmetric] invite_ok_def
      to_lower_def lower_char_def hex_value_def)










section \<open>The runtime\<close>

text \<open>
  C11: The configuration file keeps two lists apart. Whatever operations run on it and whichever of
  them fail, the user's forwardings are those of the last replacement that succeeded and the internal
  ones those of the last \<open>SetInternal\<close> or \<open>ClearInternal\<close> that succeeded; a failed operation changes neither.
\<close>

theorem store_histories:
  assumes "store_history path d ops d'" and "file_config (d_files d) path = Some c" and "config_text_ok c"
  shows "\<exists>c'. file_config (d_files d') path = Some c' \<and> config_text_ok c'
    \<and> (userApps (cf_Apps c'), internalApps (cf_Apps c')) = fold abstract_op (successful ops) (userApps (cf_Apps c), internalApps (cf_Apps c))"
  using store_history_parts [OF assms] by (simp add: parts_def)

definition example_config :: Config where
  "example_config = defaultConfig ''0123456789abcdef''"

lemma example_config_ok: "validateConfig example_config = None" "config_text_ok example_config" "cf_Apps example_config = []"
  by (simp_all add: example_config_def defaultConfig_def validateConfig_def config_text_ok_def Let_def utf8_ascii ascii_def)

definition example_files :: disk where
  "example_files = \<lparr>d_files = fmupd ''opl/config.json''
     (bytes_of (json_print True 0 (enc_config False example_config) @ [CHR 0x0A])) fmempty, d_script = []\<rparr>"

lemma example_files_config: "file_config (d_files example_files) ''opl/config.json'' = Some example_config"
proof -
  have "json_parse (json_print True 0 (enc_config False example_config) @ [CHR 0x0A]) = Some (enc_config False example_config)"
    by (rule json_parse_print [OF json_ok_config [OF example_config_ok(2)]]) (simp add: is_ws_def json_ws_def)
  then show ?thesis by (simp add: file_config_def example_files_def dec_config_enc [OF example_config_ok(2)] example_config_ok(1))
qed

lemma example_ports: "ports_free example_config p"
  by (simp add: ports_free_def example_config_ok userApps_def)

lemma example_text: "ascii ''0123456789abcdef''"
  by (simp add: ascii_def)

theorem store_histories_witness:
  "\<exists>d' c'. SetInternal ''opl/config.json'' [PairingApp ''0123456789abcdef'' 25673 40001] example_files = (None, d')
    \<and> file_config (d_files d') ''opl/config.json'' = Some c' \<and> userApps (cf_Apps c') = []
    \<and> internalApps (cf_Apps c') = [PairingApp ''0123456789abcdef'' 25673 40001]"
proof -
  let ?apps = "[PairingApp ''0123456789abcdef'' 25673 40001]"
  have a: "session_apps_ok example_config ?apps"
    by (rule session_apps_first(1) [OF example_config_ok(1) example_ports example_ports [of 40002] example_text, where dst' = 1]) simp_all
  obtain d' where d': "SetInternal ''opl/config.json'' ?apps example_files = (None, d')"
    using SetInternal_ok [OF _ example_files_config example_config_ok(2) a] by (auto simp: example_files_def)
  have "honest ''opl/config.json'' example_files"
    using p2p_load_ok [OF _ example_files_config] by (simp add: honest_def example_files_def)
  then have h: "store_history ''opl/config.json'' example_files [(OpInternal ?apps, None)] d'"
    using store_history.step [OF store_history.start, of "''opl/config.json''" example_files "OpInternal ?apps" None d'] d'
      forward_app_text(1) [OF example_text] by simp
  from store_histories [OF h example_files_config example_config_ok(2)] d' show ?thesis
    by (auto simp: successful_def example_config_ok userApps_def internalApps_def)
qed


definition example_wg :: "unit wg_system" where
  "example_wg = \<lparr>ws_createTUN = (\<lambda>w. (Inr ''tun'', w)), ws_closeTUN = (\<lambda>w. w), ws_ipcSet = (\<lambda>c w. (None, w)),
     ws_ipcGet = (\<lambda>w. (Inr [], w)), ws_up = (\<lambda>w. (None, w)), ws_configure = (\<lambda>n ip h w. (None, w)),
     ws_cleanup = (\<lambda>n ip w. (None, w)), ws_close = (\<lambda>w. w)\<rparr>"

definition example_outside :: "unit outside" where
  "example_outside = \<lparr>ow_wg = example_wg, ow_prepare = (\<lambda>w. (None, w)), ow_shutdown = (\<lambda>w. w), ow_addApp = (\<lambda>a w. (None, w)),
     ow_statuses = (\<lambda>w. []), ow_relayListen = (\<lambda>w. (None, w)), ow_relayClose = (\<lambda>w. (None, w)),
     ow_inject = (\<lambda>ps w. ((length ps, None), w)), ow_udpWrite = (\<lambda>t p w. (None, w))\<rparr>"

definition example_runtime :: "unit runtime" where
  "example_runtime = \<lparr>rt_world = (), rt_disk = example_files, rt_dataDir = ''opl'', rt_configPath = ''opl/config.json'',
     rt_moduleRun = False, rt_moduleID = 0, rt_manager = None, rt_relay = None, rt_client = None,
     rt_control = None, rt_clientCancel = None, rt_joinCancel = None, rt_joinError = None,
     rt_clientDevices = [], rt_clientIP = AddrZero, rt_session = False, rt_statsAt = 0,
     rt_ordinary = False, rt_process = ''stopped'', rt_lifecycle = ''idle'', rt_mode = ''idle'',
     rt_cancelled = {||}, rt_closed = {||}\<rparr>"

lemma example_New: "\<exists>s d'. core_New ''opl'' ''0123456789abcdef'' ''opl/config.json'' None (Inr []) \<lparr>d_files = fmempty, d_script = []\<rparr> example_files ()
    = (Inr s, d') \<and> \<not> rt_session (r_net s) \<and> \<not> rt_ordinary (r_net s)"
proof -
  have e: "d_script example_files = []" by (simp add: example_files_def)
  have a: "session_apps_ok example_config []" by (simp add: session_apps_ok_def)
  obtain d1 where "SetInternal ''opl/config.json'' [] example_files = (None, d1)"
    using SetInternal_ok [OF e example_files_config example_config_ok(2) a] by blast
  then show ?thesis
    by (simp add: core_New_def p2p_load_ok [OF e example_files_config] ClearInternal_def Let_def room_New_def)
qed









text \<open>
  C7: The room and the client can both be on. \<open>Join\<close> looks whether the room runs before it takes the
  runtime's lock and does not look again; where the room's network starts in between, the session
  begins beside the host's manager and its relay, in the mode of a client.
\<close>

theorem host_and_client:
  assumes "net_start out now config r = (None, r1)"
  shows "\<exists>r2. join_enter ctx r1 = (None, r2) \<and> rt_session r2 \<and> rt_manager r2 \<noteq> None \<and> rt_relay r2 \<noteq> None \<and> rt_mode r2 = ''client''"
proof (cases rule: net_start_cases [of r out now config])
  case (hosting m relay r')
  then have "r1 = setLifecycle ''listening'' (r'\<lparr>rt_manager := Some m, rt_relay := Some relay\<rparr>)" using assms by simp
  with hosting(1,3,4) show ?thesis by (auto simp: join_enter_def setLifecycle_def setMode_def same_session_def)
qed (use assms in simp)

definition example_network :: NetworkConfig where
  "example_network = \<lparr>nc_PrivateKey = 7, nc_PublicKey = 9, nc_LocalIP = host_ip, nc_ListenPort = DefaultWireGuardPort, nc_RelayPort = DefaultRelayPort\<rparr>"

theorem host_and_client_witness:
  "\<exists>r1 r2. net_start example_outside 0 example_network example_runtime = (None, r1)
    \<and> join_enter 1 r1 = (None, r2) \<and> rt_session r2 \<and> rt_manager r2 \<noteq> None"
proof -
  have a: "session_apps_ok example_config []" by (simp add: session_apps_ok_def)
  have e: "d_script example_files = []" by (simp add: example_files_def)
  obtain d' where d: "SetInternal ''opl/config.json'' [] example_files = (None, d')" "d_script d' = []"
      "file_config (d_files d') ''opl/config.json'' = Some (example_config\<lparr>cf_Apps := userApps (cf_Apps example_config) @ []\<rparr>)"
    using SetInternal_ok [OF e example_files_config example_config_ok(2) a] by blast
  have host: "Is4 host_ip" "validSender host_ip" by (simp_all add: host_ip_def validSender_def)
  have "\<exists>r1. net_start example_outside 0 example_network example_runtime = (None, r1)"
    by (simp add: net_start_def example_runtime_def in_files_def ClearInternal_def setLifecycle_def setMode_def d(1)
        engine_Start_def on_world_def example_outside_def onProcessState_def Let_def)
      (simp add: wg_Start_def example_network_def example_wg_def Let_def Wrap_def start_relay_def on_world_def StartHostRelay_def host
        DefaultRelayPort_def DefaultWireGuardPort_def)
  then obtain r1 where "net_start example_outside 0 example_network example_runtime = (None, r1)" by blast
  with host_and_client [OF this, of 1] show ?thesis by blast
qed

text \<open>
  C8: The deferred \<open>Leave\<close> of one \<open>Join\<close> ends another. A session is left while its \<open>Join\<close> still pairs,
  a second \<open>Join\<close> comes online, and then the first one ends with an error: it closes the session, the
  client and the control session that are the second one's.
\<close>

theorem stale_join:
  assumes "Leave out r = (x, r1)" and "join_enter b r1 = (None, r2)"
    and "(runtime_step out)\<^sup>*\<^sup>* r2 r3" and "rt_session r3" and "rt_control r3 = Some c"
    and "join_attempt out env (j, r3) = (LoopDone (Inl e), j', r4)"
  shows "\<exists>r5. join_save j' (Inl e) r4 = (Inl e, r5) \<and> \<not> rt_session (join_undo out a r5)
    \<and> rt_client (join_undo out a r5) = None \<and> rt_control (join_undo out a r5) = None \<and> c |\<in>| rt_closed (join_undo out a r5)"
proof -
  have "rt_session r4" "rt_control r4 = Some c"
    using join_attempt_host [where r = r3 and out = out and env = env and j = j] assms(4-6) by simp_all
  with undo_any_session [where r = "r4\<lparr>rt_joinError := Some e\<rparr>" and out = out and a = a] show ?thesis by (simp add: join_save_def no_session_def)
qed

definition example_join :: join_data where
  "example_join = \<lparr>jd_options = \<lparr>jo_Invite = [], jo_Name = ''Ann'', jo_FixedDeviceKey = False\<rparr>,
     jd_invite = \<lparr>FixedRoomKey = False, HostUID = ''0123456789abcdef'', PairPort = 25673, RoomKey = 1\<rparr>,
     jd_node = ''0123456789abcdef'', jd_identity = \<lparr>kp_Private = 4, kp_Public = 5\<rparr>, jd_path = [], jd_psk = 0,
     jd_membership = False, jd_pairApp = PairingApp ''0123456789abcdef'' 25673 40001, jd_wgPort = 40002,
     jd_configured = False, jd_ctx = 3\<rparr>"

definition example_result :: PairResult where
  "example_result = \<lparr>pr_Status = StatusOK, pr_AssignedIP = net_ip 2, pr_PrefixLength = 24, pr_WireGuardPort = 51820,
     pr_DiscoveryRelayPort = 51821, pr_HostPublicKey = 9, pr_LeaseRevision = 1, pr_MAC = 0\<rparr>"

definition example_unreachable :: client_env where
  "example_unreachable = (connected (room_config example_callbacks example_host) example_challenge 1 example_host 3)
     \<lparr>ce_dial := Some (ErrTag CtxCanceled)\<rparr>"

theorem stale_join_witness:
  "\<exists>x r1 r2 r3 r4 j. Leave example_outside (snd (join_enter 3 example_runtime)) = (x, r1) \<and> join_enter 2 r1 = (None, r2)
    \<and> r3 = snd (join_online (example_join\<lparr>jd_ctx := 2\<rparr>) example_result 7 8 r2) \<and> rt_session r3 \<and> rt_control r3 = Some 7
    \<and> join_attempt example_outside example_unreachable (example_join, r3) = (LoopDone (Inl (ErrTag CtxCanceled)), j, r4)
    \<and> \<not> rt_session (join_undo example_outside 3 (snd (join_save j (Inl (ErrTag CtxCanceled)) r4)))"
proof -
  let ?r = "snd (join_enter 3 example_runtime)"
  obtain x r1 where leave: "Leave example_outside ?r = (x, r1)" by fastforce
  obtain l r0 where take: "leave_take ?r = (l, r0)" by fastforce
  have l: "ld_active l" "ld_cancelJoin l = Some 3" "\<not> rt_ordinary ?r"
    using take by (auto simp: leave_take_def join_enter_def example_runtime_def setLifecycle_def setMode_def)
  have finish: "leave_finish example_outside l r0 = (x, r1)" using leave unfolding Leave_def take by simp
  have c: "3 |\<in>| rt_cancelled r1"
    using leave_cancels(1) [OF l(1), of example_outside r0] unfolding finish by (cases "ld_cancelControl l") (simp_all add: l(2) finsert_opt_def)
  have n: "\<not> rt_session r1" "\<not> rt_ordinary r1"
    using Leave_session(1,3) [of example_outside ?r] l(3) unfolding leave by (simp_all add: no_session_def)
  obtain r2 where enter: "join_enter 2 r1 = (None, r2)" "rt_session r2" "rt_cancelled r2 = rt_cancelled r1"
    using n by (simp add: join_enter_def setLifecycle_def setMode_def)
  define r3 where r3: "r3 = snd (join_online (example_join\<lparr>jd_ctx := 2\<rparr>) example_result 7 8 r2)"
  have on: "rt_session r3" "rt_control r3 = Some 7" "3 |\<in>| rt_cancelled r3"
    using enter c by (simp_all add: r3 join_online_def setLifecycle_def)
  have step: "(runtime_step example_outside)\<^sup>*\<^sup>* r2 r3"
    unfolding r3 by (rule r_into_rtranclp) (rule going_online)
  have late: "\<exists>j r4. join_attempt example_outside example_unreachable (example_join, r3) = (LoopDone (Inl (ErrTag CtxCanceled)), j, r4)"
    using on(3) by (simp add: join_attempt_def run_pairing_def pairWithSession_def example_unreachable_def connected_def example_join_def)
  then obtain j r4 where late: "join_attempt example_outside example_unreachable (example_join, r3) = (LoopDone (Inl (ErrTag CtxCanceled)), j, r4)"
    by blast
  from stale_join [OF leave enter(1) step on(1,2) late, of 3] leave enter(1) r3 on(1,2) late show ?thesis
    by (metis snd_conv)
qed
section \<open>The whitelist of a port forwarding\<close>

text \<open>
  C37: Adding a range to the tree returns. Whatever the AVL library does to balance the tree, the loop
  ends; the ranges stay disjoint and in order, and the addresses in the tree are those of before and
  those of the range. A range whose ends are the wrong way round is refused and changes nothing.
\<close>

theorem add_range_ends:
  assumes "avl_ok a" and "ranges t"
  shows "\<exists>t'. AddIntIP a lo hi v t = Some (lo \<le> hi, t') \<and> ranges t'
    \<and> covered t' = covered t \<union> (if lo \<le> hi then {lo..hi} else {})"
  using AddIntIP_covered [OF assms, of lo hi v] by auto

theorem add_range_ends_witness:
  "\<exists>t'. AddIntIP plain_avl 3 9 () (Node Leaf (1, 4, ()) (Node Leaf (8, 20, ()) Leaf)) = Some (True, t') \<and> ranges t'
    \<and> covered t' = {1..4} \<union> {8..20} \<union> {3..9}"
proof -
  have "ranges (Node Leaf (1, 4, ()) (Node Leaf (8, 20, ()) Leaf))" by (simp add: ranges_def before_def)
  from add_range_ends [OF plain_avl_ok this, of 3 9 "()"] show ?thesis by auto
qed

text \<open>
  C12: What a whitelist says. Building its tree ends, and a connection from an IPv4 address is let in
  exactly when the whitelist is empty, the address lies between the bounds of one of the entries
  between the commas, or the address is that of the machine itself.
\<close>

theorem whitelist_meaning:
  assumes "avl_ok a" and "Is4 ip"
  shows "\<exists>t. NewIPTree a w = Some t
    \<and> (admitted w t (addr_string ip) \<longleftrightarrow> w = [] \<or> IsLocalhost (addr_string ip)
        \<or> (\<exists>e\<in>set (split_on (CHR '','') w). \<exists>lo hi. entry_bounds e = Some (lo, hi)
             \<and> ip_number lo \<le> be_word (As4 ip) \<and> be_word (As4 ip) \<le> ip_number hi))"
proof -
  from assms(2) obtain x where x: "ip = Addr4 x" by (rule Is4E)
  have "ParseAddr (addr_string (Addr4 x)) = Some (Addr4 x)" by (rule ParseAddr_string) simp
  then have n: "ip_number (addr_string ip) = x" "be_word (As4 ip) = x"
    by (simp_all add: ip_number_def net_ParseIP_def x To4_def be_word_be_bytes)
  obtain t where t: "NewIPTree a w = Some t" "ranges t" "covered t = (\<Union>e\<in>set (split_on (CHR '','') w). entry_range e)"
    using NewIPTree_covered [OF assms(1)] by blast
  have "ip_number (addr_string ip) \<in> covered t \<longleftrightarrow> (\<exists>e\<in>set (split_on (CHR '','') w). \<exists>lo hi. entry_bounds e = Some (lo, hi)
      \<and> ip_number lo \<le> be_word (As4 ip) \<and> be_word (As4 ip) \<le> ip_number hi)"
  proof -
    have "x \<in> entry_range e \<longleftrightarrow> (\<exists>lo hi. entry_bounds e = Some (lo, hi) \<and> ip_number lo \<le> x \<and> x \<le> ip_number hi)" for e
      by (cases "entry_bounds e") (auto simp: entry_range_def)
    then show ?thesis unfolding t(3) n by simp
  qed
  then have "admitted w t (addr_string ip) \<longleftrightarrow> w = [] \<or> IsLocalhost (addr_string ip)
        \<or> (\<exists>e\<in>set (split_on (CHR '','') w). \<exists>lo hi. entry_bounds e = Some (lo, hi)
             \<and> ip_number lo \<le> be_word (As4 ip) \<and> be_word (As4 ip) \<le> ip_number hi)"
    unfolding admitted_def Contains_covered [OF t(2)] by blast
  with t(1) show ?thesis by blast
qed

text \<open>
  C13: One entry that is no IPv4 address opens the whitelist to all of IPv6. An IPv6 address, a name or
  an address after a blank counts as 0.0.0.0, and so does every IPv6 client: it is let in, whatever its
  address.
\<close>

theorem whitelist_ipv6:
  assumes "avl_ok a" and "e \<in> set (split_on (CHR '','') w)" and "CHR ''/'' \<notin> set e" and "CHR ''-'' \<notin> set e"
    and "Option.bind (net_ParseIP e) To4 = None" and "Option.bind (net_ParseIP client) To4 = None"
  shows "\<exists>t. NewIPTree a w = Some t \<and> admitted w t client"
proof -
  obtain t where t: "NewIPTree a w = Some t" "ranges t" "covered t = (\<Union>e\<in>set (split_on (CHR '','') w). entry_range e)"
    using NewIPTree_covered [OF assms(1)] by blast
  have "entry_range e = {0}" using assms(3-5) by (simp add: entry_range_def entry_bounds_def ip_number_def)
  then have "ip_number client \<in> covered t" using assms(2,6) by (auto simp: t(3) ip_number_def)
  with t(1) show ?thesis by (simp add: admitted_def Contains_covered [OF t(2)])
qed

lemma example_numbers: "ip_number ''10.0.0.1'' = 0x0A000001" "ip_number ''10.0.0.9'' = 0x0A000009"
  by (simp_all add: ip_number_def net_ParseIP_def ParseAddr_def parseIPv4_def digit_value_def AddrFrom4_def To4_def be_word_def)

theorem whitelist_meaning_witness:
  "\<exists>t. NewIPTree plain_avl ''10.0.0.1-10.0.0.9'' = Some t \<and> admitted ''10.0.0.1-10.0.0.9'' t (addr_string (AddrFrom4 [10, 0, 0, 5]))
    \<and> \<not> admitted ''10.0.0.1-10.0.0.9'' t (addr_string (AddrFrom4 [10, 0, 0, 10]))"
proof -
  let ?w = "''10.0.0.1-10.0.0.9''"
  have a: "addr_string (AddrFrom4 [10, 0, 0, 10]) = ''10.0.0.10''" "addr_string (AddrFrom4 [10, 0, 0, 5]) = ''10.0.0.5''"
    by (simp_all add: addr_string_AddrFrom4 dotted_def dec_string_step dec_string_small digit_char_def)
  have n: "be_word (As4 (AddrFrom4 [10, 0, 0, 5])) = (0x0A000005 :: u32)" "be_word (As4 (AddrFrom4 [10, 0, 0, 10])) = (0x0A00000A :: u32)"
    by (simp_all add: As4_AddrFrom4 be_word_def)
  have e: "split_on (CHR '','') ?w = [?w]" "entry_bounds ?w = Some (''10.0.0.1'', ''10.0.0.9'')"
    by (simp_all add: entry_bounds_def)
  from whitelist_meaning [OF plain_avl_ok, of "AddrFrom4 [10, 0, 0, 5]" ?w] whitelist_meaning [OF plain_avl_ok, of "AddrFrom4 [10, 0, 0, 10]" ?w]
  show ?thesis unfolding n e(1) a by (auto simp: e(2) example_numbers IsLocalhost_def)
qed

lemma replicate_eval: "replicate 5 x = [x, x, x, x, x]"
  by (simp add: numeral_eq_Suc)

theorem whitelist_ipv6_witness:
  "\<exists>t. NewIPTree plain_avl ''192.168.1.1, 10.0.0.1'' = Some t \<and> admitted ''192.168.1.1, 10.0.0.1'' t ''2001:db8::5''"
proof -
  have e: "'' 10.0.0.1'' \<in> set (split_on (CHR '','') ''192.168.1.1, 10.0.0.1'')" by simp
  have p: "Option.bind (net_ParseIP '' 10.0.0.1'') To4 = None"
    by (simp add: net_ParseIP_def ParseAddr_def parseIPv4_def digit_value_def)
  have "net_ParseIP ''2001:db8::5'' = Some (Addr6 (groups_to_v6 [0x2001, 0xdb8, 0, 0, 0, 0, 0, 5]) [])"
    by (simp add: net_ParseIP_def ParseAddr_def parseIPv6_def hex_val_def
        parse6.simps [of "''2001:db8::5''"] parse6.simps [of "''db8::5''"] parse6.simps [of "''5''"] replicate_eval)
  then have c: "Option.bind (net_ParseIP ''2001:db8::5'') To4 = None"
    by (simp add: To4_def groups_to_v6_def)
  from whitelist_ipv6 [OF plain_avl_ok e _ _ p c] show ?thesis by simp
qed
section \<open>The management page\<close>

text \<open>
  C23: Saving the access list either leaves the settings file as it was or writes the list and keeps all
  else: read back, the file gives the sorted addresses, the old page address and the members of other programs.
\<close>

theorem access_list_saved:
  assumes "SaveAllowedIPs path vs current d = (r, d')" and "\<And>s. fst (settings_load path d) = Inr s \<Longrightarrow> settings_ok s"
  shows "case r of
      Inl e \<Rightarrow> fmlookup (d_files d') path = fmlookup (d_files d) path
    | Inr allowed \<Rightarrow> normalizeAllowed vs current = Inr allowed \<and> sorted allowed \<and> distinct allowed
        \<and> (\<exists>s data s'. fst (settings_load path d) = Inr s \<and> fmlookup (d_files d') path = Some data
             \<and> settings_of (string_of data) = Some s' \<and> gs_Allowed s' = allowed \<and> gs_Address s' = gs_Address s
             \<and> other_members s' = other_members s)"
proof (cases r)
  case (Inl e)
  with SaveAllowedIPs_error assms(1) show ?thesis by simp
next
  case (Inr allowed)
  with assms(1) obtain s where s: "fst (settings_load path d) = Inr s" "normalizeAllowed vs current = Inr allowed"
    "fmlookup (d_files d') path =
       Some (bytes_of (json_print True 0 (enc_raw (settings_raw (s\<lparr>gs_Allowed := allowed\<rparr>))) @ [CHR 0x0A]))"
    by (auto elim: SaveAllowedIPs_saved)
  let ?s = "s\<lparr>gs_Allowed := allowed\<rparr>"
  have "settings_of (json_print True 0 (enc_raw (settings_raw ?s)) @ [CHR 0x0A]) = Some (?s\<lparr>gs_raw := settings_raw ?s\<rparr>)"
    by (rule settings_of_save) (use assms(2) [OF s(1)] normalizeAllowed_utf8 [OF s(2)] in \<open>simp_all add: settings_ok_def\<close>)
  moreover have "other_members (?s\<lparr>gs_raw := settings_raw ?s\<rparr>) = other_members s"
    unfolding other_members_raw by (simp add: other_members_def)
  ultimately show ?thesis using Inr s normalizeAllowed_sorted [OF s(2)] by fastforce
qed

text \<open>
  C24: Nobody is locked out of the management page: a list that a save returns admits the clients it was
  asked for, and each list, saved or in force, admits this machine and the address of the page itself.
\<close>

theorem access_list_admits:
  assumes "fst (AllowedIPs system path current d) = Inr allowed \<and> vs = []
      \<or> fst (SaveAllowedIPs path vs current d) = Inr allowed"
    and "v \<in> set vs \<or> v = Loopback \<or> v = current"
    and "CHR ''['' \<notin> set v" "CHR '']'' \<notin> set v" "CHR '':'' \<notin> set port" "CHR ''['' \<notin> set port" "CHR '']'' \<notin> set port"
  shows "request_served system (client_allowed allowed) (JoinHostPort v port) (JoinHostPort Loopback port)"
proof -
  have "client_allowed allowed v"
    using assms(1)
  proof
    assume a: "fst (AllowedIPs system path current d) = Inr allowed \<and> vs = []"
    then have "\<exists>us. normalizeAllowed us current = Inr allowed"
      by (auto simp: AllowedIPs_def Let_def bind_result_Inr split: prod.splits if_splits)
    with a assms(2) normalizeAllowed_admits show ?thesis by auto
  next
    assume "fst (SaveAllowedIPs path vs current d) = Inr allowed"
    then obtain d' where "SaveAllowedIPs path vs current d = (Inr allowed, d')" by (metis prod.collapse)
    then show ?thesis using assms(2) normalizeAllowed_admits by (auto elim: SaveAllowedIPs_saved)
  qed
  moreover have "CHR ''['' \<notin> set Loopback" "CHR '']'' \<notin> set Loopback" by (simp_all add: Loopback_def)
  ultimately show ?thesis
    using assms(3-) host_of_Join localHost_Loopback by (simp add: request_served_def)
qed

definition example_settings :: settings where
  "example_settings = \<lparr>gs_Address = ''192.168.1.7'', gs_Allowed = [], gs_raw = fmupd ''language'' (JStr ''en'') fmempty\<rparr>"

definition settings_disk :: disk where
  "settings_disk = \<lparr>d_files = fmupd ''set.json''
     (bytes_of (json_print True 0 (enc_raw (settings_raw example_settings)) @ [CHR 0x0A])) fmempty, d_script = []\<rparr>"

lemma example_settings_load:
  "settings_load ''set.json'' settings_disk = (Inr (example_settings\<lparr>gs_raw := settings_raw example_settings\<rparr>), settings_disk)"
proof -
  have "settings_of (json_print True 0 (enc_raw (settings_raw example_settings)) @ [CHR 0x0A])
      = Some (example_settings\<lparr>gs_raw := settings_raw example_settings\<rparr>)"
    by (rule settings_of_save) (simp_all add: example_settings_def raw_ok_def utf8_ascii ascii_def)
  then show ?thesis by (simp add: settings_load_def settings_disk_def ReadFile_def os_call_def)
qed

lemma example_addresses:
  "net_ParseIP ''10.0.0.9'' = Some (Addr4 0x0A000009)" "net_ParseIP ''127.0.0.1'' = Some (Addr4 0x7F000001)"
  "net_ParseIP ''192.168.1.7'' = Some (Addr4 0xC0A80107)"
  by (simp_all add: net_ParseIP_def ParseAddr_def parseIPv4_def digit_value_def AddrFrom4_def be_word_def)

lemma example_texts:
  "ip_text (Addr4 0x0A000009) = ''10.0.0.9''" "ip_text (Addr4 0x7F000001) = ''127.0.0.1''" "ip_text (Addr4 0xC0A80107) = ''192.168.1.7''"
  using be_bytes_be_word_widths(2) [of "[10, 0, 0, 9]"] be_bytes_be_word_widths(2) [of "[127, 0, 0, 1]"]
    be_bytes_be_word_widths(2) [of "[192, 168, 1, 7]"]
  by (simp_all add: ip_text_def To4_def string4_def dotted_def be_word_def dec_string_step dec_string_small digit_char_def)

lemma example_access_list:
  "\<exists>d'. SaveAllowedIPs ''set.json'' [''10.0.0.9'', ''127.0.0.1''] ''192.168.1.7'' settings_disk
     = (Inr [''10.0.0.9'', ''127.0.0.1'', ''192.168.1.7''], d')"
proof -
  let ?l = "[''10.0.0.9'', ''127.0.0.1'', ''192.168.1.7'']"
  have "normalizeAllowed [''10.0.0.9'', ''127.0.0.1''] ''192.168.1.7'' = Inr ?l"
    by (simp add: normalizeAllowed_def Loopback_def example_addresses example_texts To4_def bind_result_def)
  moreover obtain d' where "settings_save ''set.json'' (example_settings\<lparr>gs_raw := settings_raw example_settings, gs_Allowed := ?l\<rparr>) settings_disk = (None, d')"
    using plain.replaced_ok [of settings_disk "''set.json''"] unfolding settings_save_def by (auto simp: settings_disk_def)
  ultimately show ?thesis by (simp add: SaveAllowedIPs_def example_settings_load)
qed

theorem access_list_saved_witness:
  "\<exists>d' data s'. snd (SaveAllowedIPs ''set.json'' [''10.0.0.9'', ''127.0.0.1''] ''192.168.1.7'' settings_disk) = d'
     \<and> fmlookup (d_files d') ''set.json'' = Some data \<and> settings_of (string_of data) = Some s'
     \<and> gs_Allowed s' = [''10.0.0.9'', ''127.0.0.1'', ''192.168.1.7''] \<and> gs_Address s' = ''192.168.1.7''
     \<and> fmlookup (other_members s') ''language'' = Some (JStr ''en'')"
proof -
  obtain d' where d': "SaveAllowedIPs ''set.json'' [''10.0.0.9'', ''127.0.0.1''] ''192.168.1.7'' settings_disk
     = (Inr [''10.0.0.9'', ''127.0.0.1'', ''192.168.1.7''], d')" using example_access_list by blast
  have o: "settings_ok s" if "fst (settings_load ''set.json'' settings_disk) = Inr s" for s
    using that by (auto simp: example_settings_load example_settings_def settings_ok_def raw_ok_def settings_raw_def utf8_ascii ascii_def)
  have g: "fst (settings_load ''set.json'' settings_disk) = Inr s \<Longrightarrow> gs_Address s = ''192.168.1.7''
      \<and> fmlookup (other_members s) ''language'' = Some (JStr ''en'')" for s
    by (auto simp: example_settings_load) (simp_all add: example_settings_def other_members_def)
  from access_list_saved [OF d' o] g d' show ?thesis by fastforce
qed

theorem access_list_admits_witness:
  "request_served (Inr []) (client_allowed [''10.0.0.9'', ''127.0.0.1'', ''192.168.1.7'']) ''10.0.0.9:51000'' ''127.0.0.1:51000''"
proof -
  have "fst (SaveAllowedIPs ''set.json'' [''10.0.0.9'', ''127.0.0.1''] ''192.168.1.7'' settings_disk)
      = Inr [''10.0.0.9'', ''127.0.0.1'', ''192.168.1.7'']" using example_access_list by auto
  from access_list_admits [OF disjI2 [OF this], of "''10.0.0.9''" "''51000''" "Inr []"] show ?thesis
    by (simp add: JoinHostPort_def Loopback_def)
qed

section \<open>The interface of the program\<close>


text \<open>
  C32: Members no method knows are refused: a request whose parameters have one, at any method, is answered
  under its id with an error and without a result, ends nothing and changes nothing.
\<close>

theorem unknown_parameter:
  assumes "stray_member rq" and "rq_ID rq \<noteq> 0" and "rq_Method rq \<noteq> []" and "utf8_valid (rq_Method rq)"
    and "json_ok (the (rq_Params rq))" and "length (json_print ind 0 (enc_request rq)) \<le> maxLineBytes"
  shows "\<exists>code. HandleMessage sv (json_print ind 0 (enc_request rq)) p =
      Some ((\<lparr>rp_ID = rq_ID rq, rp_Result = None, rp_Error = Some \<lparr>pe_Code = code, pe_cause = None\<rparr>\<rparr>, False), p)
    \<and> code \<in> {''INVALID_REQUEST'', ''METHOD_NOT_FOUND''}"
proof -
  have "case rq_Params rq of None \<Rightarrow> True | Some v \<Rightarrow> json_ok v" using assms(5) by (auto split: option.split)
  note d = decode_request_print [OF assms(2-4) this, of ind]
  have l: "\<not> maxLineBytes < length (json_print ind 0 (enc_request rq))" using assms(6) by simp
  show ?thesis
    unfolding HandleMessage_def if_not_P [OF l] d Let_def prod.case option.case dispatch_stray [OF assms(1)]
    by (simp add: refuse_def invalidRequest_def methodNotFound_def)
qed

text \<open>
  C22: A shutdown that is answered has happened. The flag that ends the program comes only with the answer
  to \<open>core.shutdown\<close>, without an error; by then no room runs, the client session is gone and the engine is off.
\<close>

theorem shutdown_answered:
  assumes "HandleMessage (main_services v) data p = Some ((answer, True), p')"
  shows "rp_Error answer = None \<and> rp_Result answer = Some (RSwitch ''stopped'') \<and> \<not> r_running (pg_core p')
    \<and> no_session (r_net (pg_core p')) \<and> \<not> rt_moduleRun (r_net (pg_core p')) \<and> rt_lifecycle (r_net (pg_core p')) = ''idle''
    \<and> (r_running (pg_core p) \<longrightarrow> rt_manager (r_net (pg_core p')) = None)"
proof -
  obtain rq val e where d: "dispatch (main_services v) rq p = Some ((val, e, True), p')" "rp_Result answer = val" "rp_Error answer = e"
    using assms by (auto simp: HandleMessage_def Let_def case_prod_beta split: option.splits)
  from dispatch_shutdown [OF d(1)] have s: "shut_down (main_services v) p = ((val, e, True), p')" by simp
  obtain err s' where c: "core_Close (cv_out v) (cv_now v) (cv_close v) (pg_core p) = (err, s')" by fastforce
  from s have "err = None" "val = Some (RSwitch ''stopped'')" "e = None" "pg_core p' = s'"
    by (auto simp: shut_down_def main_services_def Let_def on_rooms_def c commandError_def)
  with core_Close_done [of "cv_out v"] c d(2,3) show ?thesis by simp
qed

text \<open>
  C39: The two transports answer an error differently. Opening or closing a stopped room for members fails
  on both with INVALID_STATE, but over the WebSocket the answer has a result beside the error.
\<close>

theorem failing_answer:
  assumes "decode_request data = (rq_ID rq, Some rq)" and "length data < maxLineBytes" and "\<not> r_running (pg_core p)"
    and "rq_Method rq = ''room.setJoinEnabled''" and "rq_Params rq = Some (JObj [(''enabled'', JBool enabled)])"
  shows "HandleMessage (main_services v) data p = Some ((\<lparr>rp_ID = rq_ID rq, rp_Result = Some RZero,
      rp_Error = Some \<lparr>pe_Code = ''INVALID_STATE'', pe_cause = Some errStopped\<rparr>\<rparr>, False), p)
    \<and> handle_line (main_services v) data p = Some (LineAnswer \<lparr>rp_ID = rq_ID rq, rp_Result = None,
      rp_Error = Some \<lparr>pe_Code = ''INVALID_STATE'', pe_cause = Some errStopped\<rparr>\<rparr> False, p)"
proof -
  have n: "names_field ''enabled'' ''enabled''" by code_simp
  have "ptr_param ''enabled'' dec_bool (rq_Params rq) = Some enabled"
    by (simp add: assms(5) ptr_param_def params_members_def known_fields_def dec_ptr_def dec_bool_def n)
  moreover have "ro_SetJoinEnabled (main_rooms v) enabled p = (Inl errStopped, p)"
    using assms(3) by (simp add: main_rooms_def Let_def on_rooms_def SetJoinEnabled_def)
  moreover have "map_of (handlers (main_services v)) ''room.setJoinEnabled''
      = Some (\<lambda>rq. with_ptr ''enabled'' dec_bool rq (\<lambda>enabled p. give RRoom (ro_SetJoinEnabled (svc_Rooms (main_services v)) enabled p)))"
    by (simp add: handlers_def Let_def)
  moreover have "commandError (Some errStopped) = Some \<lparr>pe_Code = ''INVALID_STATE'', pe_cause = Some errStopped\<rparr>"
    by (simp add: commandError_def error_code_def command_codes_def errStopped_def)
  moreover have "svc_Rooms (main_services v) = main_rooms v" by (simp add: main_services_def Let_def)
  ultimately have d: "dispatch (main_services v) rq p
      = Some ((Some RZero, Some \<lparr>pe_Code = ''INVALID_STATE'', pe_cause = Some errStopped\<rparr>, False), p)"
    by (simp add: dispatch_def assms(4) with_ptr_def give_def)
  show ?thesis using assms(1,2,4) by (simp add: HandleMessage_def handle_line_def d line_response_def)
qed

text \<open>
  C40: A broken settings file keeps the program from starting. The address falls back to this machine when
  the file cannot be read, but the access list is read from the same file and its error ends the program.
\<close>

theorem broken_settings:
  assumes "fmlookup (d_files d) path = Some data" and "settings_of (string_of data) = None" and "d_script d = []"
  shows "\<exists>e. fst (main_start system path listen d) = Inl e"
proof -
  have "settings_load path d = (Inl errSettings, d)"
    using assms by (simp add: settings_load_def ReadFile_def os_call_def)
  then show ?thesis by (simp add: main_start_def settings_Load_def AllowedIPs_def Let_def bind_result_def)
qed

definition api_request :: "string \<Rightarrow> json option \<Rightarrow> request" where
  "api_request mname params = \<lparr>rq_ID = 7, rq_Method = mname, rq_Params = params\<rparr>"

lemma length_json_quote: "ascii s \<Longrightarrow> length (json_quote s) \<le> 6 * length s + 2"
proof -
  have "length (quote_body s) \<le> 6 * length s" if "ascii s"
    using that
  proof (induction s)
    case (Cons c s)
    have "length (esc_ascii (of_char c)) \<le> 6" by (simp add: esc_ascii_def)
    with Cons show ?case by (simp add: quote_body.simps [of "c # s"] ascii_def)
  qed (simp add: quote_body_Nil)
  then show "ascii s \<Longrightarrow> ?thesis" by (simp add: json_quote_def)
qed

lemma api_length: "ascii mname \<Longrightarrow> length (json_print False 0 (enc_request (api_request mname params)))
    \<le> 6 * length mname + (case params of None \<Rightarrow> 0 | Some v \<Rightarrow> length (json_print False 1 v)) + 200"
  using length_json_quote [of mname] length_json_quote [of "''id''"] length_json_quote [of "''method''"] length_json_quote [of "''params''"]
  by (simp add: enc_request_def api_request_def json_items_def json_nl_def json_colon_def enc_word_def dec_string_small ascii_def
      split: option.split)

lemma api_messages:
  "length (json_print False 0 (enc_request (api_request ''core.shutdown'' None))) < maxLineBytes"
  "length (json_print False 0 (enc_request (api_request ''room.stop'' (Some (JObj [(''force'', JBool True)]))))) < maxLineBytes"
  "length (json_print False 0 (enc_request (api_request ''room.setJoinEnabled'' (Some (JObj [(''enabled'', JBool True)]))))) < maxLineBytes"
proof -
  have f: "length (json_quote ''force'') \<le> 32" "length (json_quote ''enabled'') \<le> 44"
    using length_json_quote [of "''force''"] length_json_quote [of "''enabled''"] by (simp_all add: ascii_def)
  show "length (json_print False 0 (enc_request (api_request ''core.shutdown'' None))) < maxLineBytes"
    using api_length [of "''core.shutdown''" None] by (simp add: ascii_def maxLineBytes_def)
  show "length (json_print False 0 (enc_request (api_request ''room.stop'' (Some (JObj [(''force'', JBool True)]))))) < maxLineBytes"
    "length (json_print False 0 (enc_request (api_request ''room.setJoinEnabled'' (Some (JObj [(''enabled'', JBool True)]))))) < maxLineBytes"
    using f api_length [of "''room.stop''" "Some (JObj [(''force'', JBool True)])"]
      api_length [of "''room.setJoinEnabled''" "Some (JObj [(''enabled'', JBool True)])"]
    by (simp_all add: ascii_def maxLineBytes_def json_items_def json_nl_def json_colon_def)
qed

lemma api_decoded: "ascii mname \<Longrightarrow> mname \<noteq> [] \<Longrightarrow> case params of None \<Rightarrow> True | Some v \<Rightarrow> json_ok v \<Longrightarrow>
    decode_request (json_print False 0 (enc_request (api_request mname params))) = (7, Some (api_request mname params))"
  using decode_request_print [of "api_request mname params" False] by (simp add: api_request_def utf8_ascii)

definition example_env :: "unit call_env" where
  "example_env = \<lparr>cv_out = example_outside, cv_now = 0,
     cv_create = \<lparr>en_tcpPort = Inr 25673, en_udpPort = Inr 25674, en_roomID = Inr 1, en_roomKey = Inr 1, en_hostKey = Inr 1, en_listen = None\<rparr>,
     cv_key = Inr 1, cv_close = None, cv_system = Inr [], cv_path = ''set.json'',
     cv_join = \<lparr>je_random = Inr 1, je_pairPort = Inr 1, je_wgPort = Inr 2\<rparr>, cv_ctx = 1, cv_turns = [], cv_control = 1, cv_controlCtx = 2\<rparr>"

definition example_program :: "unit core \<Rightarrow> unit program" where
  "example_program s = \<lparr>pg_core = s, pg_files = \<lparr>d_files = fmempty, d_script = []\<rparr>, pg_address = ''127.0.0.1:26780'',
     pg_allowed = [''127.0.0.1''], pg_rebind = []\<rparr>"

lemma api_start: "\<exists>s. program_reach example_outside (example_program s) \<and> \<not> rt_session (r_net s) \<and> \<not> rt_ordinary (r_net s)
    \<and> \<not> r_running s \<and> revision_left (example_program s)"
proof -
  from example_New obtain s d' where s: "core_New ''opl'' ''0123456789abcdef'' ''opl/config.json'' None (Inr [])
      \<lparr>d_files = fmempty, d_script = []\<rparr> example_files () = (Inr s, d')" "\<not> rt_session (r_net s)" "\<not> rt_ordinary (r_net s)" by blast
  then have "\<not> r_running s" "r_allocator s = None"
    by (auto simp: core_New_def Let_def case_prod_beta room_New_def split: option.splits sum.splits if_splits)
  then have "revision_left (example_program s)"
    by (simp add: example_program_def revision_left_def the_alloc_def allocator_empty_def)
  moreover have "program_reach example_outside (example_program s)"
    unfolding example_program_def by (rule program_reach.new [OF s(1)])
  ultimately show ?thesis using s \<open>\<not> r_running s\<close> by blast
qed


theorem unknown_parameter_witness:
  "\<exists>s code. HandleMessage (main_services example_env)
      (json_print False 0 (enc_request (api_request ''room.stop'' (Some (JObj [(''force'', JBool True)]))))) (example_program s) =
      Some ((\<lparr>rp_ID = 7, rp_Result = None, rp_Error = Some \<lparr>pe_Code = code, pe_cause = None\<rparr>\<rparr>, False), example_program s)"
proof -
  let ?rq = "api_request ''room.stop'' (Some (JObj [(''force'', JBool True)]))"
  have "\<forall>n\<in>set parameter_names. \<not> names_field n ''force''" by code_simp
  then have "stray_member ?rq" by (auto simp: stray_member_def api_request_def)
  moreover have "json_ok (the (rq_Params ?rq))" by (simp add: api_request_def utf8_ascii ascii_def)
  moreover have "rq_ID ?rq \<noteq> 0" "rq_Method ?rq \<noteq> []" "utf8_valid (rq_Method ?rq)" "rq_ID ?rq = 7"
    by (simp_all add: api_request_def utf8_ascii ascii_def)
  ultimately show ?thesis
    using unknown_parameter [of ?rq False, OF _ _ _ _ _ less_imp_le [OF api_messages(2)]] by metis
qed

lemma api_close:
  assumes "s = room_New ''opl'' ''0123456789abcdef'' 0 0 \<lparr>d_files = fmempty, d_script = []\<rparr> example_runtime"
  shows "fst (core_Close example_outside 0 None s) = None"
proof -
  define r where "r = snd (leave_take (setLifecycle ''stopping'' example_runtime))"
  have l: "Leave example_outside (setLifecycle ''stopping'' example_runtime) = (None, r)"
    by (simp add: Leave_def r_def leave_take_def leave_finish_def setLifecycle_def example_runtime_def)
  have s: "\<not> r_running s" "r_net s = example_runtime" by (simp_all add: assms room_New_def)
  have "stored r example_config"
    using example_files_config example_config_ok(2)
    by (simp add: stored_def r_def leave_take_def setLifecycle_def example_runtime_def example_files_def)
  from SetInternal_stored [OF this, of "[]"] obtain t where "in_files (ClearInternal (rt_configPath r)) r = (None, t)"
    by (auto simp: ClearInternal_def [abs_def] session_apps_ok_def)
  moreover have "fst (engine_Stop example_outside t) = None" for t by (simp add: engine_Stop_def)
  ultimately show ?thesis using s
    by (simp add: core_Close_def Let_def case_prod_beta l room_Stop_def drop_missing_def settle_def errors_join_None)
qed

theorem shutdown_answered_witness:
  "\<exists>s p'. HandleMessage (main_services example_env) (json_print False 0 (enc_request (api_request ''core.shutdown'' None))) (example_program s)
      = Some ((\<lparr>rp_ID = 7, rp_Result = Some (RSwitch ''stopped''), rp_Error = None\<rparr>, True), p')
    \<and> \<not> r_running (pg_core p') \<and> \<not> rt_moduleRun (r_net (pg_core p'))"
proof -
  define s :: "unit core" where "s = room_New ''opl'' ''0123456789abcdef'' 0 0 \<lparr>d_files = fmempty, d_script = []\<rparr> example_runtime"
  obtain s' where c: "core_Close example_outside 0 None s = (None, s')" using api_close [OF s_def] by (metis prod.collapse)
  let ?rq = "api_request ''core.shutdown'' None"
  have d: "decode_request (json_print False 0 (enc_request ?rq)) = (7, Some ?rq)"
    by (rule api_decoded) (simp_all add: ascii_def)
  have m: "map_of (handlers (main_services example_env)) ''core.shutdown'' = Some (\<lambda>rq. no_params rq (shut_down (main_services example_env)))"
    by (simp add: handlers_def Let_def)
  have "shut_down (main_services example_env) (example_program s)
      = ((Some (RSwitch ''stopped''), None, True), (example_program s)\<lparr>pg_core := s'\<rparr>)"
    by (simp add: shut_down_def main_services_def Let_def on_rooms_def example_env_def example_program_def c commandError_def)
  then have "dispatch (main_services example_env) ?rq (example_program s)
      = Some ((Some (RSwitch ''stopped''), None, True), (example_program s)\<lparr>pg_core := s'\<rparr>)"
    by (simp add: dispatch_def m api_request_def no_params_def emptyParams_def params_members_def)
  moreover have "\<not> maxLineBytes < length (json_print False 0 (enc_request ?rq))" using api_messages(1) by simp
  ultimately have h: "HandleMessage (main_services example_env) (json_print False 0 (enc_request ?rq)) (example_program s)
      = Some ((\<lparr>rp_ID = 7, rp_Result = Some (RSwitch ''stopped''), rp_Error = None\<rparr>, True), (example_program s)\<lparr>pg_core := s'\<rparr>)"
    unfolding HandleMessage_def by (simp add: d) (simp add: api_request_def)
  from shutdown_answered [OF h] h show ?thesis by blast
qed

theorem failing_answer_witness:
  "\<exists>s. HandleMessage (main_services example_env)
      (json_print False 0 (enc_request (api_request ''room.setJoinEnabled'' (Some (JObj [(''enabled'', JBool True)]))))) (example_program s)
    = Some ((\<lparr>rp_ID = 7, rp_Result = Some RZero, rp_Error = Some \<lparr>pe_Code = ''INVALID_STATE'', pe_cause = Some errStopped\<rparr>\<rparr>, False), example_program s)"
proof -
  let ?rq = "api_request ''room.setJoinEnabled'' (Some (JObj [(''enabled'', JBool True)]))"
  from api_start obtain s :: "unit core" where s: "\<not> r_running s" by blast
  have d: "decode_request (json_print False 0 (enc_request ?rq)) = (rq_ID ?rq, Some ?rq)"
    using api_decoded [of "''room.setJoinEnabled''" "Some (JObj [(''enabled'', JBool True)])"]
    by (simp add: api_request_def ascii_def utf8_ascii)
  from failing_answer [OF d api_messages(3), of "example_program s" True example_env] s show ?thesis
    by (auto simp: api_request_def example_program_def)
qed

theorem broken_settings_witness:
  "\<exists>e. fst (main_start (Inr []) ''set.json'' [] \<lparr>d_files = fmupd ''set.json'' (bytes_of ''{'') fmempty, d_script = []\<rparr>) = Inl e"
proof (rule broken_settings)
  show "fmlookup (d_files \<lparr>d_files = fmupd ''set.json'' (bytes_of ''{'') fmempty, d_script = []\<rparr>) ''set.json'' = Some (bytes_of ''{'')" by simp
  show "settings_of (string_of (bytes_of ''{'')) = None"
    by (simp add: settings_of_def json_parse_def skip_ws_def json_ws_def numeral_eq_Suc)
qed simp
end
